(* ===== verification/Go_Prelude.thy ===== *)
theory Go_Prelude
  imports Main "HOL-Library.Word" "HOL-Library.Finite_Map"
begin

text \<open>
  What every other theory uses: the Go types of the model (byte strings, 64-bit unsigned
  integers, slices that may be nil), the errors and outcomes of a call, the collections of
  hints of the components, and generic lemmas on words and finite sums.

  A Go function that returns a value and an error becomes a function into
  \<open>'a outcome\<close>: \<open>Ok v\<close> is a return with a nil error, \<open>Err e\<close> a return with
  an error, \<open>Panic\<close> a run-time panic (here always a nil pointer that is dereferenced
  or a slice bound out of range). A function that changes state returns the new state
  beside the outcome, on the error branches too.
\<close>

section \<open>Go types\<close>

type_synonym bytes = "char list"
type_synonym uint64 = "64 word"

text \<open>A slice is nil or a sequence: JSON and the nil tests of the code tell them apart.\<close>

type_synonym 'a slice = "'a list option"

definition elems :: "'a slice \<Rightarrow> 'a list" where
  "elems xs = (case xs of None \<Rightarrow> [] | Some ys \<Rightarrow> ys)"

lemma elems_simps [simp]: "elems None = []" "elems (Some ys) = ys"
  by (simp_all add: elems_def)

section \<open>Errors and outcomes\<close>

text \<open>
  The messages of the errors that the code builds itself, one constructor per kind of
  message. \<open>Wrap\<close> is an error built around another one (the verb \<open>%v\<close>).
\<close>

datatype msg =
    MsgInsufficientBalance
  | MsgAccountNotFound string
  | MsgTransactionNotFound bytes
  | MsgTransactionIDNotFound string
  | MsgNilTrie
  | MsgNilID
  | MsgInMempool string
  | MsgNotInMempool string
  | MsgBlockNotFound string
  | MsgBadBlockIndex uint64
  | MsgMayNotPropose
  | MsgBlockExists uint64 string
  | MsgNodeNotFound int
  | MsgInvalidSignature
  | MsgP2PTimeout
  | MsgNoPeers
  | MsgEmptyID
  | MsgGet | MsgDecode | MsgPut | MsgTrieUpdate | MsgTrieCommit | MsgTrieRestore
  | MsgPrivateKey | MsgPublicKey | MsgSignatureHex | MsgSign | MsgRecover
  | MsgSender | MsgReceiver | MsgSaveSender | MsgSaveReceiver | MsgSaveTransaction
  | MsgExists | MsgMempool | MsgSaveBlock | MsgVerify | MsgProcess | MsgNewTransaction
  | MsgInitAccount nat | MsgSaveAccount nat | MsgInitAccounts
  | MsgGetwd | MsgOpenDB | MsgNewTrie | MsgReadConfig | MsgParseConfig
  | MsgNodeKey | MsgStartServer | MsgReadMessage | MsgRequest
  | MsgRandomSign | MsgBlsSign | MsgRandomIndex | MsgBadThreshold
  | MsgTooFewSignatures nat int | MsgConvertSignature | MsgRecoverShares

datatype error =
    ErrNotFound
  | External string
  | JsonError
  | Fail msg
  | Wrap msg error

datatype 'a outcome = Ok 'a | Err error | Panic

text \<open>An outcome that is neither an error nor a panic.\<close>

fun is_ok :: "'a outcome \<Rightarrow> bool" where
  "is_ok (Ok _) = True"
| "is_ok (Err _) = False"
| "is_ok Panic = False"

lemma is_ok_iff: "is_ok r \<longleftrightarrow> (\<exists>v. r = Ok v)"
  by (cases r) auto

text \<open>\<open>if err != nil { return fmt.Errorf(msg, err) }\<close> around a third-party call.\<close>

definition wrap :: "msg \<Rightarrow> error + 'a \<Rightarrow> 'a outcome" where
  "wrap m r = (case r of Inl e \<Rightarrow> Err (Wrap m e) | Inr v \<Rightarrow> Ok v)"

lemma wrap_simps [simp]: "wrap m (Inl e) = Err (Wrap m e)" "wrap m (Inr v) = Ok v"
  by (simp_all add: wrap_def)

lemma wrap_Ok_iff [simp]: "wrap m r = Ok v \<longleftrightarrow> r = Inr v"
  by (cases r) simp_all

lemma wrap_not_Panic [simp]: "wrap m r \<noteq> Panic"
  by (cases r) simp_all

section \<open>Collections of hints\<close>

named_theorems codec_simps \<open>round trips of the encoders\<close>
named_theorems view_simps \<open>what an operation does to the maps a state stands for\<close>
named_theorems frame_simps \<open>the parts of the state an operation leaves alone\<close>

section \<open>Words\<close>

lemma unat_sub_le:
  fixes a b :: "'a::len word"
  assumes "b \<le> a"
  shows "unat (a - b) = unat a - unat b"
  using assms by (rule unat_sub)

lemma unat_add_small:
  fixes a b :: uint64
  assumes "unat a + unat b < 2 ^ 64"
  shows "unat (a + b) = unat a + unat b"
  using assms by (simp add: unat_word_ariths)

lemma unat_uint64_less [simp]: "unat (a :: uint64) < 18446744073709551616"
  using unsigned_less [of a, where 'a = nat] by simp

lemma unat_plus_one_eq:
  fixes a b :: uint64
  assumes "b = a + 1" and "b \<noteq> 0"
  shows "unat b = Suc (unat a)"
proof -
  have "unat a + 1 < 2 ^ 64"
  proof (rule ccontr)
    assume "\<not> unat a + 1 < 2 ^ 64"
    moreover have "unat a < 2 ^ 64" using unsigned_less [of a, where 'a = nat] by simp
    ultimately have "unat a + 1 = 2 ^ 64" by linarith
    then have "unat b = 0" by (simp add: assms(1) unat_word_ariths)
    with assms(2) show False by (simp add: unat_eq_zero)
  qed
  then show ?thesis by (simp add: assms(1) unat_word_ariths)
qed

section \<open>Finite sums\<close>

text \<open>Changing two summands moves a sum by what they change.\<close>

lemma sum_update_two:
  fixes f g :: "'a \<Rightarrow> nat"
  assumes "finite A" "x \<in> A" "y \<in> A" "x \<noteq> y"
    and "\<And>z. z \<noteq> x \<Longrightarrow> z \<noteq> y \<Longrightarrow> g z = f z"
  shows "sum g A + f x + f y = sum f A + g x + g y"
proof -
  let ?B = "A - {x} - {y}"
  have A: "sum h A = h x + (h y + sum h ?B)" for h :: "'a \<Rightarrow> nat"
    using assms by (simp add: sum.remove [of A x] sum.remove [of "A - {x}" y])
  have "sum g ?B = sum f ?B" by (rule sum.cong) (use assms(5) in auto)
  with A [of f] A [of g] show ?thesis by simp
qed

lemma sum_update_one:
  fixes f g :: "'a \<Rightarrow> nat"
  assumes "finite A" "x \<in> A" and "\<And>z. z \<noteq> x \<Longrightarrow> g z = f z"
  shows "sum g A + f x = sum f A + g x"
proof -
  have A: "sum h A = h x + sum h (A - {x})" for h :: "'a \<Rightarrow> nat"
    using assms by (simp add: sum.remove [of A x])
  have "sum g (A - {x}) = sum f (A - {x})" by (rule sum.cong) (use assms(3) in auto)
  with A [of f] A [of g] show ?thesis by simp
qed

lemma member_le_sum_two:
  fixes f :: "'a \<Rightarrow> nat"
  assumes "finite A" "x \<in> A" "y \<in> A" "x \<noteq> y"
  shows "f x + f y \<le> sum f A"
proof -
  have "f x + f y = sum f {x, y}" using assms(4) by simp
  also have "\<dots> \<le> sum f A" by (rule sum_mono2) (use assms in auto)
  finally show ?thesis .
qed

end
