(* ===== verification/Go_Strings.thy ===== *)
theory Go_Strings
  imports Go_Prelude
begin

text \<open>
  The parts of Go's \<open>strconv\<close>, \<open>unicode/utf8\<close> and \<open>encoding/base64\<close> that the
  program's formatting and persistence use: the decimal form of a \<open>uint64\<close>, valid
  UTF-8 and its repair, and the base64 form of a byte slice, each with its round trip.
  A Go string is a byte sequence, so a \<open>char\<close> is a byte.
\<close>

abbreviation byte :: "char \<Rightarrow> nat" where
  "byte c \<equiv> of_char c"

lemma byte_less [simp]: "(byte c :: nat) < 256"
  by simp

lemma byte_inject: "byte c = (byte d :: nat) \<longleftrightarrow> c = d"
  by simp

section \<open>Decimal numbers\<close>

definition digit_char :: "nat \<Rightarrow> char" where
  "digit_char d = char_of (48 + d)"

definition is_digit :: "char \<Rightarrow> bool" where
  "is_digit c \<longleftrightarrow> 48 \<le> byte c \<and> byte c \<le> (57::nat)"

text \<open>\<open>strconv.FormatUint(x, 10)\<close>, and the verb \<open>%d\<close> at a \<open>uint64\<close>.\<close>

fun dec :: "nat \<Rightarrow> string" where
  "dec n = (if n < 10 then [digit_char n] else dec (n div 10) @ [digit_char (n mod 10)])"

declare dec.simps [simp del]

definition FormatUint :: "uint64 \<Rightarrow> string" where
  "FormatUint w = dec (unat w)"

fun dec_val :: "nat \<Rightarrow> string \<Rightarrow> nat option" where
  "dec_val a [] = Some a"
| "dec_val a (c # cs) = (if is_digit c then dec_val (10 * a + (byte c - 48)) cs else None)"

text \<open>\<open>strconv.ParseUint(s, 10, 64)\<close>.\<close>

definition ParseUint :: "string \<Rightarrow> uint64 option" where
  "ParseUint s =
     (if s = [] then None
      else case dec_val 0 s of
        None \<Rightarrow> None
      | Some n \<Rightarrow> if n < 2 ^ 64 then Some (word_of_nat n) else None)"

lemma byte_digit_char [simp]: "d < 10 \<Longrightarrow> byte (digit_char d) = 48 + d"
  by (simp add: digit_char_def)

lemma is_digit_digit_char [simp]: "d < 10 \<Longrightarrow> is_digit (digit_char d)"
  by (simp add: is_digit_def)

lemma dec_not_Nil [simp]: "dec n \<noteq> []"
  by (subst dec.simps) simp

lemma dec_digits: "list_all is_digit (dec n)"
proof (induction n rule: dec.induct)
  case (1 n)
  then show ?case by (subst dec.simps) auto
qed

lemma dec_val_append:
  "dec_val a (xs @ ys) = Option.bind (dec_val a xs) (\<lambda>b. dec_val b ys)"
  by (induction xs arbitrary: a) auto

lemma dec_val_dec_digit: "n < 10 \<Longrightarrow> dec_val a [digit_char n] = Some (10 * a + n)"
  by simp

lemma dec_val_dec: "dec_val 0 (dec n) = Some n"
proof (induction n rule: dec.induct)
  case (1 n)
  show ?case
  proof (cases "n < 10")
    case True
    then show ?thesis by (subst dec.simps) simp
  next
    case False
    with 1 have "dec_val 0 (dec (n div 10)) = Some (n div 10)" by simp
    with False show ?thesis
      by (subst dec.simps) (simp add: dec_val_append)
  qed
qed

lemma dec_inject [simp]: "dec m = dec n \<longleftrightarrow> m = n"
  by (metis dec_val_dec option.inject)

lemma FormatUint_inject [simp]: "FormatUint a = FormatUint b \<longleftrightarrow> a = b"
  by (simp add: FormatUint_def word_unat_eq_iff)

lemma ParseUint_FormatUint [codec_simps]: "ParseUint (FormatUint w) = Some w"
  by (simp add: ParseUint_def FormatUint_def dec_val_dec)

lemma FormatUint_not_Nil [simp]: "FormatUint w \<noteq> []"
  by (simp add: FormatUint_def)

lemma FormatUint_digits: "list_all is_digit (FormatUint w)"
  by (simp add: FormatUint_def dec_digits)

section \<open>UTF-8\<close>

definition cont :: "char \<Rightarrow> bool" where
  "cont c \<longleftrightarrow> 128 \<le> byte c \<and> byte c < (192::nat)"

definition between :: "nat \<Rightarrow> nat \<Rightarrow> char \<Rightarrow> bool" where
  "between lo hi c \<longleftrightarrow> lo \<le> byte c \<and> byte c \<le> hi"

text \<open>
  The length of the valid encoding at the head of a non-empty string, 0 where there is
  none: \<open>utf8.DecodeRune\<close> then returns \<open>RuneError\<close> with size 1. The bounds of the
  second byte exclude overlong forms, surrogates and code points above 10FFFF.
\<close>

fun utf8_len :: "bytes \<Rightarrow> nat" where
  "utf8_len [] = 0"
| "utf8_len (c # cs) =
     (let b = byte c in
      if b < 128 then 1
      else if 194 \<le> b \<and> b \<le> 223 then
        (case cs of c1 # _ \<Rightarrow> if cont c1 then 2 else 0 | _ \<Rightarrow> 0)
      else if 224 \<le> b \<and> b \<le> 239 then
        (case cs of
           c1 # c2 # _ \<Rightarrow>
             if between (if b = 224 then 160 else 128) (if b = 237 then 159 else 191) c1
                \<and> cont c2 then 3 else 0
         | _ \<Rightarrow> 0)
      else if 240 \<le> b \<and> b \<le> 244 then
        (case cs of
           c1 # c2 # c3 # _ \<Rightarrow>
             if between (if b = 240 then 144 else 128) (if b = 244 then 143 else 191) c1
                \<and> cont c2 \<and> cont c3 then 4 else 0
         | _ \<Rightarrow> 0)
      else 0)"

definition rune_error :: bytes where
  "rune_error = [CHR 0xEF, CHR 0xBF, CHR 0xBD]"

text \<open>A string with every invalid byte replaced by U+FFFD, as writing and reading JSON does.\<close>

fun to_valid :: "bytes \<Rightarrow> bytes" where
  "to_valid [] = []"
| "to_valid (c # cs) =
     (let n = utf8_len (c # cs) in
      if n = 0 then rune_error @ to_valid cs
      else take n (c # cs) @ to_valid (drop (n - 1) cs))"

definition ascii :: "bytes \<Rightarrow> bool" where
  "ascii s \<longleftrightarrow> list_all (\<lambda>c. byte c < (128::nat)) s"

lemma ascii_simps [simp]:
  "ascii []" "ascii (c # cs) \<longleftrightarrow> byte c < (128::nat) \<and> ascii cs"
  "ascii (xs @ ys) \<longleftrightarrow> ascii xs \<and> ascii ys"
  by (auto simp: ascii_def)

declare utf8_len.simps(2) [simp del] to_valid.simps(2) [simp del]

lemma utf8_len_ascii [simp]: "byte c < (128::nat) \<Longrightarrow> utf8_len (c # cs) = 1"
  by (simp add: utf8_len.simps)

lemma to_valid_ascii [simp]: "ascii s \<Longrightarrow> to_valid s = s"
  by (induction s) (simp_all add: to_valid.simps)

lemma digit_ascii: "list_all is_digit s \<Longrightarrow> ascii s"
  by (induction s) (auto simp: is_digit_def)

lemma utf8_len_le: "utf8_len s \<le> length s"
  by (cases s) (auto simp: utf8_len.simps Let_def split: list.splits)

text \<open>A valid encoding is recognised whatever follows it.\<close>

lemma utf8_len_take:
  assumes "utf8_len s = n" and "0 < n"
  shows "utf8_len (take n s @ t) = n"
proof (cases s)
  case Nil
  with assms show ?thesis by simp
next
  case (Cons c cs)
  with assms show ?thesis
    by (auto simp: utf8_len.simps Let_def split: if_splits list.splits)
qed

lemma to_valid_take:
  assumes "utf8_len s = n" and "0 < n"
  shows "to_valid (take n s @ t) = take n s @ to_valid t"
proof -
  from assms utf8_len_le [of s] obtain c cs where s: "s = c # cs" "n \<le> Suc (length cs)"
    by (cases s) auto
  obtain m where n: "n = Suc m" using assms(2) by (cases n) auto
  have "utf8_len (c # take m cs @ t) = Suc m"
    using utf8_len_take [OF assms, of t] s n by simp
  with s n assms(1) show ?thesis by (simp add: to_valid.simps Let_def)
qed

lemma to_valid_rune_error: "to_valid (rune_error @ t) = rune_error @ to_valid t"
  using to_valid_take [of rune_error 3 t]
  by (simp add: rune_error_def utf8_len.simps between_def cont_def)

text \<open>Repair is idempotent: what has been written once stays as it is.\<close>

lemma to_valid_idem [simp]: "to_valid (to_valid s) = to_valid s"
proof (induction s rule: to_valid.induct)
  case 1
  then show ?case by simp
next
  case (2 c cs)
  let ?n = "utf8_len (c # cs)"
  show ?case
  proof (cases "?n = 0")
    case True
    with 2(1) [OF refl] show ?thesis by (simp add: to_valid.simps to_valid_rune_error)
  next
    case False
    then have *: "to_valid (c # cs) = take ?n (c # cs) @ to_valid (drop (?n - 1) cs)"
      by (simp add: to_valid.simps Let_def)
    have "to_valid (take ?n (c # cs) @ to_valid (drop (?n - 1) cs))
        = take ?n (c # cs) @ to_valid (to_valid (drop (?n - 1) cs))"
      by (rule to_valid_take) (use False in simp_all)
    with False 2(2) [OF refl] show ?thesis unfolding * by simp
  qed
qed

section \<open>Base64\<close>

text \<open>\<open>encoding/base64.StdEncoding\<close>, the JSON form of a \<open>[]byte\<close>.\<close>

definition b64_char :: "nat \<Rightarrow> char" where
  "b64_char i =
     (if i < 26 then char_of (65 + i)
      else if i < 52 then char_of (97 + (i - 26))
      else if i < 62 then char_of (48 + (i - 52))
      else if i = 62 then CHR ''+'' else CHR ''/'')"

definition b64_val :: "char \<Rightarrow> nat option" where
  "b64_val c =
     (let b = byte c in
      if 65 \<le> b \<and> b \<le> 90 then Some (b - 65)
      else if 97 \<le> b \<and> b \<le> 122 then Some (b - 97 + 26)
      else if 48 \<le> b \<and> b \<le> 57 then Some (b - 48 + 52)
      else if c = CHR ''+'' then Some 62
      else if c = CHR ''/'' then Some 63 else None)"

fun b64_encode :: "bytes \<Rightarrow> bytes" where
  "b64_encode [] = []"
| "b64_encode [x] =
     [b64_char (byte x div 4), b64_char (byte x mod 4 * 16), CHR ''='', CHR ''='']"
| "b64_encode [x, y] =
     [b64_char (byte x div 4), b64_char (byte x mod 4 * 16 + byte y div 16),
      b64_char (byte y mod 16 * 4), CHR ''='']"
| "b64_encode (x # y # z # r) =
     [b64_char (byte x div 4), b64_char (byte x mod 4 * 16 + byte y div 16),
      b64_char (byte y mod 16 * 4 + byte z div 64), b64_char (byte z mod 64)]
     @ b64_encode r"

text \<open>The decoder over groups of four; it skips line breaks and ignores trailing bits.\<close>

fun b64_groups :: "bytes \<Rightarrow> bytes option" where
  "b64_groups [] = Some []"
| "b64_groups (p # q # r # s # t) =
     (case (b64_val p, b64_val q) of
        (Some i, Some j) \<Rightarrow>
          (if r = CHR ''='' then
             (if s = CHR ''='' \<and> t = [] then Some [char_of (i * 4 + j div 16)] else None)
           else case b64_val r of
             None \<Rightarrow> None
           | Some k \<Rightarrow>
               (if s = CHR ''='' then
                  (if t = [] then
                     Some [char_of (i * 4 + j div 16), char_of (j mod 16 * 16 + k div 4)]
                   else None)
                else case (b64_val s, b64_groups t) of
                  (Some l, Some u) \<Rightarrow>
                    Some (char_of (i * 4 + j div 16) # char_of (j mod 16 * 16 + k div 4)
                          # char_of (k mod 4 * 64 + l) # u)
                | _ \<Rightarrow> None))
      | _ \<Rightarrow> None)"
| "b64_groups _ = None"

definition b64_decode :: "bytes \<Rightarrow> bytes option" where
  "b64_decode s = b64_groups (filter (\<lambda>c. c \<noteq> CHR 0x0A \<and> c \<noteq> CHR 0x0D) s)"

lemma b64_val_char [simp]: "i < 64 \<Longrightarrow> b64_val (b64_char i) = Some i"
  by (auto simp: b64_val_def b64_char_def Let_def)

lemma b64_char_neq [simp]:
  assumes "i < 64"
  shows "b64_char i \<noteq> CHR ''=''" "b64_char i \<noteq> CHR 0x0A" "b64_char i \<noteq> CHR 0x0D"
  using b64_val_char [OF assms] by (auto simp: b64_val_def)

lemma b64_char_ascii [simp]: "i < 64 \<Longrightarrow> byte (b64_char i) < (128::nat)"
  by (auto simp: b64_char_def)

text \<open>The six-bit groups are below 64, and put together they give the bytes back.\<close>

lemma b64_parts:
  fixes y :: nat
  assumes "y < 256"
  shows "y div 4 < 64" "x mod 4 * 16 < (64::nat)" "x mod 4 * 16 + y div 16 < 64"
    "x mod 16 * 4 + y div 64 < 64" "x mod 16 * 4 < (64::nat)"
proof -
  have "x mod 4 < 4" "x mod 16 < 16" by simp_all
  moreover have "y div 4 < 64" "y div 16 < 16" "y div 64 < 4"
    using assms by (simp_all add: less_mult_imp_div_less)
  ultimately show "y div 4 < 64" "x mod 4 * 16 < (64::nat)" "x mod 4 * 16 + y div 16 < 64"
    "x mod 16 * 4 + y div 64 < 64" "x mod 16 * 4 < (64::nat)" by linarith+
qed

lemma b64_join:
  fixes x y z :: nat
  shows "y < 256 \<Longrightarrow> x div 4 * 4 + (x mod 4 * 16 + y div 16) div 16 = x"
    and "x div 4 * 4 + x mod 4 * 16 div 16 = x"
    and "z < 256 \<Longrightarrow> y < 256 \<Longrightarrow>
      (x mod 4 * 16 + y div 16) mod 16 * 16 + (y mod 16 * 4 + z div 64) div 4 = y"
    and "y < 256 \<Longrightarrow> (x mod 4 * 16 + y div 16) mod 16 * 16 + y mod 16 * 4 div 4 = y"
    and "z < 256 \<Longrightarrow> (y mod 16 * 4 + z div 64) mod 4 * 64 + z mod 64 = z"
proof -
  have y: "(x mod 4 * 16 + y div 16) div 16 = x mod 4"
      "(x mod 4 * 16 + y div 16) mod 16 = y div 16" if "y < 256"
    using that by (simp_all add: less_mult_imp_div_less)
  have z: "(y mod 16 * 4 + z div 64) div 4 = y mod 16"
      "(y mod 16 * 4 + z div 64) mod 4 = z div 64" if "z < 256"
    using that by (simp_all add: less_mult_imp_div_less)
  show "y < 256 \<Longrightarrow> x div 4 * 4 + (x mod 4 * 16 + y div 16) div 16 = x"
    by (simp add: y)
  show "x div 4 * 4 + x mod 4 * 16 div 16 = x" by simp
  show "z < 256 \<Longrightarrow> y < 256 \<Longrightarrow>
      (x mod 4 * 16 + y div 16) mod 16 * 16 + (y mod 16 * 4 + z div 64) div 4 = y"
    by (simp add: y z)
  show "y < 256 \<Longrightarrow> (x mod 4 * 16 + y div 16) mod 16 * 16 + y mod 16 * 4 div 4 = y"
    by (simp add: y)
  show "z < 256 \<Longrightarrow> (y mod 16 * 4 + z div 64) mod 4 * 64 + z mod 64 = z"
    by (simp add: z)
qed

lemmas b64_bytes = b64_parts [OF byte_less] b64_join(1) [OF byte_less] b64_join(2)
  b64_join(3) [OF byte_less byte_less] b64_join(4,5) [OF byte_less]

lemma b64_groups_encode: "b64_groups (b64_encode s) = Some s"
  by (induction s rule: b64_encode.induct)
    (simp_all only: b64_encode.simps b64_groups.simps append.simps b64_val_char b64_char_neq
      b64_bytes prod.case option.case if_True if_False simp_thms char_of_char
      mod_less_divisor zero_less_numeral)

lemma b64_encode_no_break:
  "filter (\<lambda>c. c \<noteq> CHR 0x0A \<and> c \<noteq> CHR 0x0D) (b64_encode s) = b64_encode s"
  by (induction s rule: b64_encode.induct) (simp_all add: b64_bytes)

lemma b64_decode_encode [codec_simps]: "b64_decode (b64_encode s) = Some s"
  by (simp add: b64_decode_def b64_encode_no_break b64_groups_encode)

lemma ascii_b64_encode [simp]: "ascii (b64_encode s)"
  by (induction s rule: b64_encode.induct) (simp_all add: b64_bytes)

end
