(* ===== verification/Go_Json.thy ===== *)
theory Go_Json
  imports Go_Strings
begin

text \<open>
  What the program uses of Go's \<open>encoding/json\<close>: values, the compact printer of
  \<open>json.Marshal\<close> (HTML-escaped strings, invalid UTF-8 replaced), the reader of
  \<open>json.Unmarshal\<close>, and the decoding of struct fields. The reader is recursive descent
  with the length of the input as fuel; \<open>parse_print\<close> shows that it reads back everything
  the printer writes, up to the repair of invalid UTF-8.
\<close>

section \<open>Values\<close>

text \<open>A number keeps its literal, as Go's decoder does before it knows the target type.\<close>

datatype json =
    JNull
  | JBool bool
  | JNum string
  | JStr string
  | JArr "json list"
  | JObj "(string \<times> json) list"

section \<open>String literals\<close>

definition hex_char :: "nat \<Rightarrow> char" where
  "hex_char d = char_of (if d < 10 then 48 + d else 87 + d)"

definition hex_val :: "char \<Rightarrow> nat option" where
  "hex_val c =
     (let b = byte c in
      if 48 \<le> b \<and> b \<le> 57 then Some (b - 48)
      else if 97 \<le> b \<and> b \<le> 102 then Some (b - 87)
      else if 65 \<le> b \<and> b \<le> 70 then Some (b - 55) else None)"

text \<open>The escape of a single byte below 128, HTML escaping on.\<close>

definition plain :: "char \<Rightarrow> bool" where
  "plain c \<longleftrightarrow> 32 \<le> byte c \<and> byte c < (128::nat)
     \<and> c \<notin> {CHR 0x22, CHR 0x5C, CHR ''<'', CHR ''>'', CHR ''&''}"

definition escape :: "char \<Rightarrow> bytes" where
  "escape c =
     (if plain c then [c]
      else if c = CHR 0x22 \<or> c = CHR 0x5C then [CHR 0x5C, c]
      else if c = CHR 0x08 then [CHR 0x5C, CHR ''b'']
      else if c = CHR 0x0C then [CHR 0x5C, CHR ''f'']
      else if c = CHR 0x0A then [CHR 0x5C, CHR ''n'']
      else if c = CHR 0x0D then [CHR 0x5C, CHR ''r'']
      else if c = CHR 0x09 then [CHR 0x5C, CHR ''t'']
      else [CHR 0x5C, CHR ''u'', CHR ''0'', CHR ''0'',
            hex_char (byte c div 16), hex_char (byte c mod 16)])"

text \<open>U+2028 and U+2029 are valid in a JSON string and escaped all the same.\<close>

definition line_sep :: "nat \<Rightarrow> bytes" where
  "line_sep k = [CHR 0xE2, CHR 0x80, char_of (168 + k)]"

fun quote_body :: "bytes \<Rightarrow> bytes" where
  "quote_body [] = []"
| "quote_body (c # cs) =
     (let n = utf8_len (c # cs); r = take n (c # cs) in
      if byte c < (128::nat) then escape c @ quote_body cs
      else if n = 0 then CHR 0x5C # ''ufffd'' @ quote_body cs
      else if r = line_sep 0 then CHR 0x5C # ''u2028'' @ quote_body (drop (n - 1) cs)
      else if r = line_sep 1 then CHR 0x5C # ''u2029'' @ quote_body (drop (n - 1) cs)
      else r @ quote_body (drop (n - 1) cs))"

definition quote :: "bytes \<Rightarrow> bytes" where
  "quote s = CHR 0x22 # quote_body s @ [CHR 0x22]"

text \<open>\<open>utf8.EncodeRune\<close>; a surrogate becomes U+FFFD.\<close>

definition encode_rune :: "nat \<Rightarrow> bytes" where
  "encode_rune r =
     (if r < 128 then [char_of r]
      else if r < 2048 then [char_of (192 + r div 64), char_of (128 + r mod 64)]
      else if 55296 \<le> r \<and> r < 57344 \<or> 1114112 \<le> r then rune_error
      else if r < 65536 then
        [char_of (224 + r div 4096), char_of (128 + r div 64 mod 64), char_of (128 + r mod 64)]
      else
        [char_of (240 + r div 262144), char_of (128 + r div 4096 mod 64),
         char_of (128 + r div 64 mod 64), char_of (128 + r mod 64)])"

text \<open>The four hexadecimal digits after \<open>\u\<close>.\<close>

fun getu4 :: "bytes \<Rightarrow> (nat \<times> bytes) option" where
  "getu4 (a # b # c # d # r) =
     (case (hex_val a, hex_val b, hex_val c, hex_val d) of
        (Some w, Some x, Some y, Some z) \<Rightarrow> Some (w * 4096 + x * 256 + y * 16 + z, r)
      | _ \<Rightarrow> None)"
| "getu4 _ = None"

text \<open>The low half of a surrogate pair, when one follows.\<close>

fun low_surrogate :: "bytes \<Rightarrow> (nat \<times> bytes) option" where
  "low_surrogate (a # b # r) =
     (if a = CHR 0x5C \<and> b = CHR ''u'' then
        (case getu4 r of
           Some (l, r') \<Rightarrow> if 56320 \<le> l \<and> l < 57344 then Some (l, r') else None
         | None \<Rightarrow> None)
      else None)"
| "low_surrogate _ = None"

text \<open>The rune that \<open>\uXXXX\<close> at the head (after \<open>\u\<close>) stands for.\<close>

definition unicode_escape :: "bytes \<Rightarrow> (bytes \<times> bytes) option" where
  "unicode_escape s =
     (case getu4 s of
        None \<Rightarrow> None
      | Some (h, r) \<Rightarrow>
          if 55296 \<le> h \<and> h < 56320 then
            (case low_surrogate r of
               Some (l, r') \<Rightarrow> Some (encode_rune (65536 + (h - 55296) * 1024 + (l - 56320)), r')
             | None \<Rightarrow> Some (rune_error, r))
          else Some (encode_rune h, r))"

definition simple_escape :: "char \<Rightarrow> char option" where
  "simple_escape e =
     (if e \<in> {CHR 0x22, CHR 0x5C, CHR ''/''} then Some e
      else if e = CHR ''b'' then Some (CHR 0x08)
      else if e = CHR ''f'' then Some (CHR 0x0C)
      else if e = CHR ''n'' then Some (CHR 0x0A)
      else if e = CHR ''r'' then Some (CHR 0x0D)
      else if e = CHR ''t'' then Some (CHR 0x09) else None)"

lemma getu4_shorter: "getu4 s = Some (h, r) \<Longrightarrow> length r < length s"
  by (induction s rule: getu4.induct) (auto split: option.splits)

lemma low_surrogate_shorter: "low_surrogate s = Some (h, r) \<Longrightarrow> length r < length s"
  by (induction s rule: low_surrogate.induct)
    (auto split: option.splits if_splits dest!: getu4_shorter)

lemma unicode_escape_shorter: "unicode_escape s = Some (h, r) \<Longrightarrow> length r < length s"
  by (auto simp: unicode_escape_def split: option.splits if_splits
      dest!: getu4_shorter low_surrogate_shorter)

definition prepend :: "bytes \<Rightarrow> (bytes \<times> bytes) option \<Rightarrow> (bytes \<times> bytes) option" where
  "prepend p r = map_option (apfst ((@) p)) r"

lemma prepend_simps [simp]:
  "prepend p None = None" "prepend p (Some (s, t)) = Some (p @ s, t)"
  by (simp_all add: prepend_def)

lemma prepend_cong [fundef_cong]: "p = q \<Longrightarrow> r = s \<Longrightarrow> prepend p r = prepend q s"
  by simp

text \<open>The string after the opening quote: its value and what follows the closing quote.\<close>

function unquote :: "bytes \<Rightarrow> (bytes \<times> bytes) option" where
  "unquote [] = None"
| "unquote (c # cs) =
     (if c = CHR 0x22 then Some ([], cs)
      else if c = CHR 0x5C then
        (case cs of
           [] \<Rightarrow> None
         | e # es \<Rightarrow>
             if e = CHR ''u'' then
               (case unicode_escape es of
                  None \<Rightarrow> None
                | Some (p, r) \<Rightarrow> prepend p (unquote r))
             else
               (case simple_escape e of
                  None \<Rightarrow> None
                | Some d \<Rightarrow> prepend [d] (unquote es)))
      else if byte c < (32::nat) then None
      else if utf8_len (c # cs) = 0 then prepend rune_error (unquote cs)
      else prepend (take (utf8_len (c # cs)) (c # cs))
             (unquote (drop (utf8_len (c # cs) - 1) cs)))"
  by pat_completeness auto
termination
  by (relation "measure length") (auto dest!: unicode_escape_shorter)

declare unquote.simps(2) [simp del] quote_body.simps(2) [simp del]

section \<open>Reading back a string literal\<close>

lemma char_of_numerals:
  "char_of (239::nat) = CHR 0xEF" "char_of (191::nat) = CHR 0xBF" "char_of (189::nat) = CHR 0xBD"
  "char_of (226::nat) = CHR 0xE2" "char_of (128::nat) = CHR 0x80"
  by (simp_all add: char_of_def bit_iff_odd)

lemma hex_val_char [simp]: "d < 16 \<Longrightarrow> hex_val (hex_char d) = Some d"
  by (auto simp: hex_val_def hex_char_def Let_def)

lemma hex_val_zero [simp]: "hex_val (CHR ''0'') = Some 0"
  by (simp add: hex_val_def)

lemma unquote_end: "unquote (CHR 0x22 # t) = Some ([], t)"
  by (simp add: unquote.simps)

lemma unquote_plain:
  assumes "plain c"
  shows "unquote (c # t) = prepend [c] (unquote t)"
proof -
  from assms have c: "c \<noteq> CHR 0x22" "c \<noteq> CHR 0x5C" "\<not> byte c < (32::nat)"
      "byte c < (128::nat)"
    by (auto simp: plain_def)
  then show ?thesis by (simp add: unquote.simps)
qed

lemma unquote_unicode:
  assumes "unicode_escape (es @ t) = Some (p, t)"
  shows "unquote (CHR 0x5C # CHR ''u'' # es @ t) = prepend p (unquote t)"
  using assms by (simp add: unquote.simps)

lemma unquote_simple:
  assumes "simple_escape e = Some d" "e \<noteq> CHR ''u''"
  shows "unquote (CHR 0x5C # e # t) = prepend [d] (unquote t)"
  using assms by (simp add: unquote.simps)

lemma unquote_escape:
  assumes "byte c < (128::nat)"
  shows "unquote (escape c @ t) = prepend [c] (unquote t)"
proof (cases "escape c = [CHR 0x5C, CHR ''u'', CHR ''0'', CHR ''0'',
            hex_char (byte c div 16), hex_char (byte c mod 16)]")
  case True
  have "byte c div 16 < (8::nat)" using assms by (simp add: less_mult_imp_div_less)
  then have "unicode_escape ([CHR ''0'', CHR ''0'', hex_char (byte c div 16),
      hex_char (byte c mod 16)] @ t) = Some ([c], t)"
    using assms by (simp add: unicode_escape_def encode_rune_def)
  from unquote_unicode [OF this] True show ?thesis by simp
next
  case False
  then show ?thesis
    by (auto simp: escape_def unquote_plain unquote_simple simple_escape_def split: if_splits)
qed

lemma unquote_chunk:
  assumes "utf8_len (c # cs) = n" "0 < n" "\<not> byte c < (128::nat)"
  shows "unquote (take n (c # cs) @ t) = prepend (take n (c # cs)) (unquote t)"
proof -
  obtain m where n: "n = Suc m" using assms(2) by (cases n) auto
  have len: "m \<le> length cs" using utf8_len_le [of "c # cs"] assms(1) n by simp
  have u: "utf8_len (c # take m cs @ t) = Suc m"
    using utf8_len_take [of "c # cs" n t] assms n by simp
  have "c \<noteq> CHR 0x22" "c \<noteq> CHR 0x5C" using assms(3) by auto
  with u len assms(3) n show ?thesis by (simp add: unquote.simps)
qed

lemma unquote_quote_body:
  "unquote (quote_body s @ CHR 0x22 # t) = Some (to_valid s, t)"
proof (induction s rule: quote_body.induct)
  case 1
  show ?case by (simp add: unquote_end)
next
  case (2 c cs)
  let ?n = "utf8_len (c # cs)" and ?r = "take (utf8_len (c # cs)) (c # cs)"
  have fffd: "unicode_escape (''fffd'' @ x) = Some (rune_error, x)"
    and ls: "unicode_escape (''2028'' @ x) = Some (line_sep 0, x)"
    and ps: "unicode_escape (''2029'' @ x) = Some (line_sep 1, x)" for x
    by (simp_all add: unicode_escape_def hex_val_def encode_rune_def rune_error_def line_sep_def
        char_of_numerals)
  consider (ascii) "byte c < (128::nat)"
    | (bad) "\<not> byte c < (128::nat)" "?n = 0"
    | (ls) "\<not> byte c < (128::nat)" "?n \<noteq> 0" "?r = line_sep 0"
    | (ps) "\<not> byte c < (128::nat)" "?n \<noteq> 0" "?r = line_sep 1"
    | (chunk) "\<not> byte c < (128::nat)" "?n \<noteq> 0" "?r \<noteq> line_sep 0" "?r \<noteq> line_sep 1"
    by blast
  then show ?case
  proof cases
    case ascii
    then show ?thesis
      using 2(1) [OF refl refl] by (simp add: quote_body.simps to_valid.simps unquote_escape)
  next
    case bad
    then show ?thesis
      using 2(2) [OF refl refl] unquote_unicode [OF fffd]
      by (simp add: quote_body.simps to_valid.simps)
  next
    case ls
    then show ?thesis
      using 2(3) [OF refl refl] unquote_unicode [OF \<open>\<And>x. unicode_escape (''2028'' @ x) = _\<close>]
      by (simp add: quote_body.simps to_valid.simps Let_def)
  next
    case ps
    have "line_sep 1 \<noteq> line_sep 0" by (simp add: line_sep_def)
    with ps show ?thesis
      using 2(4) [OF refl refl] unquote_unicode [OF \<open>\<And>x. unicode_escape (''2029'' @ x) = _\<close>]
      by (simp add: quote_body.simps to_valid.simps Let_def)
  next
    case chunk
    have q: "quote_body (c # cs) = ?r @ quote_body (drop (?n - 1) cs)"
      using chunk by (simp add: quote_body.simps Let_def)
    have v: "to_valid (c # cs) = ?r @ to_valid (drop (?n - 1) cs)"
      using chunk by (simp add: to_valid.simps Let_def)
    have "unquote (?r @ quote_body (drop (?n - 1) cs) @ CHR 0x22 # t)
        = prepend ?r (unquote (quote_body (drop (?n - 1) cs) @ CHR 0x22 # t))"
      by (rule unquote_chunk) (use chunk in simp_all)
    with 2(5) [OF refl refl] chunk show ?thesis by (simp only: q v append_assoc) simp
  qed
qed

section \<open>Printing\<close>

fun jprint :: "json \<Rightarrow> bytes"
  and jprint_elems :: "json list \<Rightarrow> bytes"
  and jprint_members :: "(string \<times> json) list \<Rightarrow> bytes" where
  "jprint JNull = ''null''"
| "jprint (JBool b) = (if b then ''true'' else ''false'')"
| "jprint (JNum l) = l"
| "jprint (JStr s) = quote s"
| "jprint (JArr xs) = CHR ''['' # jprint_elems xs @ '']''"
| "jprint (JObj ms) = CHR ''{'' # jprint_members ms @ ''}''"
| "jprint_elems [] = []"
| "jprint_elems [x] = jprint x"
| "jprint_elems (x # y # ys) = jprint x @ CHR '','' # jprint_elems (y # ys)"
| "jprint_members [] = []"
| "jprint_members [(k, v)] = quote k @ CHR '':'' # jprint v"
| "jprint_members ((k, v) # m # ms) = quote k @ CHR '':'' # jprint v @ CHR '','' # jprint_members (m # ms)"

section \<open>Parsing\<close>

definition is_space :: "char \<Rightarrow> bool" where
  "is_space c \<longleftrightarrow> c \<in> {CHR 0x20, CHR 0x09, CHR 0x0A, CHR 0x0D}"

fun skip :: "bytes \<Rightarrow> bytes" where
  "skip [] = []"
| "skip (c # cs) = (if is_space c then skip cs else c # cs)"

text \<open>The next byte that is not white space, when it is the expected one.\<close>

definition expect :: "char \<Rightarrow> bytes \<Rightarrow> bytes option" where
  "expect c s = (case skip s of [] \<Rightarrow> None | d # r \<Rightarrow> if d = c then Some r else None)"

text \<open>Number literals: \<open>-? (0 | [1-9][0-9]*) (. [0-9]+)? ([eE] [+-]? [0-9]+)?\<close>.\<close>

definition num_char :: "char \<Rightarrow> bool" where
  "num_char c \<longleftrightarrow> is_digit c \<or> c \<in> {CHR ''-'', CHR ''+'', CHR ''.'', CHR ''e'', CHR ''E''}"

definition digits_ok :: "bytes \<Rightarrow> bool" where
  "digits_ok s \<longleftrightarrow> s \<noteq> [] \<and> list_all is_digit s"

definition exp_ok :: "bytes \<Rightarrow> bool" where
  "exp_ok s =
     (case s of
        [] \<Rightarrow> True
      | c # r \<Rightarrow> c \<in> {CHR ''e'', CHR ''E''}
          \<and> digits_ok (case r of d # r' \<Rightarrow> if d \<in> {CHR ''+'', CHR ''-''} then r' else r | [] \<Rightarrow> []))"

definition frac_ok :: "bytes \<Rightarrow> bool" where
  "frac_ok s =
     (case s of
        c # r \<Rightarrow>
          if c = CHR ''.''
          then takeWhile is_digit r \<noteq> [] \<and> exp_ok (dropWhile is_digit r)
          else exp_ok s
      | [] \<Rightarrow> True)"

definition num_ok :: "bytes \<Rightarrow> bool" where
  "num_ok s =
     (let u = (case s of c # r \<Rightarrow> if c = CHR ''-'' then r else s | [] \<Rightarrow> []);
          i = takeWhile is_digit u
      in i \<noteq> [] \<and> (hd i = CHR ''0'' \<longrightarrow> length i = 1) \<and> frac_ok (dropWhile is_digit u))"

definition strip_prefix :: "bytes \<Rightarrow> bytes \<Rightarrow> bytes option" where
  "strip_prefix p s = (if take (length p) s = p then Some (drop (length p) s) else None)"

text \<open>
  One unit of fuel per nested call; \<open>parse_print_value\<close> shows that the length of the text is
  enough for everything the printer writes.
\<close>

fun p_value :: "nat \<Rightarrow> bytes \<Rightarrow> (json \<times> bytes) option"
  and p_elems :: "nat \<Rightarrow> bytes \<Rightarrow> (json list \<times> bytes) option"
  and p_members :: "nat \<Rightarrow> bytes \<Rightarrow> ((string \<times> json) list \<times> bytes) option" where
  "p_value 0 s = None"
| "p_value (Suc k) s =
     (case skip s of
        [] \<Rightarrow> None
      | c # cs \<Rightarrow>
          if c = CHR ''{'' then
            (case expect (CHR ''}'') cs of
               Some r \<Rightarrow> Some (JObj [], r)
             | None \<Rightarrow> map_option (apfst JObj) (p_members k cs))
          else if c = CHR ''['' then
            (case expect (CHR '']'') cs of
               Some r \<Rightarrow> Some (JArr [], r)
             | None \<Rightarrow> map_option (apfst JArr) (p_elems k cs))
          else if c = CHR 0x22 then map_option (apfst JStr) (unquote cs)
          else if c = CHR ''n'' then map_option (Pair JNull) (strip_prefix ''ull'' cs)
          else if c = CHR ''t'' then map_option (Pair (JBool True)) (strip_prefix ''rue'' cs)
          else if c = CHR ''f'' then map_option (Pair (JBool False)) (strip_prefix ''alse'' cs)
          else let l = takeWhile num_char (c # cs) in
            if num_ok l then Some (JNum l, dropWhile num_char (c # cs)) else None)"
| "p_elems 0 s = None"
| "p_elems (Suc k) s =
     (case p_value k s of
        None \<Rightarrow> None
      | Some (v, r) \<Rightarrow>
          (case expect (CHR '']'') r of
             Some r' \<Rightarrow> Some ([v], r')
           | None \<Rightarrow>
               (case expect (CHR '','') r of
                  None \<Rightarrow> None
                | Some r' \<Rightarrow> map_option (apfst ((#) v)) (p_elems k r'))))"
| "p_members 0 s = None"
| "p_members (Suc k) s =
     (case Option.bind (expect (CHR 0x22) s) unquote of
        None \<Rightarrow> None
      | Some (key, r) \<Rightarrow>
          (case Option.bind (expect (CHR '':'') r) (p_value k) of
             None \<Rightarrow> None
           | Some (v, r') \<Rightarrow>
               (case expect (CHR ''}'') r' of
                  Some r'' \<Rightarrow> Some ([(key, v)], r'')
                | None \<Rightarrow>
                    (case expect (CHR '','') r' of
                       None \<Rightarrow> None
                     | Some r'' \<Rightarrow> map_option (apfst ((#) (key, v))) (p_members k r'')))))"

definition json_parse :: "bytes \<Rightarrow> json option" where
  "json_parse s =
     (case p_value (Suc (length s)) s of
        Some (v, r) \<Rightarrow> if skip r = [] then Some v else None
      | None \<Rightarrow> None)"

section \<open>Reading back what was printed\<close>

fun json_ok :: "json \<Rightarrow> bool" where
  "json_ok (JNum l) \<longleftrightarrow> num_ok l \<and> list_all num_char l"
| "json_ok (JArr xs) \<longleftrightarrow> (\<forall>x \<in> set xs. json_ok x)"
| "json_ok (JObj ms) \<longleftrightarrow> (\<forall>m \<in> set ms. json_ok (snd m))"
| "json_ok _ \<longleftrightarrow> True"

fun jsan :: "json \<Rightarrow> json" where
  "jsan (JStr s) = JStr (to_valid s)"
| "jsan (JArr xs) = JArr (map jsan xs)"
| "jsan (JObj ms) = JObj (map (\<lambda>(k, v). (to_valid k, jsan v)) ms)"
| "jsan v = v"

definition boundary :: "bytes \<Rightarrow> bool" where
  "boundary t \<longleftrightarrow> (case t of [] \<Rightarrow> True | c # _ \<Rightarrow> \<not> num_char c)"

lemma boundary_simps [simp]: "boundary []" "boundary (c # t) \<longleftrightarrow> \<not> num_char c"
  by (simp_all add: boundary_def)

lemma num_char_facts [simp]:
  "\<not> num_char (CHR '','')" "\<not> num_char (CHR '']'')" "\<not> num_char (CHR ''}'')"
  by (simp_all add: num_char_def is_digit_def)

lemma num_char_other:
  assumes "num_char c"
  shows "\<not> is_space c" "c \<notin> {CHR ''{'', CHR ''['', CHR 0x22, CHR ''n'', CHR ''t'', CHR ''f''}"
    "c \<noteq> CHR '']''" "c \<noteq> CHR ''}''"
  using assms by (auto simp: num_char_def is_digit_def is_space_def)

lemma num_ok_not_Nil: "num_ok l \<Longrightarrow> l \<noteq> []"
  by (auto simp: num_ok_def Let_def)

lemma jprint_head:
  assumes "json_ok v"
  obtains c r where "jprint v = c # r" "\<not> is_space c" "c \<noteq> CHR '']''" "c \<noteq> CHR ''}''"
proof (cases v)
  case (JNum l)
  with assms have "l \<noteq> []" "list_all num_char l" by (auto dest: num_ok_not_Nil)
  then obtain c r where "l = c # r" "num_char c" by (cases l) auto
  with JNum that num_char_other [of c] show ?thesis by simp
next
  case (JBool b)
  then show ?thesis by (cases b) (use that in \<open>auto simp: is_space_def\<close>)
qed (use that in \<open>auto simp: quote_def is_space_def split: if_splits\<close>)

lemma expect_skip: "\<not> is_space d \<Longrightarrow> expect c (d # r) = (if d = c then Some r else None)"
  by (simp add: expect_def)

lemma expect_punct [simp]:
  "expect (CHR '']'') (CHR '']'' # t) = Some t" "expect (CHR ''}'') (CHR ''}'' # t) = Some t"
  "expect (CHR '']'') (CHR '','' # t) = None" "expect (CHR ''}'') (CHR '','' # t) = None"
  "expect (CHR '','') (CHR '','' # t) = Some t" "expect (CHR '':'') (CHR '':'' # t) = Some t"
  "expect (CHR ''}'') (CHR 0x22 # t) = None" "expect (CHR 0x22) (CHR 0x22 # t) = Some t"
  by (simp_all add: expect_skip is_space_def)

lemma expect_quote [simp]:
  "expect (CHR 0x22) (quote s @ t) = Some (quote_body s @ CHR 0x22 # t)"
  "expect (CHR ''}'') (quote s @ t) = None"
  by (simp_all add: quote_def expect_skip is_space_def)

lemma length_quote [simp]: "length (quote s) = length (quote_body s) + 2"
  by (simp add: quote_def)

lemma p_value_num:
  assumes "num_ok l" "list_all num_char l" "boundary t"
  shows "p_value (Suc k) (l @ t) = Some (JNum l, t)"
proof -
  obtain c r where l: "l = c # r" using num_ok_not_Nil [OF assms(1)] by (cases l) auto
  have c: "num_char c" using assms(2) l by simp
  have all: "\<forall>x \<in> set l. num_char x" using assms(2) by (simp add: list_all_iff)
  have tw: "takeWhile num_char t = []" "dropWhile num_char t = t"
    using assms(3) by (cases t; simp)+
  have "takeWhile num_char (l @ t) = l" "dropWhile num_char (l @ t) = t"
    using all tw by (simp_all add: takeWhile_append2 dropWhile_append2)
  then show ?thesis
    using num_char_other [OF c] c assms(1) unfolding l by (simp add: Let_def)
qed

lemma p_value_str:
  "p_value (Suc k) (quote s @ t) = Some (JStr (to_valid s), t)"
  by (simp add: quote_def is_space_def unquote_quote_body)

lemma parse_print_value:
  "json_ok v \<Longrightarrow> length (jprint v) \<le> k \<Longrightarrow> boundary t
     \<Longrightarrow> p_value k (jprint v @ t) = Some (jsan v, t)"
  and parse_print_elems:
  "xs \<noteq> [] \<Longrightarrow> \<forall>x \<in> set xs. json_ok x \<Longrightarrow> length (jprint_elems xs) < k
     \<Longrightarrow> p_elems k (jprint_elems xs @ CHR '']'' # t) = Some (map jsan xs, t)"
  and parse_print_members:
  "ms \<noteq> [] \<Longrightarrow> \<forall>m \<in> set ms. json_ok (snd m) \<Longrightarrow> length (jprint_members ms) < k
     \<Longrightarrow> p_members k (jprint_members ms @ CHR ''}'' # t)
       = Some (map (\<lambda>(k, v). (to_valid k, jsan v)) ms, t)"
proof (induction v and xs and ms arbitrary: k t and k t and k t
    rule: jprint_jprint_elems_jprint_members.induct)
  case 1
  then show ?case by (cases k) (auto simp: is_space_def strip_prefix_def)
next
  case (2 b)
  then show ?case by (cases k) (auto simp: is_space_def strip_prefix_def split: if_splits)
next
  case (3 l)
  then show ?case
    by (cases k) (auto simp: p_value_num simp del: p_value.simps dest: num_ok_not_Nil)
next
  case (4 s)
  then show ?case by (cases k) (auto simp: p_value_str simp del: p_value.simps)
next
  case (5 xs)
  from 5(3) obtain j where k: "k = Suc j" by (cases k) auto
  show ?case
  proof (cases xs)
    case Nil
    with k show ?thesis by (simp add: is_space_def)
  next
    case (Cons x ys)
    with 5 obtain c r where h: "jprint x = c # r" "\<not> is_space c" "c \<noteq> CHR '']''"
      by (auto elim: jprint_head)
    have "\<exists>r'. jprint_elems xs = c # r'"
      using Cons h by (cases ys) auto
    then have "expect (CHR '']'') (jprint_elems xs @ CHR '']'' # t) = None"
      using h by (auto simp: expect_skip)
    with 5 k Cons show ?thesis by (simp add: is_space_def)
  qed
next
  case (6 ms)
  from 6(3) obtain j where k: "k = Suc j" by (cases k) auto
  show ?case
  proof (cases ms)
    case Nil
    with k show ?thesis by (simp add: is_space_def)
  next
    case (Cons m ns)
    obtain key v where m: "m = (key, v)" by (cases m)
    have "\<exists>r. jprint_members ms = quote key @ r"
      using Cons m by (cases ns) auto
    then have "expect (CHR ''}'') (jprint_members ms @ CHR ''}'' # t) = None" by auto
    with 6 k Cons show ?thesis by (simp add: is_space_def)
  qed
next
  case 7
  then show ?case by simp
next
  case (8 x)
  then show ?case by (cases k) auto
next
  case (9 x y ys)
  from 9(5) obtain j where k: "k = Suc j" by (cases k) auto
  have "p_value j (jprint x @ CHR '','' # jprint_elems (y # ys) @ CHR '']'' # t)
      = Some (jsan x, CHR '','' # jprint_elems (y # ys) @ CHR '']'' # t)"
    using 9 k by simp
  moreover have "p_elems j (jprint_elems (y # ys) @ CHR '']'' # t) = Some (map jsan (y # ys), t)"
    using 9 k by simp
  ultimately show ?case using k by simp
next
  case 10
  then show ?case by simp
next
  case (11 key v)
  from 11(4) obtain j where k: "k = Suc j" by (cases k) auto
  have "p_value j (jprint v @ CHR ''}'' # t) = Some (jsan v, CHR ''}'' # t)"
    using 11 k by simp
  with k show ?case by (simp add: unquote_quote_body)
next
  case (12 key v m ms)
  from 12(5) obtain j where k: "k = Suc j" by (cases k) auto
  let ?r = "CHR '','' # jprint_members (m # ms) @ CHR ''}'' # t"
  have "p_value j (jprint v @ ?r) = Some (jsan v, ?r)" using 12 k by simp
  moreover have "p_members j (jprint_members (m # ms) @ CHR ''}'' # t)
      = Some (map (\<lambda>(k, v). (to_valid k, jsan v)) (m # ms), t)"
    using 12 k by simp
  ultimately show ?case using k by (simp add: unquote_quote_body)
qed

text \<open>The reader gives back every printed value, with its strings repaired.\<close>

lemma parse_print [codec_simps]: "json_ok v \<Longrightarrow> json_parse (jprint v) = Some (jsan v)"
  using parse_print_value [of v "Suc (length (jprint v))" "[]"]
  by (simp add: json_parse_def del: p_value.simps)

lemma dec_head: "hd (dec n) = CHR ''0'' \<Longrightarrow> n = 0"
proof (induction n rule: dec.induct)
  case (1 n)
  show ?case
  proof (cases "n < 10")
    case True
    with 1(2) have "digit_char n = CHR ''0''" by (simp add: dec.simps)
    then have "byte (digit_char n) = (48::nat)" by simp
    with True show ?thesis by simp
  next
    case False
    then have "hd (dec n) = hd (dec (n div 10))" by (simp add: dec.simps [of n])
    with 1 False show ?thesis by simp
  qed
qed

lemma json_ok_FormatUint [simp]: "json_ok (JNum (FormatUint w))"
proof -
  let ?l = "FormatUint w"
  have d: "\<forall>c \<in> set ?l. is_digit c" using FormatUint_digits by (simp add: list_all_iff)
  have tw: "takeWhile is_digit ?l = ?l" "dropWhile is_digit ?l = []"
    using d by (simp_all add: takeWhile_eq_all_conv dropWhile_eq_Nil_conv)
  have "?l \<noteq> CHR ''-'' # r" for r
    using d by (auto simp: is_digit_def)
  then have s: "(case ?l of c # r \<Rightarrow> if c = CHR ''-'' then r else ?l | [] \<Rightarrow> []) = ?l"
    by (auto split: list.splits)
  have "length ?l = 1" if "hd ?l = CHR ''0''"
    using dec_head [of "unat w"] that by (simp add: FormatUint_def dec.simps)
  then have "num_ok ?l"
    unfolding num_ok_def s Let_def tw by (simp add: frac_ok_def)
  then show ?thesis using d by (simp add: list_all_iff num_char_def)
qed

section \<open>Decoding struct fields\<close>

text \<open>
  The decoder looks a member's key up among the field names: exactly first, then with
  ASCII letter case ignored. A \<open>null\<close> leaves the field as it is, an unknown key is skipped,
  a later duplicate wins, and a value of the wrong type is an error.
\<close>

definition upper :: "char \<Rightarrow> char" where
  "upper c = (if 97 \<le> byte c \<and> byte c \<le> (122::nat) then char_of (byte c - 32 :: nat) else c)"

definition field_of :: "string list \<Rightarrow> string \<Rightarrow> string option" where
  "field_of names k =
     (if k \<in> set names then Some k else List.find (\<lambda>n. map upper n = map upper k) names)"

fun dec_fields ::
    "string list \<Rightarrow> (string \<Rightarrow> json \<Rightarrow> 'r \<Rightarrow> 'r option) \<Rightarrow> (string \<times> json) list \<Rightarrow> 'r \<Rightarrow> 'r option" where
  "dec_fields names f [] r = Some r"
| "dec_fields names f ((k, v) # ms) r =
     (case field_of names k of
        None \<Rightarrow> dec_fields names f ms r
      | Some n \<Rightarrow> Option.bind (f n v r) (dec_fields names f ms))"

fun dec_struct ::
    "string list \<Rightarrow> (string \<Rightarrow> json \<Rightarrow> 'r \<Rightarrow> 'r option) \<Rightarrow> json \<Rightarrow> 'r \<Rightarrow> 'r option" where
  "dec_struct names f JNull r = Some r"
| "dec_struct names f (JObj ms) r = dec_fields names f ms r"
| "dec_struct names f _ r = None"

fun dec_uint64 :: "json \<Rightarrow> uint64 \<Rightarrow> uint64 option" where
  "dec_uint64 JNull old = Some old"
| "dec_uint64 (JNum l) old = ParseUint l"
| "dec_uint64 _ old = None"

fun dec_string :: "json \<Rightarrow> string \<Rightarrow> string option" where
  "dec_string JNull old = Some old"
| "dec_string (JStr s) old = Some s"
| "dec_string _ old = None"

text \<open>A \<open>[]string\<close>: \<open>null\<close> makes the slice nil.\<close>

fun dec_strings :: "json \<Rightarrow> string slice option" where
  "dec_strings JNull = Some None"
| "dec_strings (JArr xs) =
     (if list_all (\<lambda>x. dec_string x [] \<noteq> None) xs
      then Some (Some (map (\<lambda>x. the (dec_string x [])) xs)) else None)"
| "dec_strings _ = None"

text \<open>A \<open>[]byte\<close>: a base64 string, or an array of numbers below 256.\<close>

fun dec_byte :: "json \<Rightarrow> char option" where
  "dec_byte JNull = Some (char_of (0::nat))"
| "dec_byte (JNum l) =
     (case ParseUint l of
        Some w \<Rightarrow> if unat w < 256 then Some (char_of (unat w)) else None
      | None \<Rightarrow> None)"
| "dec_byte _ = None"

fun dec_bytes :: "json \<Rightarrow> char slice option" where
  "dec_bytes JNull = Some None"
| "dec_bytes (JStr s) = map_option Some (b64_decode s)"
| "dec_bytes (JArr xs) =
     (if list_all (\<lambda>x. dec_byte x \<noteq> None) xs
      then Some (Some (map (\<lambda>x. the (dec_byte x)) xs)) else None)"
| "dec_bytes _ = None"

text \<open>The encoders of the field types.\<close>

definition enc_uint64 :: "uint64 \<Rightarrow> json" where
  "enc_uint64 w = JNum (FormatUint w)"

definition enc_strings :: "string slice \<Rightarrow> json" where
  "enc_strings xs = (case xs of None \<Rightarrow> JNull | Some ys \<Rightarrow> JArr (map JStr ys))"

definition enc_bytes :: "char slice \<Rightarrow> json" where
  "enc_bytes b = (case b of None \<Rightarrow> JNull | Some c \<Rightarrow> JStr (b64_encode c))"

lemma json_ok_enc [simp]:
  "json_ok (enc_uint64 w)" "json_ok (enc_strings xs)" "json_ok (enc_bytes b)"
  by (auto simp: enc_uint64_def enc_strings_def enc_bytes_def simp del: json_ok.simps(1)
      split: option.splits)

lemma dec_enc_uint64 [codec_simps]: "dec_uint64 (jsan (enc_uint64 w)) old = Some w"
  by (simp add: enc_uint64_def codec_simps)

lemma dec_enc_strings [codec_simps]:
  "dec_strings (jsan (enc_strings xs)) = Some (map_option (map to_valid) xs)"
  by (auto simp: enc_strings_def list_all_iff o_def split: option.splits)

lemma dec_enc_bytes [codec_simps]: "dec_bytes (jsan (enc_bytes b)) = Some b"
  by (auto simp: enc_bytes_def codec_simps split: option.splits)

end
