(* ===== verification/Chain_Data.thy ===== *)
theory Chain_Data
  imports Go_Json
begin

text \<open>
  The data of the blockchain package: the structs \<open>BlockHeader\<close>, \<open>Block\<close>
  (block.go), \<open>Account\<close> (account.go), \<open>Transaction\<close> (tx.go), \<open>Node\<close> and
  \<open>Config\<close> (chain.go), what \<open>json.Marshal\<close> and \<open>json.Unmarshal\<close> make of the
  three persisted ones, and the key \<open>block_<index>\<close> of a block. The round trips say that
  a stored struct is read back field by field, its strings repaired to valid UTF-8.
\<close>

section \<open>Structs\<close>

record BlockHeader =
  Version :: uint64
  PreviousBlockHeader :: string
  MerkleRoot :: string
  RootAccount :: string
  RootTransaction :: string
  Time :: uint64
  Signature :: string

record Block =
  Header :: BlockHeader
  Index :: uint64
  Txns :: "string slice"

record Account =
  Address :: string
  Balance :: uint64
  PublicKey :: string
  Nonce :: uint64

record Transaction =
  ID :: "char slice"
  From :: string
  To :: string
  Amount :: uint64
  Timestamp :: uint64
  TxSignature :: string

record Node =
  NodePublicKey :: string
  URL :: string
  NodeIndex :: int
  ApiUrl :: string

record Config =
  Nodes :: "Node list"
  PrivateKeyHex :: string
  ConfigIndex :: int

text \<open>The zero values: the struct literals \<open>Block{}\<close>, \<open>Account{}\<close>, \<open>Transaction{}\<close>.\<close>

definition zero_BlockHeader :: BlockHeader where
  "zero_BlockHeader = \<lparr>Version = 0, PreviousBlockHeader = [], MerkleRoot = [], RootAccount = [],
     RootTransaction = [], Time = 0, Signature = []\<rparr>"

definition zero_Block :: Block where
  "zero_Block = \<lparr>Header = zero_BlockHeader, Index = 0, Txns = None\<rparr>"

definition zero_Account :: Account where
  "zero_Account = \<lparr>Address = [], Balance = 0, PublicKey = [], Nonce = 0\<rparr>"

definition zero_Transaction :: Transaction where
  "zero_Transaction = \<lparr>ID = None, From = [], To = [], Amount = 0, Timestamp = 0, TxSignature = []\<rparr>"

definition zero_Node :: Node where
  "zero_Node = \<lparr>NodePublicKey = [], URL = [], NodeIndex = 0, ApiUrl = []\<rparr>"

definition zero_Config :: Config where
  "zero_Config = \<lparr>Nodes = [], PrivateKeyHex = [], ConfigIndex = 0\<rparr>"

section \<open>Block keys\<close>

text \<open>\<open>fmt.Sprintf("block_%d", index)\<close>.\<close>

definition block_key :: "uint64 \<Rightarrow> string" where
  "block_key i = ''block_'' @ FormatUint i"

lemma block_key_inject [simp]: "block_key i = block_key j \<longleftrightarrow> i = j"
  by (simp add: block_key_def)

lemma ascii_block_key [simp]: "ascii (block_key i)"
  by (simp add: block_key_def digit_ascii FormatUint_digits)

section \<open>Encoding\<close>

definition header_json :: "BlockHeader \<Rightarrow> json" where
  "header_json h = JObj
     [(''Version'', enc_uint64 (Version h)),
      (''PreviousBlockHeader'', JStr (PreviousBlockHeader h)),
      (''MerkleRoot'', JStr (MerkleRoot h)),
      (''RootAccount'', JStr (RootAccount h)),
      (''RootTransaction'', JStr (RootTransaction h)),
      (''Time'', enc_uint64 (Time h)),
      (''Signature'', JStr (Signature h))]"

definition marshal_Block :: "Block \<Rightarrow> bytes" where
  "marshal_Block b = jprint (JObj
     [(''BlockHeader'', header_json (Header b)),
      (''Index'', enc_uint64 (Index b)),
      (''Txns'', enc_strings (Txns b))])"

definition marshal_Account :: "Account \<Rightarrow> bytes" where
  "marshal_Account a = jprint (JObj
     [(''Address'', JStr (Address a)),
      (''Balance'', enc_uint64 (Balance a)),
      (''PublicKey'', JStr (PublicKey a)),
      (''Nonce'', enc_uint64 (Nonce a))])"

definition marshal_Transaction :: "Transaction \<Rightarrow> bytes" where
  "marshal_Transaction t = jprint (JObj
     [(''ID'', enc_bytes (ID t)),
      (''From'', JStr (From t)),
      (''To'', JStr (To t)),
      (''Amount'', enc_uint64 (Amount t)),
      (''Timestamp'', enc_uint64 (Timestamp t)),
      (''Signature'', JStr (TxSignature t))])"

section \<open>Decoding\<close>

definition header_fields :: "string list" where
  "header_fields = [''Version'', ''PreviousBlockHeader'', ''MerkleRoot'', ''RootAccount'',
     ''RootTransaction'', ''Time'', ''Signature'']"

definition header_field :: "string \<Rightarrow> json \<Rightarrow> BlockHeader \<Rightarrow> BlockHeader option" where
  "header_field n v h =
     (if n = ''Version'' then map_option (\<lambda>x. h\<lparr>Version := x\<rparr>) (dec_uint64 v (Version h))
      else if n = ''PreviousBlockHeader'' then
        map_option (\<lambda>x. h\<lparr>PreviousBlockHeader := x\<rparr>) (dec_string v (PreviousBlockHeader h))
      else if n = ''MerkleRoot'' then
        map_option (\<lambda>x. h\<lparr>MerkleRoot := x\<rparr>) (dec_string v (MerkleRoot h))
      else if n = ''RootAccount'' then
        map_option (\<lambda>x. h\<lparr>RootAccount := x\<rparr>) (dec_string v (RootAccount h))
      else if n = ''RootTransaction'' then
        map_option (\<lambda>x. h\<lparr>RootTransaction := x\<rparr>) (dec_string v (RootTransaction h))
      else if n = ''Time'' then map_option (\<lambda>x. h\<lparr>Time := x\<rparr>) (dec_uint64 v (Time h))
      else map_option (\<lambda>x. h\<lparr>Signature := x\<rparr>) (dec_string v (Signature h)))"

definition block_fields :: "string list" where
  "block_fields = [''BlockHeader'', ''Index'', ''Txns'']"

definition block_field :: "string \<Rightarrow> json \<Rightarrow> Block \<Rightarrow> Block option" where
  "block_field n v b =
     (if n = ''BlockHeader'' then
        map_option (\<lambda>x. b\<lparr>Header := x\<rparr>) (dec_struct header_fields header_field v (Header b))
      else if n = ''Index'' then map_option (\<lambda>x. b\<lparr>Index := x\<rparr>) (dec_uint64 v (Index b))
      else map_option (\<lambda>x. b\<lparr>Txns := x\<rparr>) (dec_strings v))"

definition unmarshal_Block :: "bytes \<Rightarrow> Block option" where
  "unmarshal_Block s =
     Option.bind (json_parse s) (\<lambda>v. dec_struct block_fields block_field v zero_Block)"

definition account_fields :: "string list" where
  "account_fields = [''Address'', ''Balance'', ''PublicKey'', ''Nonce'']"

definition account_field :: "string \<Rightarrow> json \<Rightarrow> Account \<Rightarrow> Account option" where
  "account_field n v a =
     (if n = ''Address'' then map_option (\<lambda>x. a\<lparr>Address := x\<rparr>) (dec_string v (Address a))
      else if n = ''Balance'' then map_option (\<lambda>x. a\<lparr>Balance := x\<rparr>) (dec_uint64 v (Balance a))
      else if n = ''PublicKey'' then
        map_option (\<lambda>x. a\<lparr>PublicKey := x\<rparr>) (dec_string v (PublicKey a))
      else map_option (\<lambda>x. a\<lparr>Nonce := x\<rparr>) (dec_uint64 v (Nonce a)))"

definition unmarshal_Account :: "bytes \<Rightarrow> Account option" where
  "unmarshal_Account s =
     Option.bind (json_parse s) (\<lambda>v. dec_struct account_fields account_field v zero_Account)"

definition transaction_fields :: "string list" where
  "transaction_fields = [''ID'', ''From'', ''To'', ''Amount'', ''Timestamp'', ''Signature'']"

definition transaction_field :: "string \<Rightarrow> json \<Rightarrow> Transaction \<Rightarrow> Transaction option" where
  "transaction_field n v t =
     (if n = ''ID'' then map_option (\<lambda>x. t\<lparr>ID := x\<rparr>) (dec_bytes v)
      else if n = ''From'' then map_option (\<lambda>x. t\<lparr>From := x\<rparr>) (dec_string v (From t))
      else if n = ''To'' then map_option (\<lambda>x. t\<lparr>To := x\<rparr>) (dec_string v (To t))
      else if n = ''Amount'' then map_option (\<lambda>x. t\<lparr>Amount := x\<rparr>) (dec_uint64 v (Amount t))
      else if n = ''Timestamp'' then
        map_option (\<lambda>x. t\<lparr>Timestamp := x\<rparr>) (dec_uint64 v (Timestamp t))
      else map_option (\<lambda>x. t\<lparr>TxSignature := x\<rparr>) (dec_string v (TxSignature t)))"

definition unmarshal_Transaction :: "bytes \<Rightarrow> Transaction option" where
  "unmarshal_Transaction s =
     Option.bind (json_parse s)
       (\<lambda>v. dec_struct transaction_fields transaction_field v zero_Transaction)"

section \<open>Round trips\<close>

text \<open>What a struct looks like once it has been stored: its strings are valid UTF-8.\<close>

definition san_header :: "BlockHeader \<Rightarrow> BlockHeader" where
  "san_header h = h\<lparr>PreviousBlockHeader := to_valid (PreviousBlockHeader h),
     MerkleRoot := to_valid (MerkleRoot h), RootAccount := to_valid (RootAccount h),
     RootTransaction := to_valid (RootTransaction h), Signature := to_valid (Signature h)\<rparr>"

definition san_Block :: "Block \<Rightarrow> Block" where
  "san_Block b = b\<lparr>Header := san_header (Header b), Txns := map_option (map to_valid) (Txns b)\<rparr>"

definition san_Account :: "Account \<Rightarrow> Account" where
  "san_Account a = a\<lparr>Address := to_valid (Address a), PublicKey := to_valid (PublicKey a)\<rparr>"

definition san_Transaction :: "Transaction \<Rightarrow> Transaction" where
  "san_Transaction t = t\<lparr>From := to_valid (From t), To := to_valid (To t),
     TxSignature := to_valid (TxSignature t)\<rparr>"

lemma san_idem [simp]:
  "san_header (san_header h) = san_header h" "san_Block (san_Block b) = san_Block b"
  "san_Account (san_Account a) = san_Account a"
  "san_Transaction (san_Transaction t) = san_Transaction t"
  by (simp_all add: san_header_def san_Block_def san_Account_def san_Transaction_def
      option.map_comp o_def)

lemma san_sel [simp]:
  "Index (san_Block b) = Index b" "Balance (san_Account a) = Balance a"
  "Nonce (san_Account a) = Nonce a" "ID (san_Transaction t) = ID t"
  "Amount (san_Transaction t) = Amount t" "Timestamp (san_Transaction t) = Timestamp t"
  by (simp_all add: san_Block_def san_Account_def san_Transaction_def)

lemma san_Account_update [simp]:
  "san_Account (a\<lparr>Balance := x\<rparr>) = (san_Account a)\<lparr>Balance := x\<rparr>"
  "san_Account (a\<lparr>Nonce := n\<rparr>) = (san_Account a)\<lparr>Nonce := n\<rparr>"
  by (simp_all add: san_Account_def)

lemma field_of_member [simp]: "k \<in> set names \<Longrightarrow> field_of names k = Some k"
  by (simp add: field_of_def)

lemma dec_header:
  "dec_struct header_fields header_field (jsan (header_json h)) zero_BlockHeader
   = Some (san_header h)"
  by (simp add: header_json_def header_fields_def header_field_def zero_BlockHeader_def
      san_header_def codec_simps)

lemma unmarshal_marshal_Block [codec_simps]:
  "unmarshal_Block (marshal_Block b) = Some (san_Block b)"
proof -
  have "json_ok (header_json (Header b))" by (simp add: header_json_def)
  then show ?thesis
    using dec_header [of "Header b"]
    by (simp add: unmarshal_Block_def marshal_Block_def codec_simps block_fields_def
        block_field_def zero_Block_def san_Block_def del: jprint.simps)
qed

lemma unmarshal_marshal_Account [codec_simps]:
  "unmarshal_Account (marshal_Account a) = Some (san_Account a)"
  by (simp add: unmarshal_Account_def marshal_Account_def codec_simps account_fields_def
      account_field_def zero_Account_def san_Account_def del: jprint.simps)

lemma unmarshal_marshal_Transaction [codec_simps]:
  "unmarshal_Transaction (marshal_Transaction t) = Some (san_Transaction t)"
  by (simp add: unmarshal_Transaction_def marshal_Transaction_def codec_simps
      transaction_fields_def transaction_field_def zero_Transaction_def san_Transaction_def
      del: jprint.simps)

lemma marshal_not_Nil [simp]:
  "marshal_Block b \<noteq> []" "marshal_Account a \<noteq> []" "marshal_Transaction t \<noteq> []"
  by (simp_all add: marshal_Block_def marshal_Account_def marshal_Transaction_def)

end
