(* ===== verification/External.thy ===== *)
theory External
  imports Chain_Data "HOL-Library.AList"
begin

text \<open>
  The packages the program calls and does not contain are parameters, two records of
  functions: \<open>store_ext\<close> for LevelDB, go-ethereum's tries and their node database,
  \<open>crypto_ext\<close> for go-ethereum's \<open>hexutil\<close> and \<open>crypto\<close> (and the digest
  \<open>sha256.Sum256\<close>, of which the program relies on nothing). Nothing is assumed where a
  definition uses them; \<open>store_laws\<close> and \<open>crypto_laws\<close> collect the documented
  behaviour that some theorems need as hypotheses. Every call may fail: the laws speak of
  calls that return without an error. \<open>ref_store\<close> and \<open>ref_crypto\<close> are concrete
  instances that satisfy the laws, used where a theorem is applied to a concrete input.
\<close>

section \<open>Storage\<close>

text \<open>
  \<open>'db\<close> is a LevelDB database, \<open>'tr\<close> a trie handle, \<open>'nd\<close> the node set of a
  commit and \<open>'tdb\<close> a trie database that holds nodes still to be written.
  \<open>trie_New\<close> has the number of the attempt as first argument, since the code retries it
  and attempts may differ. \<open>trie_Update\<close> returns the handle after the call, whose error
  the code drops. \<open>triedb_Commit\<close> returns the database also where it fails half way.
\<close>

record ('db, 'tr, 'nd, 'tdb) store_ext =
  db_Get :: "'db \<Rightarrow> bytes \<Rightarrow> error + bytes"
  db_Put :: "'db \<Rightarrow> bytes \<Rightarrow> bytes \<Rightarrow> error + 'db"
  trie_New :: "nat \<Rightarrow> 'db \<Rightarrow> bytes \<Rightarrow> error + 'tr"
  trie_Get :: "'db \<Rightarrow> 'tr \<Rightarrow> bytes \<Rightarrow> error + bytes option"
  trie_Update :: "'db \<Rightarrow> 'tr \<Rightarrow> bytes \<Rightarrow> bytes \<Rightarrow> 'tr"
  trie_Commit :: "'tr \<Rightarrow> bytes \<times> 'nd \<times> 'tr"
  triedb_Update :: "'db \<Rightarrow> bytes \<Rightarrow> 'nd \<Rightarrow> error + 'tdb"
  triedb_Commit :: "'db \<Rightarrow> 'tdb \<Rightarrow> bytes \<Rightarrow> 'db \<times> error option"
  BytesToHash :: "bytes \<Rightarrow> bytes"

text \<open>The database keys of chain.go, and \<open>common.Hash{}\<close>, the root of the empty trie.\<close>

definition ROOT_HASH :: bytes where "ROOT_HASH = ''ROOT_HASH''"
definition TX_ROOT_HASH :: bytes where "TX_ROOT_HASH = ''TX_ROOT_HASH''"
definition ACC_ROOT_HASH :: bytes where "ACC_ROOT_HASH = ''ACC_ROOT_HASH''"
definition CURRENT_BLOCK :: bytes where "CURRENT_BLOCK = ''CURRENT_BLOCK''"
definition LAST_BLOCK :: bytes where "LAST_BLOCK = ''LAST_BLOCK''"

lemmas key_defs = ROOT_HASH_def TX_ROOT_HASH_def ACC_ROOT_HASH_def CURRENT_BLOCK_def LAST_BLOCK_def

definition db_keys :: "bytes list" where
  "db_keys = [ROOT_HASH, TX_ROOT_HASH, ACC_ROOT_HASH, CURRENT_BLOCK, LAST_BLOCK]"

definition zero_hash :: bytes where
  "zero_hash = replicate 32 (char_of (0::nat))"

lemma db_keys_member [simp]:
  "ROOT_HASH \<in> set db_keys" "TX_ROOT_HASH \<in> set db_keys" "ACC_ROOT_HASH \<in> set db_keys"
  "CURRENT_BLOCK \<in> set db_keys" "LAST_BLOCK \<in> set db_keys"
  by (simp_all add: db_keys_def)

lemma db_keys_distinct [simp]:
  "CURRENT_BLOCK \<noteq> LAST_BLOCK" "LAST_BLOCK \<noteq> CURRENT_BLOCK"
  "CURRENT_BLOCK \<noteq> ROOT_HASH" "ROOT_HASH \<noteq> CURRENT_BLOCK"
  "LAST_BLOCK \<noteq> ROOT_HASH" "ROOT_HASH \<noteq> LAST_BLOCK"
  "CURRENT_BLOCK \<noteq> ACC_ROOT_HASH" "ACC_ROOT_HASH \<noteq> CURRENT_BLOCK"
  "LAST_BLOCK \<noteq> ACC_ROOT_HASH" "ACC_ROOT_HASH \<noteq> LAST_BLOCK"
  "CURRENT_BLOCK \<noteq> TX_ROOT_HASH" "TX_ROOT_HASH \<noteq> CURRENT_BLOCK"
  "LAST_BLOCK \<noteq> TX_ROOT_HASH" "TX_ROOT_HASH \<noteq> LAST_BLOCK"
  "ROOT_HASH \<noteq> ACC_ROOT_HASH" "ACC_ROOT_HASH \<noteq> ROOT_HASH"
  "ROOT_HASH \<noteq> TX_ROOT_HASH" "TX_ROOT_HASH \<noteq> ROOT_HASH"
  "TX_ROOT_HASH \<noteq> ACC_ROOT_HASH" "ACC_ROOT_HASH \<noteq> TX_ROOT_HASH"
  by (simp_all add: key_defs)

text \<open>
  The laws. \<open>view t\<close> is the content of the trie behind a handle, \<open>stored d r m\<close> says
  that the database holds the nodes of a trie with root \<open>r\<close> and content \<open>m\<close>. A read
  returns what the content says; an update changes one key; a commit keeps the content; what
  a commit writes can be opened again from its root, and stays so when other tries or the five
  named keys are written (nodes are addressed by their hash, so this excludes hash
  collisions); a named key reads back as written.
\<close>

definition trie_laws ::
    "('db, 'tr, 'nd, 'tdb) store_ext \<Rightarrow> ('tr \<Rightarrow> bytes \<Rightarrow> bytes option) \<Rightarrow> bool" where
  "trie_laws X view \<longleftrightarrow>
     (\<forall>d t k v. trie_Get X d t k = Inr v \<longrightarrow> v = view t k)
   \<and> (\<forall>d t k v. v \<noteq> [] \<longrightarrow> view (trie_Update X d t k v) = (view t)(k \<mapsto> v))
   \<and> (\<forall>t r n t'. trie_Commit X t = (r, n, t') \<longrightarrow> view t' = view t)
   \<and> (\<forall>i d t. trie_New X i d zero_hash = Inr t \<longrightarrow> view t = Map.empty)"

definition node_laws ::
    "('db, 'tr, 'nd, 'tdb) store_ext \<Rightarrow> ('tr \<Rightarrow> bytes \<Rightarrow> bytes option)
      \<Rightarrow> ('db \<Rightarrow> bytes \<Rightarrow> (bytes \<Rightarrow> bytes option) \<Rightarrow> bool) \<Rightarrow> bool" where
  "node_laws X view stored \<longleftrightarrow>
     (\<forall>d t r n t' td d'. trie_Commit X t = (r, n, t') \<longrightarrow> triedb_Update X d r n = Inr td
        \<longrightarrow> triedb_Commit X d td r = (d', None) \<longrightarrow> stored d' r (view t))
   \<and> (\<forall>i d r m t. stored d r m \<longrightarrow> trie_New X i d r = Inr t \<longrightarrow> view t = m)
   \<and> (\<forall>d k v d' r m. k \<in> set db_keys \<longrightarrow> db_Put X d k v = Inr d' \<longrightarrow> stored d r m \<longrightarrow> stored d' r m)
   \<and> (\<forall>d td r d' e r' m. triedb_Commit X d td r = (d', e) \<longrightarrow> stored d r' m \<longrightarrow> stored d' r' m)
   \<and> (\<forall>d r m. stored d r m \<longrightarrow> BytesToHash X r = r)"

definition key_laws :: "('db, 'tr, 'nd, 'tdb) store_ext \<Rightarrow> bool" where
  "key_laws X \<longleftrightarrow>
     (\<forall>d k v d'. k \<in> set db_keys \<longrightarrow> db_Put X d k v = Inr d' \<longrightarrow> db_Get X d' k = Inr v)
   \<and> (\<forall>d k v d' k'. k \<in> set db_keys \<longrightarrow> k' \<in> set db_keys \<longrightarrow> k' \<noteq> k
        \<longrightarrow> db_Put X d k v = Inr d' \<longrightarrow> db_Get X d' k' = db_Get X d k')
   \<and> (\<forall>d td r d' e k. k \<in> set db_keys \<longrightarrow> triedb_Commit X d td r = (d', e)
        \<longrightarrow> db_Get X d' k = db_Get X d k)"

definition store_laws ::
    "('db, 'tr, 'nd, 'tdb) store_ext \<Rightarrow> ('tr \<Rightarrow> bytes \<Rightarrow> bytes option)
      \<Rightarrow> ('db \<Rightarrow> bytes \<Rightarrow> (bytes \<Rightarrow> bytes option) \<Rightarrow> bool) \<Rightarrow> bool" where
  "store_laws X view stored \<longleftrightarrow> trie_laws X view \<and> node_laws X view stored \<and> key_laws X"

lemma store_trie: "store_laws X view stored \<Longrightarrow> trie_laws X view"
  by (simp add: store_laws_def)

lemma store_node: "store_laws X view stored \<Longrightarrow> node_laws X view stored"
  by (simp add: store_laws_def)

lemma store_key: "store_laws X view stored \<Longrightarrow> key_laws X"
  by (simp add: store_laws_def)

lemma law_get: "trie_laws X view \<Longrightarrow> trie_Get X d t k = Inr v \<Longrightarrow> v = view t k"
  by (simp add: trie_laws_def)

lemma law_update:
  "trie_laws X view \<Longrightarrow> v \<noteq> [] \<Longrightarrow> view (trie_Update X d t k v) = (view t)(k \<mapsto> v)"
  by (simp add: trie_laws_def)

lemma law_commit: "trie_laws X view \<Longrightarrow> trie_Commit X t = (r, n, t') \<Longrightarrow> view t' = view t"
  by (simp add: trie_laws_def)

lemma law_empty: "trie_laws X view \<Longrightarrow> trie_New X i d zero_hash = Inr t \<Longrightarrow> view t = Map.empty"
  by (simp add: trie_laws_def)

lemma law_save:
  "node_laws X view stored \<Longrightarrow> trie_Commit X t = (r, n, t') \<Longrightarrow> triedb_Update X d r n = Inr td
    \<Longrightarrow> triedb_Commit X d td r = (d', None) \<Longrightarrow> stored d' r (view t)"
  unfolding node_laws_def by simp

lemma law_new:
  "node_laws X view stored \<Longrightarrow> stored d r m \<Longrightarrow> trie_New X i d r = Inr t \<Longrightarrow> view t = m"
  unfolding node_laws_def by simp

lemma law_put_stored:
  "node_laws X view stored \<Longrightarrow> db_Put X d k v = Inr d' \<Longrightarrow> k \<in> set db_keys \<Longrightarrow> stored d r m
    \<Longrightarrow> stored d' r m"
  unfolding node_laws_def by blast

lemma law_commit_stored:
  "node_laws X view stored \<Longrightarrow> triedb_Commit X d td r = (d', e) \<Longrightarrow> stored d r' m
    \<Longrightarrow> stored d' r' m"
  unfolding node_laws_def by blast

lemma law_hash: "node_laws X view stored \<Longrightarrow> stored d r m \<Longrightarrow> BytesToHash X r = r"
  unfolding node_laws_def by blast

lemma law_put:
  "key_laws X \<Longrightarrow> db_Put X d k v = Inr d' \<Longrightarrow> k \<in> set db_keys \<Longrightarrow> db_Get X d' k = Inr v"
  unfolding key_laws_def by blast

lemma law_put_other:
  "key_laws X \<Longrightarrow> db_Put X d k v = Inr d' \<Longrightarrow> k \<in> set db_keys \<Longrightarrow> k' \<in> set db_keys
    \<Longrightarrow> k' \<noteq> k \<Longrightarrow> db_Get X d' k' = db_Get X d k'"
  unfolding key_laws_def by blast

lemma law_commit_keys:
  "key_laws X \<Longrightarrow> triedb_Commit X d td r = (d', e) \<Longrightarrow> k \<in> set db_keys
    \<Longrightarrow> db_Get X d' k = db_Get X d k"
  unfolding key_laws_def by blast

section \<open>Cryptography and hexadecimal strings\<close>

text \<open>\<open>'sk\<close> and \<open>'pk\<close> are ECDSA private and public keys.\<close>

record ('sk, 'pk) crypto_ext =
  hex_Encode :: "bytes \<Rightarrow> string"
  hex_Decode :: "string \<Rightarrow> error + bytes"
  HexToECDSA :: "string \<Rightarrow> error + 'sk"
  PublicOf :: "'sk \<Rightarrow> 'pk"
  FromECDSAPub :: "'pk \<Rightarrow> bytes"
  UnmarshalPubkey :: "bytes \<Rightarrow> error + 'pk"
  PubkeyToAddressHex :: "'pk \<Rightarrow> string"
  Keccak256Hash :: "bytes \<Rightarrow> bytes"
  Sign :: "bytes \<Rightarrow> 'sk \<Rightarrow> error + bytes"
  Ecrecover :: "bytes \<Rightarrow> bytes \<Rightarrow> error + bytes"
  Sum256 :: "bytes \<Rightarrow> bytes"

text \<open>
  A hexadecimal string has the prefix \<open>0x\<close> and two digits a byte and decodes to what was
  encoded; an unmarshalled key is the key of its bytes; the key of a signature is recovered
  from it, and only signatures of 65 bytes are accepted; addresses are ASCII.
\<close>

definition crypto_laws :: "('sk, 'pk) crypto_ext \<Rightarrow> bool" where
  "crypto_laws C \<longleftrightarrow>
     (\<forall>b. hex_Decode C (hex_Encode C b) = Inr b)
   \<and> (\<forall>s b. hex_Decode C s = Inr b \<longrightarrow> ascii s \<and> length s = 2 + 2 * length b)
   \<and> (\<forall>b pk. UnmarshalPubkey C b = Inr pk \<longrightarrow> FromECDSAPub C pk = b)
   \<and> (\<forall>s sk. HexToECDSA C s = Inr sk
        \<longrightarrow> UnmarshalPubkey C (FromECDSAPub C (PublicOf C sk)) = Inr (PublicOf C sk))
   \<and> (\<forall>h sk sig. Sign C h sk = Inr sig \<longrightarrow> Ecrecover C h sig = Inr (FromECDSAPub C (PublicOf C sk)))
   \<and> (\<forall>h sig p. Ecrecover C h sig = Inr p \<longrightarrow> length sig = 65)
   \<and> (\<forall>pk. ascii (PubkeyToAddressHex C pk))"

lemma law_hex: "crypto_laws C \<Longrightarrow> hex_Decode C (hex_Encode C b) = Inr b"
  by (simp add: crypto_laws_def)

lemma law_hex_ascii: "crypto_laws C \<Longrightarrow> hex_Decode C s = Inr b \<Longrightarrow> ascii s"
  unfolding crypto_laws_def by meson

lemma law_hex_length: "crypto_laws C \<Longrightarrow> hex_Decode C s = Inr b \<Longrightarrow> length s = 2 + 2 * length b"
  unfolding crypto_laws_def by meson

lemma law_pubkey: "crypto_laws C \<Longrightarrow> UnmarshalPubkey C b = Inr pk \<Longrightarrow> FromECDSAPub C pk = b"
  unfolding crypto_laws_def by meson

lemma law_public:
  "crypto_laws C \<Longrightarrow> HexToECDSA C s = Inr sk
    \<Longrightarrow> UnmarshalPubkey C (FromECDSAPub C (PublicOf C sk)) = Inr (PublicOf C sk)"
  unfolding crypto_laws_def by meson

lemma law_recover:
  "crypto_laws C \<Longrightarrow> Sign C h sk = Inr sig
    \<Longrightarrow> Ecrecover C h sig = Inr (FromECDSAPub C (PublicOf C sk))"
  unfolding crypto_laws_def by meson

lemma law_sig_length: "crypto_laws C \<Longrightarrow> Ecrecover C h sig = Inr p \<Longrightarrow> length sig = 65"
  unfolding crypto_laws_def by meson

lemma law_address: "crypto_laws C \<Longrightarrow> ascii (PubkeyToAddressHex C pk)"
  by (simp add: crypto_laws_def)

lemma law_hex_inject: "crypto_laws C \<Longrightarrow> hex_Encode C a = hex_Encode C b \<longleftrightarrow> a = b"
  by (metis law_hex sum.inject(2))

text \<open>
  A store without failures: every call succeeds on what has been stored. Only the theorems
  that say that an operation succeeds need it.
\<close>

definition reliable ::
    "('db, 'tr, 'nd, 'tdb) store_ext \<Rightarrow> ('db \<Rightarrow> bytes \<Rightarrow> (bytes \<Rightarrow> bytes option) \<Rightarrow> bool) \<Rightarrow> bool" where
  "reliable X stored \<longleftrightarrow>
     (\<forall>d k v. k \<in> set db_keys \<longrightarrow> (\<exists>d'. db_Put X d k v = Inr d'))
   \<and> (\<forall>i d r m. stored d r m \<longrightarrow> (\<exists>t. trie_New X i d r = Inr t))
   \<and> (\<forall>d t k. \<exists>v. trie_Get X d t k = Inr v)
   \<and> (\<forall>d t r n t'. trie_Commit X t = (r, n, t') \<longrightarrow>
        (\<exists>td d'. triedb_Update X d r n = Inr td \<and> triedb_Commit X d td r = (d', None)))"

lemma rel_put: "reliable X stored \<Longrightarrow> k \<in> set db_keys \<Longrightarrow> \<exists>d'. db_Put X d k v = Inr d'"
  unfolding reliable_def by blast

lemma rel_new: "reliable X stored \<Longrightarrow> stored d r m \<Longrightarrow> \<exists>t. trie_New X i d r = Inr t"
  unfolding reliable_def by blast

lemma rel_get: "reliable X stored \<Longrightarrow> \<exists>v. trie_Get X d t k = Inr v"
  unfolding reliable_def by blast

lemma rel_commit:
  "reliable X stored \<Longrightarrow> trie_Commit X t = (r, n, t')
    \<Longrightarrow> \<exists>td d'. triedb_Update X d r n = Inr td \<and> triedb_Commit X d td r = (d', None)"
  unfolding reliable_def by blast

section \<open>Reference instances\<close>

text \<open>
  A trie is an association list, its root an injective encoding of the list, and a database
  the named keys beside the tries saved so far.
\<close>

type_synonym ref_trie = "(bytes \<times> bytes) list"
type_synonym ref_db = "(bytes \<times> bytes) list \<times> (bytes \<times> ref_trie) list"

fun ref_escape :: "bytes \<Rightarrow> bytes \<Rightarrow> bytes" where
  "ref_escape [] rest = CHR ''.'' # rest"
| "ref_escape (c # cs) rest = CHR ''+'' # c # ref_escape cs rest"

fun ref_entries :: "ref_trie \<Rightarrow> bytes" where
  "ref_entries [] = []"
| "ref_entries ((k, v) # t) = ref_escape k (ref_escape v (ref_entries t))"

definition ref_root :: "ref_trie \<Rightarrow> bytes" where
  "ref_root t = (if t = [] then zero_hash else ref_entries t)"

definition ref_store :: "(ref_db, ref_trie, ref_trie, ref_trie) store_ext" where
  "ref_store = \<lparr>
     db_Get = (\<lambda>(kv, _) k. case map_of kv k of None \<Rightarrow> Inl ErrNotFound | Some v \<Rightarrow> Inr v),
     db_Put = (\<lambda>(kv, ts) k v. Inr (AList.update k v kv, ts)),
     trie_New = (\<lambda>_ (_, ts) r. if r = zero_hash then Inr []
       else case map_of ts r of None \<Rightarrow> Inl (External ''missing root'') | Some t \<Rightarrow> Inr t),
     trie_Get = (\<lambda>_ t k. Inr (map_of t k)),
     trie_Update = (\<lambda>_ t k v. if v = [] then AList.delete k t else AList.update k v t),
     trie_Commit = (\<lambda>t. (ref_root t, t, t)),
     triedb_Update = (\<lambda>_ _ t. Inr t),
     triedb_Commit = (\<lambda>(kv, ts) t _. ((kv, (ref_root t, t) # ts), None)),
     BytesToHash = (\<lambda>r. if r = [] then zero_hash else r)\<rparr>"

definition ref_stored :: "ref_db \<Rightarrow> bytes \<Rightarrow> (bytes \<Rightarrow> bytes option) \<Rightarrow> bool" where
  "ref_stored d r m \<longleftrightarrow>
     (\<exists>t. ref_root t = r \<and> (r \<noteq> zero_hash \<longrightarrow> map_of (snd d) r = Some t) \<and> m = map_of t)"

lemma ref_escape_inject: "ref_escape a r = ref_escape b s \<longleftrightarrow> a = b \<and> r = s"
proof (induction a arbitrary: b)
  case Nil
  then show ?case by (cases b) auto
next
  case (Cons c a)
  then show ?case by (cases b) auto
qed

lemma ref_escape_head: "ref_escape a r \<noteq> []" "hd (ref_escape a r) \<noteq> char_of (0::nat)"
  by (cases a; simp add: char_of_def)+

lemma ref_entries_head: "t \<noteq> [] \<Longrightarrow> ref_entries t \<noteq> [] \<and> hd (ref_entries t) \<noteq> char_of (0::nat)"
proof (cases t rule: ref_entries.cases)
  case (2 k v s)
  then show ?thesis by (simp only: ref_entries.simps ref_escape_head not_False_eq_True simp_thms)
qed simp

lemma ref_entries_inject: "ref_entries s = ref_entries t \<Longrightarrow> s = t"
proof (induction s arbitrary: t)
  case Nil
  then have "ref_entries t = []" by simp
  then show ?case using ref_entries_head [of t] by blast
next
  case (Cons e s)
  obtain k v where e: "e = (k, v)" by (cases e)
  have "t \<noteq> []"
  proof
    assume "t = []"
    with Cons.prems have "ref_entries (e # s) = []" by simp
    then show False using ref_entries_head [of "e # s"] by blast
  qed
  then obtain k' v' t' where t: "t = (k', v') # t'" by (metis list.exhaust surj_pair)
  from Cons.prems have "k = k'" "v = v'" "ref_entries s = ref_entries t'"
    unfolding e t by (simp_all add: ref_escape_inject)
  with Cons.IH [of t'] show ?case unfolding e t by blast
qed

lemma ref_root_zero: "ref_root t = zero_hash \<longleftrightarrow> t = []"
proof (cases t)
  case (Cons e s)
  then have "hd (ref_root t) \<noteq> char_of (0::nat)"
    using ref_entries_head [of t] by (auto simp: ref_root_def)
  moreover have "hd zero_hash = char_of (0::nat)" by (simp add: zero_hash_def)
  ultimately show ?thesis using Cons by auto
qed (simp add: ref_root_def)

lemma ref_root_not_Nil: "ref_root t \<noteq> []"
  using ref_entries_head [of t] by (auto simp: ref_root_def zero_hash_def)

lemma ref_root_inject: "ref_root s = ref_root t \<longleftrightarrow> s = t"
  by (metis ref_entries_inject ref_root_def ref_root_zero)

lemma ref_trie_laws: "trie_laws ref_store map_of"
  by (simp add: trie_laws_def ref_store_def update_conv' zero_hash_def)

lemma ref_key_laws: "key_laws ref_store"
  by (auto simp: key_laws_def ref_store_def update_conv' split: if_splits option.splits)

lemma ref_node_laws: "node_laws ref_store map_of ref_stored"
  unfolding node_laws_def ref_store_def ref_stored_def
  by (auto simp: ref_root_inject ref_root_zero ref_root_not_Nil split: prod.splits if_splits option.splits)

lemma ref_store_laws: "store_laws ref_store map_of ref_stored"
  by (simp add: store_laws_def ref_trie_laws ref_node_laws ref_key_laws)

lemma ref_reliable: "reliable ref_store ref_stored"
  by (auto simp: reliable_def ref_store_def ref_stored_def split: prod.splits option.splits)

text \<open>
  Hexadecimal strings as \<open>hexutil\<close> writes them; a key is any string of 65 bytes, its own
  public key and its own signature.
\<close>

fun hex_digits :: "bytes \<Rightarrow> string" where
  "hex_digits [] = []"
| "hex_digits (c # cs) = hex_char (byte c div 16) # hex_char (byte c mod 16) # hex_digits cs"

fun hex_undigits :: "string \<Rightarrow> bytes option" where
  "hex_undigits [] = Some []"
| "hex_undigits (a # b # s) =
     (case (hex_val a, hex_val b, hex_undigits s) of
        (Some x, Some y, Some r) \<Rightarrow> Some (char_of (16 * x + y) # r)
      | _ \<Rightarrow> None)"
| "hex_undigits _ = None"

definition ref_decode :: "string \<Rightarrow> error + bytes" where
  "ref_decode s =
     (if take 2 s = ''0x'' then
        (case hex_undigits (drop 2 s) of Some b \<Rightarrow> Inr b | None \<Rightarrow> Inl (External ''hex''))
      else Inl (External ''hex''))"

definition ref_key :: "bytes \<Rightarrow> error + bytes" where
  "ref_key b = (if length b = 65 then Inr b else Inl (External ''key''))"

definition ref_crypto :: "(bytes, bytes) crypto_ext" where
  "ref_crypto = \<lparr>
     hex_Encode = (\<lambda>b. ''0x'' @ hex_digits b),
     hex_Decode = ref_decode,
     HexToECDSA = ref_key,
     PublicOf = (\<lambda>k. k),
     FromECDSAPub = (\<lambda>k. k),
     UnmarshalPubkey = ref_key,
     PubkeyToAddressHex = (\<lambda>k. ''0x'' @ hex_digits (take 20 k)),
     Keccak256Hash = (\<lambda>m. m),
     Sign = (\<lambda>_ k. ref_key k),
     Ecrecover = (\<lambda>_ s. ref_key s),
     Sum256 = (\<lambda>m. m)\<rparr>"

lemma hex_undigits_digits [simp]: "hex_undigits (hex_digits b) = Some b"
  by (induction b) (simp_all add: less_mult_imp_div_less)

lemma hex_char_ascii [simp]: "d < 16 \<Longrightarrow> byte (hex_char d) < (128::nat)"
  by (simp add: hex_char_def)

lemma ascii_hex_digits [simp]: "ascii (hex_digits b)"
  by (induction b) (simp_all add: less_mult_imp_div_less)

lemma hex_val_ascii: "hex_val c = Some v \<Longrightarrow> byte c < (128::nat)"
  by (auto simp: hex_val_def Let_def split: if_splits)

lemma hex_undigits_ascii: "hex_undigits s = Some b \<Longrightarrow> ascii s \<and> length s = 2 * length b"
  by (induction s arbitrary: b rule: hex_undigits.induct)
    (auto split: option.splits dest!: hex_val_ascii)

lemma ref_decode_Inr:
  assumes "ref_decode s = Inr b"
  shows "ascii s \<and> length s = 2 + 2 * length b"
proof -
  from assms have p: "take 2 s = ''0x''" and d: "hex_undigits (drop 2 s) = Some b"
    by (auto simp: ref_decode_def split: if_splits option.splits)
  have s: "s = ''0x'' @ drop 2 s" using p by (metis append_take_drop_id)
  have "ascii (''0x'' @ drop 2 s)" using hex_undigits_ascii [OF d] by simp
  moreover have "length (''0x'' @ drop 2 s) = 2 + 2 * length b"
    using hex_undigits_ascii [OF d] by simp
  ultimately show ?thesis using s by metis
qed

lemma ref_decode_encode: "ref_decode (''0x'' @ hex_digits b) = Inr b"
  by (simp add: ref_decode_def)

lemma ref_crypto_laws: "crypto_laws ref_crypto"
  unfolding crypto_laws_def
  by (auto simp: ref_crypto_def ref_decode_encode [simplified] ref_key_def
      dest: ref_decode_Inr split: if_splits)

end
