(* ===== verification/Signatures.thy ===== *)
theory Signatures
  imports External Complex_Main
begin

text \<open>
  The signing code: \<open>SignMerkleRoot\<close> and \<open>VerifySignature\<close> of chain.go,
  \<open>NewAccountFromPublicKey\<close> of account.go, and \<open>Hash\<close>, \<open>SignTransaction\<close>,
  \<open>VerifyTransactionSignature\<close> and \<open>NewTransaction\<close> of tx.go, over the parameter
  \<open>crypto_ext\<close>. The clock and the conversion of a \<open>float64\<close> out of the range of
  \<open>uint64\<close> (which Go leaves to the implementation) are arguments; a finite \<open>float64\<close> is a
  rational number.
\<close>

section \<open>Blocks\<close>

definition SignMerkleRoot :: "('sk, 'pk) crypto_ext \<Rightarrow> string \<Rightarrow> string \<Rightarrow> string outcome" where
  "SignMerkleRoot C privateKeyHex message =
     (case HexToECDSA C privateKeyHex of
        Inl e \<Rightarrow> Err (Wrap MsgPrivateKey e)
      | Inr privateKey \<Rightarrow>
          (case Sign C (Keccak256Hash C message) privateKey of
             Inl e \<Rightarrow> Err (Wrap MsgSign e)
           | Inr signature \<Rightarrow> Ok (hex_Encode C signature)))"

definition VerifySignature ::
    "('sk, 'pk) crypto_ext \<Rightarrow> string \<Rightarrow> string \<Rightarrow> string \<Rightarrow> bool outcome" where
  "VerifySignature C publicKeyHex message signatureHex =
     (case hex_Decode C signatureHex of
        Inl e \<Rightarrow> Err (Wrap MsgSignatureHex e)
      | Inr signature \<Rightarrow>
          (case hex_Decode C publicKeyHex of
             Inl e \<Rightarrow> Err (Wrap MsgPublicKey e)
           | Inr publicKeyBytes \<Rightarrow>
               (case UnmarshalPubkey C publicKeyBytes of
                  Inl e \<Rightarrow> Err (Wrap MsgPublicKey e)
                | Inr publicKey \<Rightarrow>
                    (case Ecrecover C (Keccak256Hash C message) signature of
                       Inl e \<Rightarrow> Err (Wrap MsgRecover e)
                     | Inr sigPublicKey \<Rightarrow> Ok (FromECDSAPub C publicKey = sigPublicKey)))))"

section \<open>Accounts\<close>

definition NewAccountFromPublicKey ::
    "('sk, 'pk) crypto_ext \<Rightarrow> string \<Rightarrow> uint64 \<Rightarrow> Account outcome" where
  "NewAccountFromPublicKey C publicKeyHex balance =
     (case hex_Decode C publicKeyHex of
        Inl e \<Rightarrow> Err (Wrap MsgPublicKey e)
      | Inr publicKeyBytes \<Rightarrow>
          (case UnmarshalPubkey C publicKeyBytes of
             Inl e \<Rightarrow> Err (Wrap MsgPublicKey e)
           | Inr publicKey \<Rightarrow>
               Ok \<lparr>Address = PubkeyToAddressHex C publicKey, Balance = balance,
                   PublicKey = publicKeyHex, Nonce = 0\<rparr>))"

section \<open>Transactions\<close>

text \<open>\<open>bytes.Join\<close> with an empty separator, then the digest.\<close>

definition Hash :: "('sk, 'pk) crypto_ext \<Rightarrow> Transaction \<Rightarrow> bytes" where
  "Hash C tx = Sum256 C (From tx @ To tx @ FormatUint (Amount tx) @ FormatUint (Timestamp tx))"

text \<open>\<open>fmt.Sprintf("%s_%s_%d_%d", tx.From, tx.To, tx.Amount, tx.Timestamp)\<close>.\<close>

definition tx_message :: "Transaction \<Rightarrow> string" where
  "tx_message tx = From tx @ CHR ''_'' # To tx @ CHR ''_'' # FormatUint (Amount tx)
     @ CHR ''_'' # FormatUint (Timestamp tx)"

definition SignTransaction ::
    "('sk, 'pk) crypto_ext \<Rightarrow> Transaction \<Rightarrow> string \<Rightarrow> string outcome" where
  "SignTransaction C tx privateKeyHex =
     (case HexToECDSA C privateKeyHex of
        Inl e \<Rightarrow> Err (Wrap MsgPrivateKey e)
      | Inr privateKey \<Rightarrow>
          (case Sign C (Keccak256Hash C (tx_message tx)) privateKey of
             Inl e \<Rightarrow> Err (Wrap MsgSign e)
           | Inr signature \<Rightarrow> Ok (hex_Encode C signature)))"

definition VerifyTransactionSignature ::
    "('sk, 'pk) crypto_ext \<Rightarrow> Transaction \<Rightarrow> string \<Rightarrow> bool outcome" where
  "VerifyTransactionSignature C tx publicKeyHex =
     (case hex_Decode C (TxSignature tx) of
        Inl e \<Rightarrow> Err (Wrap MsgSignatureHex e)
      | Inr signature \<Rightarrow>
          (case hex_Decode C publicKeyHex of
             Inl e \<Rightarrow> Err (Wrap MsgPublicKey e)
           | Inr publicKeyBytes \<Rightarrow>
               (case Ecrecover C (Keccak256Hash C (tx_message tx)) signature of
                  Inl e \<Rightarrow> Err (Wrap MsgRecover e)
                | Inr sigPublicKey \<Rightarrow> Ok (publicKeyBytes = sigPublicKey))))"

text \<open>\<open>(a *Account) VerifyTransaction\<close>.\<close>

definition VerifyTransaction ::
    "('sk, 'pk) crypto_ext \<Rightarrow> Account \<Rightarrow> Transaction \<Rightarrow> bool outcome" where
  "VerifyTransaction C a tx = VerifyTransactionSignature C tx (PublicKey a)"

text \<open>\<open>uint64(amount)\<close>: the fraction is dropped; out of range the result is \<open>oob\<close>'s.\<close>

definition f64_to_uint64 :: "(rat \<Rightarrow> uint64) \<Rightarrow> rat \<Rightarrow> uint64" where
  "f64_to_uint64 oob a =
     (let t = (if 0 \<le> a then \<lfloor>a\<rfloor> else - \<lfloor>- a\<rfloor>) in
      if 0 \<le> t \<and> t < 2 ^ 64 then word_of_int t else oob a)"

definition NewTransaction ::
    "('sk, 'pk) crypto_ext \<Rightarrow> (rat \<Rightarrow> uint64) \<Rightarrow> uint64 \<Rightarrow> string \<Rightarrow> string \<Rightarrow> rat \<Rightarrow> string
      \<Rightarrow> Transaction outcome" where
  "NewTransaction C oob now from to amount privateKeyHex =
     (let tx = \<lparr>ID = None, From = from, To = to, Amount = f64_to_uint64 oob amount,
            Timestamp = now, TxSignature = []\<rparr>;
          tx = tx\<lparr>ID := Some (Hash C tx)\<rparr>
      in case SignTransaction C tx privateKeyHex of
           Err e \<Rightarrow> Err (Wrap MsgSign e)
         | Panic \<Rightarrow> Panic
         | Ok signature \<Rightarrow> Ok (tx\<lparr>TxSignature := signature\<rparr>))"

section \<open>Properties of the signing code\<close>

lemma tx_message_frame [simp]:
  "tx_message (tx\<lparr>TxSignature := s\<rparr>) = tx_message tx" "tx_message (tx\<lparr>ID := i\<rparr>) = tx_message tx"
  by (simp_all add: tx_message_def)

lemma Hash_frame [simp]:
  "Hash C (tx\<lparr>TxSignature := s\<rparr>) = Hash C tx" "Hash C (tx\<lparr>ID := i\<rparr>) = Hash C tx"
  by (simp_all add: Hash_def)

lemma SignTransaction_Ok:
  "SignTransaction C tx key = Ok s \<longleftrightarrow>
     (\<exists>sk sig. HexToECDSA C key = Inr sk \<and> Sign C (Keccak256Hash C (tx_message tx)) sk = Inr sig
        \<and> s = hex_Encode C sig)"
  by (auto simp: SignTransaction_def split: sum.splits)

lemma SignTransaction_no_Panic [simp]: "SignTransaction C tx key \<noteq> Panic"
  by (simp add: SignTransaction_def split: sum.splits)

lemma VerifyTransactionSignature_Ok:
  "VerifyTransactionSignature C tx pk = Ok v \<longleftrightarrow>
     (\<exists>sig b p. hex_Decode C (TxSignature tx) = Inr sig \<and> hex_Decode C pk = Inr b
        \<and> Ecrecover C (Keccak256Hash C (tx_message tx)) sig = Inr p \<and> v = (b = p))"
  by (auto simp: VerifyTransactionSignature_def split: sum.splits)

lemma VerifyTransactionSignature_no_Panic [simp]: "VerifyTransactionSignature C tx pk \<noteq> Panic"
  by (simp add: VerifyTransactionSignature_def split: sum.splits)

lemma VerifySignature_Ok:
  "VerifySignature C pkh m s = Ok v \<longleftrightarrow>
     (\<exists>sig b pk p. hex_Decode C s = Inr sig \<and> hex_Decode C pkh = Inr b
        \<and> UnmarshalPubkey C b = Inr pk \<and> Ecrecover C (Keccak256Hash C m) sig = Inr p
        \<and> v = (FromECDSAPub C pk = p))"
  by (auto simp: VerifySignature_def split: sum.splits)

lemma VerifySignature_no_Panic [simp]: "VerifySignature C pkh m s \<noteq> Panic"
  by (simp add: VerifySignature_def split: sum.splits)

lemma SignMerkleRoot_Ok:
  "SignMerkleRoot C key m = Ok s \<longleftrightarrow>
     (\<exists>sk sig. HexToECDSA C key = Inr sk \<and> Sign C (Keccak256Hash C m) sk = Inr sig
        \<and> s = hex_Encode C sig)"
  by (auto simp: SignMerkleRoot_def split: sum.splits)

lemma SignMerkleRoot_no_Panic [simp]: "SignMerkleRoot C key m \<noteq> Panic"
  by (simp add: SignMerkleRoot_def split: sum.splits)

lemma NewTransaction_Ok:
  assumes "NewTransaction C oob now from to amount key = Ok tx"
  shows "From tx = from" "To tx = to" "Amount tx = f64_to_uint64 oob amount"
    "Timestamp tx = now" "ID tx = Some (Hash C tx)" "SignTransaction C tx key = Ok (TxSignature tx)"
proof -
  let ?t = "\<lparr>ID = None, From = from, To = to, Amount = f64_to_uint64 oob amount,
            Timestamp = now, TxSignature = []\<rparr>"
  from assms obtain s where tx: "tx = ?t\<lparr>ID := Some (Hash C ?t), TxSignature := s\<rparr>"
    and s: "SignTransaction C (?t\<lparr>ID := Some (Hash C ?t)\<rparr>) key = Ok s"
    by (auto simp: NewTransaction_def Let_def split: outcome.splits)
  from tx show "From tx = from" "To tx = to" "Amount tx = f64_to_uint64 oob amount"
    "Timestamp tx = now" by simp_all
  from tx show "ID tx = Some (Hash C tx)" by (simp add: Hash_def)
  from tx s show "SignTransaction C tx key = Ok (TxSignature tx)"
    by (simp add: SignTransaction_Ok tx_message_def)
qed

text \<open>A verified transaction has a signature of 132 characters.\<close>

lemma verified_signature_length:
  assumes "crypto_laws C" "VerifyTransactionSignature C tx pk = Ok v"
  shows "length (TxSignature tx) = 132"
  using assms law_hex_length law_sig_length
  by (fastforce simp: VerifyTransactionSignature_Ok)

lemma prefix_separated:
  assumes "c \<notin> set a" "c \<notin> set b"
  shows "a @ c # r = b @ c # s \<longleftrightarrow> a = b \<and> r = s"
proof
  assume eq: "a @ c # r = b @ c # s"
  have "takeWhile (\<lambda>x. x \<noteq> c) (a @ c # r) = a" "takeWhile (\<lambda>x. x \<noteq> c) (b @ c # s) = b"
    using assms by (subst takeWhile_append2; auto)+
  with eq have "a = b" by simp
  with eq show "a = b \<and> r = s" by simp
qed simp

lemma underscore_no_digit: "CHR ''_'' \<notin> set (FormatUint w)"
  using FormatUint_digits [of w] by (auto simp: list_all_iff is_digit_def)

lemma NewAccountFromPublicKey_Ok:
  "NewAccountFromPublicKey C pkh bal = Ok a \<longleftrightarrow>
     (\<exists>b pk. hex_Decode C pkh = Inr b \<and> UnmarshalPubkey C b = Inr pk
        \<and> a = \<lparr>Address = PubkeyToAddressHex C pk, Balance = bal, PublicKey = pkh, Nonce = 0\<rparr>)"
  by (auto simp: NewAccountFromPublicKey_def split: sum.splits)

lemma NewAccountFromPublicKey_san:
  assumes "crypto_laws C" "NewAccountFromPublicKey C pkh bal = Ok a"
  shows "san_Account a = a"
  using assms law_hex_ascii [OF assms(1), THEN to_valid_ascii]
  by (auto simp: NewAccountFromPublicKey_Ok san_Account_def law_address)

end
