(* ===== verification/Mempools.thy ===== *)
theory Mempools
  imports Signatures
begin

text \<open>
  The mempool of tx.go: a map from the hexadecimal transaction ID to the transaction. The
  stored transactions are never modified after they have been added, so the pointers of the
  Go map are values here, and the mutex makes each operation atomic. Go ranges over a map in
  an unspecified order: the operations that range take the order \<open>ks\<close> as an argument, and
  theorems hold for every order.

  \<open>keyed_pool\<close> is the interface the blockchain relies on; the mempool is an instance of it.
\<close>

section \<open>Operations\<close>

record Mempool =
  transactions :: "(string, Transaction) fmap"

definition NewMempool :: Mempool where
  "NewMempool = \<lparr>transactions = fmempty\<rparr>"

text \<open>\<open>hexutil.Encode(tx.ID)\<close>; a nil slice is written like an empty one.\<close>

definition tx_key :: "('sk, 'pk) crypto_ext \<Rightarrow> Transaction \<Rightarrow> string" where
  "tx_key C tx = hex_Encode C (elems (ID tx))"

definition AddTransaction ::
    "('sk, 'pk) crypto_ext \<Rightarrow> Transaction \<Rightarrow> Mempool \<Rightarrow> Mempool \<times> unit outcome" where
  "AddTransaction C tx mp =
     (let txID = tx_key C tx in
      if fmlookup (transactions mp) txID \<noteq> None then (mp, Err (Fail (MsgInMempool txID)))
      else (mp\<lparr>transactions := fmupd txID tx (transactions mp)\<rparr>, Ok ()))"

definition GetTransaction :: "string \<Rightarrow> Mempool \<Rightarrow> Transaction outcome" where
  "GetTransaction txID mp =
     (case fmlookup (transactions mp) txID of
        None \<Rightarrow> Err (Fail (MsgNotInMempool txID))
      | Some tx \<Rightarrow> Ok tx)"

definition RemoveTransaction :: "string \<Rightarrow> Mempool \<Rightarrow> Mempool" where
  "RemoveTransaction txID mp = mp\<lparr>transactions := fmdrop txID (transactions mp)\<rparr>"

definition GetAllTransactions :: "string list \<Rightarrow> Mempool \<Rightarrow> Transaction list" where
  "GetAllTransactions ks mp = List.map_filter (fmlookup (transactions mp)) ks"

definition GetSize :: "Mempool \<Rightarrow> nat" where
  "GetSize mp = fcard (fmdom (transactions mp))"

text \<open>\<open>tx.Signature[:64]\<close> panics on a shorter signature.\<close>

definition PrintMempool :: "Mempool \<Rightarrow> unit outcome" where
  "PrintMempool mp =
     (if fmpred (\<lambda>_ tx. 64 \<le> length (TxSignature tx)) (transactions mp) then Ok () else Panic)"

text \<open>An order in which Go may range over the map.\<close>

definition range_order :: "string list \<Rightarrow> Mempool \<Rightarrow> bool" where
  "range_order ks mp \<longleftrightarrow> distinct ks \<and> set ks = fmdom' (transactions mp)"

section \<open>The interface\<close>

locale keyed_pool =
  fixes lookup :: "'p \<Rightarrow> 'k \<Rightarrow> 'v option"
    and add :: "'v \<Rightarrow> 'p \<Rightarrow> 'p \<times> unit outcome"
    and remove :: "'k \<Rightarrow> 'p \<Rightarrow> 'p"
    and size_of :: "'p \<Rightarrow> nat"
    and key :: "'v \<Rightarrow> 'k"
  assumes add_new: "lookup p (key v) = None
      \<Longrightarrow> snd (add v p) = Ok () \<and> lookup (fst (add v p)) = (lookup p)(key v \<mapsto> v)
        \<and> size_of (fst (add v p)) = Suc (size_of p)"
    and add_dup: "lookup p (key v) \<noteq> None \<Longrightarrow> fst (add v p) = p \<and> (\<exists>e. snd (add v p) = Err e)"
    and lookup_remove: "lookup (remove k p) = (lookup p)(k := None)"
    and size_remove: "size_of (remove k p) = size_of p - (if lookup p k = None then 0 else 1)"
begin

text \<open>Every entry is stored under the key of its value.\<close>

definition keyed :: "'p \<Rightarrow> bool" where
  "keyed p \<longleftrightarrow> (\<forall>k v. lookup p k = Some v \<longrightarrow> key v = k)"

lemma add_cases:
  obtains "lookup p (key v) = None" "snd (add v p) = Ok ()"
      "lookup (fst (add v p)) = (lookup p)(key v \<mapsto> v)"
  | e where "lookup p (key v) \<noteq> None" "snd (add v p) = Err e" "fst (add v p) = p"
  using add_new [of p v] add_dup [of p v] by blast

lemma keyed_add: "keyed p \<Longrightarrow> keyed (fst (add v p))"
  by (rule add_cases [of p v]) (auto simp: keyed_def)

lemma keyed_remove: "keyed p \<Longrightarrow> keyed (remove k p)"
  by (simp add: keyed_def lookup_remove)

text \<open>Entries are never overwritten: an added value stays until its key is removed.\<close>

lemma add_keeps: "lookup p k = Some v \<Longrightarrow> lookup (fst (add w p)) k = Some v"
  by (rule add_cases [of p w]) auto

lemma add_result: "\<exists>w. lookup (fst (add v p)) (key v) = Some w"
  by (rule add_cases [of p v]) auto

lemma add_ok_iff: "snd (add v p) = Ok () \<longleftrightarrow> lookup p (key v) = None"
  by (rule add_cases [of p v]) auto

lemma lookup_removes: "lookup (fold remove ks p) k = (if k \<in> set ks then None else lookup p k)"
  by (induction ks arbitrary: p) (simp_all add: lookup_remove)

lemma remove_add:
  "lookup p (key v) = None \<Longrightarrow> lookup (remove (key v) (fst (add v p))) = lookup p"
  using add_new [of p v] by (auto simp: lookup_remove fun_eq_iff)

end

section \<open>The mempool provides it\<close>

lemma fcard_fmdrop:
  "fcard (fmdom (fmdrop k m)) = fcard (fmdom m) - (if fmlookup m k = None then 0 else 1)"
proof (cases "fmlookup m k = None")
  case True
  then have "k |\<notin>| fmdom m" by (rule fmdom_notI)
  then have "fmdom m |-| {|k|} = fmdom m" by auto
  with True show ?thesis by simp
next
  case False
  then have "k |\<in>| fmdom m" by (auto simp: fmlookup_dom_iff)
  with False show ?thesis by (auto simp: fcard_fminus_fsingleton)
qed

interpretation pool: keyed_pool
  "\<lambda>mp. fmlookup (transactions mp)" "AddTransaction C" RemoveTransaction GetSize "tx_key C"
  for C :: "('sk, 'pk) crypto_ext"
proof (unfold_locales, goal_cases)
  case (1 mp tx)
  then have "tx_key C tx |\<notin>| fmdom (transactions mp)" by (rule fmdom_notI)
  with 1 show ?case
    by (auto simp: AddTransaction_def Let_def GetSize_def fcard_finsert_disjoint fun_eq_iff)
next
  case (2 mp tx)
  then show ?case by (simp add: AddTransaction_def Let_def)
next
  case (3 k mp)
  then show ?case by (auto simp: RemoveTransaction_def)
next
  case (4 k mp)
  then show ?case by (simp add: RemoveTransaction_def GetSize_def fcard_fmdrop del: fmdom_drop)
qed

text \<open>The invariant of the interface, for the mempool.\<close>

definition well_keyed :: "('sk, 'pk) crypto_ext \<Rightarrow> Mempool \<Rightarrow> bool" where
  "well_keyed C mp \<longleftrightarrow> (\<forall>k tx. fmlookup (transactions mp) k = Some tx \<longrightarrow> tx_key C tx = k)"

lemma well_keyed_steps:
  "well_keyed C mp \<Longrightarrow> well_keyed C (fst (AddTransaction C tx mp))"
  "well_keyed C mp \<Longrightarrow> well_keyed C (RemoveTransaction k mp)"
  using pool.keyed_add [of C mp tx] pool.keyed_remove [of C mp k]
  by (simp_all add: well_keyed_def pool.keyed_def)

lemma GetTransaction_Ok: "GetTransaction k mp = Ok tx \<longleftrightarrow> fmlookup (transactions mp) k = Some tx"
  by (simp add: GetTransaction_def split: option.splits)

lemma GetTransaction_no_Panic [simp]: "GetTransaction k mp \<noteq> Panic"
  by (simp add: GetTransaction_def split: option.splits)

lemma set_GetAllTransactions:
  assumes "range_order ks mp"
  shows "set (GetAllTransactions ks mp) = fmran' (transactions mp)"
proof -
  let ?f = "fmlookup (transactions mp)"
  have "set (GetAllTransactions ks mp) = {v. \<exists>k \<in> set ks. ?f k = Some v}"
    by (force simp: GetAllTransactions_def List.map_filter_def)
  also have "\<dots> = fmran' (transactions mp)"
    using assms by (simp add: range_order_def fmlookup_ran'_iff Bex_def fmlookup_dom'_iff set_eq_iff)
      blast
  finally show ?thesis .
qed

lemma length_GetAllTransactions:
  assumes "range_order ks mp"
  shows "length (GetAllTransactions ks mp) = GetSize mp"
proof -
  have "filter (\<lambda>k. fmlookup (transactions mp) k \<noteq> None) ks = ks"
    using assms by (auto simp: range_order_def fmlookup_dom'_iff intro!: filter_True)
  then have "length (GetAllTransactions ks mp) = length ks"
    by (simp add: GetAllTransactions_def List.map_filter_def)
  also have "\<dots> = card (set ks)" using assms by (auto simp: range_order_def dest: distinct_card)
  also have "\<dots> = GetSize mp"
    using assms by (simp add: range_order_def GetSize_def fcard.rep_eq fmdom'_alt_def)
  finally show ?thesis .
qed

end
