(* ===== verification/Stores.thy ===== *)
theory Stores
  imports Mempools
begin

text \<open>
  The state of a node's blockchain (the struct \<open>Blockchain\<close> of chain.go) and the two
  routines that every trie-backed store shares: opening a trie with retries
  (\<open>RestoreTrieFromRootHash\<close>) and writing the nodes of a commit. The locale \<open>kv_store\<close>
  is the contract of such a store (accounts, transactions and blocks are instances), and
  \<open>ledger\<close> extends it by balances and proves once what a debit and a credit do to the
  total of the balances.
\<close>

section \<open>State\<close>

text \<open>
  A nil pointer is \<open>None\<close>. \<open>bcP2P\<close> says whether \<open>P2PNetwork\<close> has been set; what the
  network answers is an argument of the operations that ask it.
\<close>

record ('db, 'tr) Blockchain =
  db :: 'db
  tr :: "'tr option"
  txTrie :: "'tr option"
  accTrie :: "'tr option"
  bcConfig :: Config
  bcMempool :: "Mempool option"
  bcP2P :: bool

section \<open>Opening and writing tries\<close>

text \<open>At most three attempts in the loop, then a last one whose result is returned as it is.\<close>

fun restore_attempts ::
    "('db, 'tr, 'nd, 'tdb) store_ext \<Rightarrow> 'db \<Rightarrow> bytes \<Rightarrow> nat \<Rightarrow> nat \<Rightarrow> error + 'tr" where
  "restore_attempts X d rootHash i 0 = trie_New X i d rootHash"
| "restore_attempts X d rootHash i (Suc n) =
     (case trie_New X i d rootHash of
        Inr t \<Rightarrow> Inr t
      | Inl _ \<Rightarrow> restore_attempts X d rootHash (Suc i) n)"

definition RestoreTrieFromRootHash ::
    "('db, 'tr, 'nd, 'tdb) store_ext \<Rightarrow> 'db \<Rightarrow> bytes \<Rightarrow> error + 'tr" where
  "RestoreTrieFromRootHash X d rootHash = restore_attempts X d rootHash 0 3"

definition CreateNewTrie :: "('db, 'tr, 'nd, 'tdb) store_ext \<Rightarrow> 'db \<Rightarrow> error + 'tr" where
  "CreateNewTrie X d = trie_New X 0 d zero_hash"

text \<open>
  \<open>Commit\<close> of a trie, then \<open>Update\<close> and \<open>Commit\<close> of a fresh trie database: the
  database and the (committed) handle afterwards, and the root or the error.
\<close>

definition commit_nodes ::
    "('db, 'tr, 'nd, 'tdb) store_ext \<Rightarrow> 'db \<Rightarrow> 'tr \<Rightarrow> 'db \<times> 'tr \<times> (error + bytes)" where
  "commit_nodes X d t =
     (case trie_Commit X t of
        (rootHash, nodes, t') \<Rightarrow>
          (case triedb_Update X d rootHash nodes of
             Inl e \<Rightarrow> (d, t', Inl (Wrap MsgTrieUpdate e))
           | Inr td \<Rightarrow>
               (case triedb_Commit X d td rootHash of
                  (d', Some e) \<Rightarrow> (d', t', Inl (Wrap MsgTrieCommit e))
                | (d', None) \<Rightarrow> (d', t', Inr rootHash))))"

lemma restore_attempts_Inr:
  "restore_attempts X d rootHash i n = Inr t \<longleftrightarrow>
     (\<exists>j \<le> n. trie_New X (i + j) d rootHash = Inr t \<and> (\<forall>k < j. \<exists>e. trie_New X (i + k) d rootHash = Inl e))"
proof (induction n arbitrary: i)
  case 0
  then show ?case by simp
next
  case (Suc n)
  show ?case
  proof (cases "trie_New X i d rootHash")
    case (Inl e)
    have split: "(\<exists>j \<le> Suc n. P j) \<longleftrightarrow> P 0 \<or> (\<exists>j \<le> n. P (Suc j))" for P
      by (metis Suc_le_mono le0 not0_implies_Suc)
    from Inl show ?thesis
      by (simp add: Suc split [of "\<lambda>j. trie_New X (i + j) d rootHash = Inr t
          \<and> (\<forall>k < j. \<exists>e. trie_New X (i + k) d rootHash = Inl e)"] All_less_Suc2)
  next
    case (Inr u)
    then have "\<not> (\<forall>k < j. \<exists>e. trie_New X (i + k) d rootHash = Inl e)" if "0 < j" for j
      using that by force
    with Inr show ?thesis by (auto intro!: exI [of _ 0]) (metis Nat.add_0_right neq0_conv sum.inject(2))
  qed
qed

lemma restore_view:
  assumes "node_laws X view stored" "stored d rootHash m" "RestoreTrieFromRootHash X d rootHash = Inr t"
  shows "view t = m"
  using assms law_new by (fastforce simp: RestoreTrieFromRootHash_def restore_attempts_Inr)

lemma commit_nodes_view:
  assumes "trie_laws X view" "commit_nodes X d t = (d', t', r)"
  shows "view t' = view t"
  using assms(2) law_commit [OF assms(1)]
  by (auto simp: commit_nodes_def split: prod.splits sum.splits option.splits)

lemma commit_nodes_stored:
  assumes "node_laws X view stored" "commit_nodes X d t = (d', t', Inr rootHash)"
  shows "stored d' rootHash (view t)"
  using assms(2) law_save [OF assms(1)]
  by (auto simp: commit_nodes_def split: prod.splits sum.splits option.splits)

lemma commit_nodes_keep:
  assumes "node_laws X view stored" "commit_nodes X d t = (d', t', r)" "stored d rootHash m"
  shows "stored d' rootHash m"
  using assms(2,3) law_commit_stored [OF assms(1)]
  by (auto simp: commit_nodes_def split: prod.splits sum.splits option.splits)

lemma commit_nodes_keys:
  assumes "key_laws X" "commit_nodes X d t = (d', t', r)" "k \<in> set db_keys"
  shows "db_Get X d' k = db_Get X d k"
  using assms(2,3) law_commit_keys [OF assms(1)]
  by (auto simp: commit_nodes_def split: prod.splits sum.splits option.splits)

text \<open>Where no call fails, a commit and the trie opened after it succeed.\<close>

lemma commit_nodes_reliable:
  assumes "reliable X stored"
  shows "\<exists>d' t' r. commit_nodes X d t = (d', t', Inr r)"
proof -
  obtain r n t' where t': "trie_Commit X t = (r, n, t')" by (cases "trie_Commit X t")
  then obtain td d' where "triedb_Update X d r n = Inr td" "triedb_Commit X d td r = (d', None)"
    using rel_commit [OF assms t'] by blast
  with t' show ?thesis by (simp add: commit_nodes_def)
qed

lemma restore_reliable:
  assumes "reliable X stored" "stored d r m"
  shows "\<exists>t. RestoreTrieFromRootHash X d r = Inr t"
  using rel_new [OF assms, of 0]
  by (auto simp: RestoreTrieFromRootHash_def restore_attempts_Inr numeral_3_eq_3 split: sum.splits)

section \<open>The contract of a store\<close>

text \<open>
  \<open>look s\<close> is the map the state stands for and \<open>san v\<close> the value as it is after it has
  been written and read. A write changes the map at one key, on the error branches too; a read
  that succeeds returns what the map says. In a good state every value is stored under its own
  key and has been stored before.
\<close>

locale kv_store =
  fixes good :: "'s \<Rightarrow> bool"
    and look :: "'s \<Rightarrow> 'k \<Rightarrow> 'v option"
    and save :: "'v \<Rightarrow> 's \<Rightarrow> 's \<times> unit outcome"
    and get :: "'k \<Rightarrow> 's \<Rightarrow> 'v outcome"
    and key :: "'v \<Rightarrow> 'k"
    and san :: "'v \<Rightarrow> 'v"
  assumes look_save: "good s \<Longrightarrow> look (fst (save v s)) = (look s)(key v \<mapsto> san v)"
    and good_save: "good s \<Longrightarrow> san v = v \<Longrightarrow> good (fst (save v s))"
    and save_no_panic: "good s \<Longrightarrow> snd (save v s) \<noteq> Panic"
    and look_get: "good s \<Longrightarrow> get k s = Ok v \<Longrightarrow> look s k = Some v"
    and get_no_panic: "good s \<Longrightarrow> get k s \<noteq> Panic"
    and good_entry: "good s \<Longrightarrow> look s k = Some v \<Longrightarrow> key v = k \<and> san v = v"
begin

lemma get_entry: "good s \<Longrightarrow> get k s = Ok v \<Longrightarrow> key v = k \<and> san v = v"
  using look_get good_entry by blast

lemma get_after_save: "good s \<Longrightarrow> san v = v \<Longrightarrow> get (key v) (fst (save v s)) = Ok w \<Longrightarrow> w = v"
  using look_get [OF good_save] look_save by fastforce

lemma get_other:
  "good s \<Longrightarrow> san v = v \<Longrightarrow> k \<noteq> key v \<Longrightarrow> get k (fst (save v s)) = Ok w \<Longrightarrow> look s k = Some w"
  using look_get [OF good_save] look_save by fastforce

lemma get_deterministic: "good s \<Longrightarrow> get k s = Ok v \<Longrightarrow> get k s = Ok w \<Longrightarrow> v = w"
  by simp

lemma save_outcome: "good s \<Longrightarrow> snd (save v s) = Ok () \<or> (\<exists>e. snd (save v s) = Err e)"
  using save_no_panic by (cases "snd (save v s)") auto

end

section \<open>The contract of a ledger\<close>

locale ledger = kv_store good look save get key san
  for good :: "'s \<Rightarrow> bool" and look :: "'s \<Rightarrow> 'k \<Rightarrow> 'v option"
    and save :: "'v \<Rightarrow> 's \<Rightarrow> 's \<times> unit outcome" and get :: "'k \<Rightarrow> 's \<Rightarrow> 'v outcome"
    and key :: "'v \<Rightarrow> 'k" and san :: "'v \<Rightarrow> 'v" +
  fixes bal :: "'v \<Rightarrow> nat"
begin

text \<open>The balance at a key, 0 where there is no account, and the total over a set of keys.\<close>

definition bal_at :: "'s \<Rightarrow> 'k \<Rightarrow> nat" where
  "bal_at s k = (case look s k of None \<Rightarrow> 0 | Some v \<Rightarrow> bal v)"

definition funds :: "'k set \<Rightarrow> 's \<Rightarrow> nat" where
  "funds A s = sum (bal_at s) A"

lemma bal_at_save: "good s \<Longrightarrow> san v = v \<Longrightarrow> bal_at (fst (save v s)) = (bal_at s)(key v := bal v)"
  by (auto simp: bal_at_def look_save fun_eq_iff)

lemma funds_save:
  assumes "good s" "san v = v" "finite A" "key v \<in> A"
  shows "funds A (fst (save v s)) + bal_at s (key v) = funds A s + bal v"
  using sum_update_one [of A "key v" "bal_at (fst (save v s))" "bal_at s"] assms
  by (simp add: funds_def bal_at_save)

lemma bal_at_le_funds: "finite A \<Longrightarrow> k \<in> A \<Longrightarrow> bal_at s k \<le> funds A s"
  unfolding funds_def by (rule member_le_sum) simp_all

text \<open>A debit saved on its own lowers the total by what it takes.\<close>

lemma debit_funds:
  assumes "good s" "look s (key v) = Some w" "san v = v" "bal v + a = bal w"
    "finite A" "key v \<in> A"
  shows "funds A (fst (save v s)) + a = funds A s"
  using funds_save [OF assms(1,3,5,6)] assms(2,4) by (simp add: bal_at_def)

text \<open>A debit and a credit at two keys keep the total.\<close>

lemma transfer_funds:
  assumes "good s" "look s (key v) = Some v0" "look s (key w) = Some w0" "key v \<noteq> key w"
    "san v = v" "san w = w" "bal v + a = bal v0" "bal w = bal w0 + a"
    "finite A" "key v \<in> A" "key w \<in> A"
  shows "funds A (fst (save w (fst (save v s)))) = funds A s"
proof -
  have "funds A (fst (save v s)) + a = funds A s"
    by (rule debit_funds) (use assms in auto)
  moreover have "funds A (fst (save w (fst (save v s)))) + bal_at (fst (save v s)) (key w)
      = funds A (fst (save v s)) + bal w"
    by (rule funds_save) (use assms good_save in auto)
  moreover have "bal_at (fst (save v s)) (key w) = bal w0"
    using assms by (simp add: bal_at_save) (simp add: bal_at_def)
  ultimately show ?thesis using assms(8) by simp
qed

text \<open>Two values saved at the same key: the second one is what remains.\<close>

lemma overwrite_funds:
  assumes "good s" "look s (key w) = Some w0" "key v = key w"
    "san v = v" "san w = w" "bal w = bal w0 + a" "finite A" "key w \<in> A"
  shows "funds A (fst (save w (fst (save v s)))) = funds A s + a"
proof -
  have "bal_at (fst (save w (fst (save v s)))) = (bal_at s)(key w := bal w)"
    using assms good_save by (simp add: bal_at_save fun_eq_iff)
  then have "funds A (fst (save w (fst (save v s)))) + bal_at s (key w) = funds A s + bal w"
    using sum_update_one [of A "key w" "bal_at (fst (save w (fst (save v s))))" "bal_at s"] assms
    by (simp add: funds_def)
  moreover have "bal_at s (key w) = bal w0" using assms by (simp add: bal_at_def)
  ultimately show ?thesis using assms(6) by simp
qed

end

end
