(* ===== verification/Accounts.thy ===== *)
theory Accounts
  imports Stores
begin

text \<open>
  The account store of account.go: \<open>SaveAccountToTrie\<close>, \<open>GetAccountFromTrie\<close>,
  \<open>TransferBalance\<close>, \<open>InitializeTestAccounts\<close> and the methods of \<open>Account\<close>. The account
  trie is an instance of the contract \<open>ledger\<close>: the state stands for the map
  \<open>acc_look\<close> from addresses to accounts.
\<close>

section \<open>Methods of Account\<close>

definition GetBalance :: "Account \<Rightarrow> uint64" where
  "GetBalance a = Balance a"

definition UpdateBalance :: "uint64 \<Rightarrow> Account \<Rightarrow> Account" where
  "UpdateBalance amount a = a\<lparr>Balance := amount\<rparr>"

definition IncrementNonce :: "Account \<Rightarrow> Account" where
  "IncrementNonce a = a\<lparr>Nonce := Nonce a + 1\<rparr>"

section \<open>The account trie\<close>

definition SaveAccountToTrie ::
    "('db, 'tr, 'nd, 'tdb) store_ext \<Rightarrow> Account \<Rightarrow> ('db, 'tr) Blockchain
      \<Rightarrow> ('db, 'tr) Blockchain \<times> unit outcome" where
  "SaveAccountToTrie X account bc =
     (case accTrie bc of
        None \<Rightarrow> (bc, Panic)
      | Some t \<Rightarrow>
          let t1 = trie_Update X (db bc) t (Address account) (marshal_Account account) in
          case commit_nodes X (db bc) t1 of
            (d, t2, Inl e) \<Rightarrow> (bc\<lparr>db := d, accTrie := Some t2\<rparr>, Err e)
          | (d, t2, Inr rootHash) \<Rightarrow>
              (case db_Put X d ACC_ROOT_HASH rootHash of
                 Inl e \<Rightarrow> (bc\<lparr>db := d, accTrie := Some t2\<rparr>, Err (Wrap MsgPut e))
               | Inr d' \<Rightarrow>
                   (case RestoreTrieFromRootHash X d' rootHash of
                      Inl e \<Rightarrow> (bc\<lparr>db := d', accTrie := Some t2\<rparr>, Err (Wrap MsgTrieRestore e))
                    | Inr newTrie \<Rightarrow> (bc\<lparr>db := d', accTrie := Some newTrie\<rparr>, Ok ()))))"

definition GetAccountFromTrie ::
    "('db, 'tr, 'nd, 'tdb) store_ext \<Rightarrow> string \<Rightarrow> ('db, 'tr) Blockchain \<Rightarrow> Account outcome" where
  "GetAccountFromTrie X address bc =
     (case accTrie bc of
        None \<Rightarrow> Panic
      | Some t \<Rightarrow>
          (case trie_Get X (db bc) t address of
             Inl e \<Rightarrow> Err (Wrap MsgGet e)
           | Inr None \<Rightarrow> Err (Fail (MsgAccountNotFound address))
           | Inr (Some value) \<Rightarrow>
               (case unmarshal_Account value of
                  None \<Rightarrow> Err (Wrap MsgDecode JsonError)
                | Some account \<Rightarrow> Ok account)))"

text \<open>
  \<open>TransferBalance\<close> changes the two accounts through their pointers before it saves them.
  \<open>same\<close> says that the caller passed one pointer twice; the debited balance is then the
  one that is credited.
\<close>

definition TransferBalance ::
    "('db, 'tr, 'nd, 'tdb) store_ext \<Rightarrow> bool \<Rightarrow> Account \<Rightarrow> Account \<Rightarrow> uint64
      \<Rightarrow> ('db, 'tr) Blockchain \<Rightarrow> ('db, 'tr) Blockchain \<times> unit outcome" where
  "TransferBalance X same from to amount bc =
     (if Balance from < amount then (bc, Err (Fail MsgInsufficientBalance))
      else
        let from1 = from\<lparr>Balance := Balance from - amount\<rparr>;
            to0 = (if same then from1 else to);
            to1 = to0\<lparr>Balance := Balance to0 + amount\<rparr>;
            from2 = (if same then to1 else from1)
        in case SaveAccountToTrie X from2 bc of
             (bc1, Err e) \<Rightarrow> (bc1, Err (Wrap MsgSaveSender e))
           | (bc1, Panic) \<Rightarrow> (bc1, Panic)
           | (bc1, Ok _) \<Rightarrow>
               (case SaveAccountToTrie X to1 bc1 of
                  (bc2, Err e) \<Rightarrow> (bc2, Err (Wrap MsgSaveReceiver e))
                | (bc2, Panic) \<Rightarrow> (bc2, Panic)
                | (bc2, Ok _) \<Rightarrow> (bc2, Ok ())))"

section \<open>The test accounts\<close>

definition pubKey1 :: string where
  "pubKey1 = ''0x048f1273da4d7c042caa74c4fe50443831875128a8ff7817c40f1211cdf6e65e63e5ce5139da1983946cb15a054d951559523d7121ae9d0314f5e187cc757b36e2''"
definition pubKey2 :: string where
  "pubKey2 = ''0x04127bae1dc0022eabf3fc16447d501fa45906d5127d116de654b6e93b0606ee9430552b8f458d905459396d581b9201b7745edf1d2f47a84aed5e063cc196942b''"
definition pubKey3 :: string where
  "pubKey3 = ''0x04d53415bd1e6941e971c2eb1f9a4e964dd8cb043a5865f023f004915aef78d462d61072e9448ea334070cc26460c471a6c6ca9bc82461c02ddea5ca2bf7c170f6''"

text \<open>One of the three blocks of \<open>InitializeTestAccounts\<close>: account \<open>n\<close> from its key.\<close>

definition init_account ::
    "('db, 'tr, 'nd, 'tdb) store_ext \<Rightarrow> ('sk, 'pk) crypto_ext \<Rightarrow> nat \<Rightarrow> string
      \<Rightarrow> ('db, 'tr) Blockchain \<Rightarrow> ('db, 'tr) Blockchain \<times> unit outcome" where
  "init_account X C n pubKey bc =
     (case NewAccountFromPublicKey C pubKey 1000 of
        Err e \<Rightarrow> (bc, Err (Wrap (MsgInitAccount n) e))
      | Panic \<Rightarrow> (bc, Panic)
      | Ok acc \<Rightarrow>
          (case GetAccountFromTrie X (Address acc) bc of
             Panic \<Rightarrow> (bc, Panic)
           | Ok _ \<Rightarrow> (bc, Ok ())
           | Err _ \<Rightarrow>
               (case SaveAccountToTrie X acc bc of
                  (bc', Err e) \<Rightarrow> (bc', Err (Wrap (MsgSaveAccount n) e))
                | (bc', r) \<Rightarrow> (bc', r))))"

definition InitializeTestAccounts ::
    "('db, 'tr, 'nd, 'tdb) store_ext \<Rightarrow> ('sk, 'pk) crypto_ext
      \<Rightarrow> ('db, 'tr) Blockchain \<Rightarrow> ('db, 'tr) Blockchain \<times> unit outcome" where
  "InitializeTestAccounts X C bc =
     (case init_account X C 1 pubKey1 bc of
        (bc1, Ok _) \<Rightarrow>
          (case init_account X C 2 pubKey2 bc1 of
             (bc2, Ok _) \<Rightarrow> init_account X C 3 pubKey3 bc2
           | r \<Rightarrow> r)
      | r \<Rightarrow> r)"

section \<open>The map behind the trie\<close>

definition acc_look :: "('tr \<Rightarrow> bytes \<Rightarrow> bytes option) \<Rightarrow> ('db, 'tr) Blockchain \<Rightarrow> string \<Rightarrow> Account option" where
  "acc_look view bc k = (case accTrie bc of None \<Rightarrow> None | Some t \<Rightarrow> Option.bind (view t k) unmarshal_Account)"

definition acc_good ::
    "('db, 'tr, 'nd, 'tdb) store_ext \<Rightarrow> ('tr \<Rightarrow> bytes \<Rightarrow> bytes option)
      \<Rightarrow> ('db \<Rightarrow> bytes \<Rightarrow> (bytes \<Rightarrow> bytes option) \<Rightarrow> bool) \<Rightarrow> ('db, 'tr) Blockchain \<Rightarrow> bool" where
  "acc_good X view stored bc \<longleftrightarrow> store_laws X view stored \<and> accTrie bc \<noteq> None
     \<and> (\<forall>k a. acc_look view bc k = Some a \<longrightarrow> Address a = k \<and> san_Account a = a)"

text \<open>Whatever a save returns, the handle it leaves has the new entry.\<close>

lemma SaveAccountToTrie_view:
  assumes laws: "store_laws X view stored" and t: "accTrie bc = Some t"
  shows "\<exists>t'. accTrie (fst (SaveAccountToTrie X a bc)) = Some t'
      \<and> view t' = (view t)(Address a \<mapsto> marshal_Account a)"
proof -
  let ?t1 = "trie_Update X (db bc) t (Address a) (marshal_Account a)"
  have t1: "view ?t1 = (view t)(Address a \<mapsto> marshal_Account a)"
    by (simp add: law_update [OF store_trie [OF laws]])
  obtain d t2 r where c: "commit_nodes X (db bc) ?t1 = (d, t2, r)"
    by (cases "commit_nodes X (db bc) ?t1")
  have t2: "view t2 = view ?t1" by (rule commit_nodes_view [OF store_trie [OF laws] c])
  have t3: "view t3 = view ?t1"
    if "r = Inr rh" "db_Put X d ACC_ROOT_HASH rh = Inr d'" "RestoreTrieFromRootHash X d' rh = Inr t3"
    for rh d' t3
  proof -
    have "stored d rh (view ?t1)" using commit_nodes_stored [OF store_node [OF laws]] c that(1) by simp
    then have "stored d' rh (view ?t1)" using law_put_stored [OF store_node [OF laws] that(2)] by simp
    then show ?thesis by (rule restore_view [OF store_node [OF laws] _ that(3)])
  qed
  from t c t1 t2 t3 show ?thesis
    by (auto simp: SaveAccountToTrie_def Let_def split: sum.splits)
qed

lemma acc_look_save:
  assumes "store_laws X view stored" "accTrie bc \<noteq> None"
  shows "acc_look view (fst (SaveAccountToTrie X a bc)) = (acc_look view bc)(Address a \<mapsto> san_Account a)"
proof -
  obtain t where t: "accTrie bc = Some t" using assms(2) by auto
  from SaveAccountToTrie_view [OF assms(1) t, of a] obtain t' where
    "accTrie (fst (SaveAccountToTrie X a bc)) = Some t'"
    "view t' = (view t)(Address a \<mapsto> marshal_Account a)" by blast
  with t show ?thesis by (auto simp: acc_look_def codec_simps fun_eq_iff)
qed

lemma SaveAccountToTrie_frame [frame_simps]:
  "tr (fst (SaveAccountToTrie X a bc)) = tr bc" "txTrie (fst (SaveAccountToTrie X a bc)) = txTrie bc"
  "bcConfig (fst (SaveAccountToTrie X a bc)) = bcConfig bc"
  "bcMempool (fst (SaveAccountToTrie X a bc)) = bcMempool bc"
  "bcP2P (fst (SaveAccountToTrie X a bc)) = bcP2P bc"
  "(accTrie (fst (SaveAccountToTrie X a bc)) = None) = (accTrie bc = None)"
  by (auto simp: SaveAccountToTrie_def Let_def split: option.splits prod.splits sum.splits)

lemma SaveAccountToTrie_Panic: "snd (SaveAccountToTrie X a bc) = Panic \<longleftrightarrow> accTrie bc = None"
  by (auto simp: SaveAccountToTrie_def Let_def split: option.splits prod.splits sum.splits)

lemma SaveAccountToTrie_keys:
  assumes "key_laws X" "k \<in> set db_keys" "k \<noteq> ACC_ROOT_HASH"
  shows "db_Get X (db (fst (SaveAccountToTrie X a bc))) k = db_Get X (db bc) k"
  using assms commit_nodes_keys [OF assms(1)] law_put_other [OF assms(1)]
  by (auto simp: SaveAccountToTrie_def Let_def split: option.splits prod.splits sum.splits)

lemma SaveAccountToTrie_stored:
  assumes "node_laws X view stored" "stored (db bc) r m"
  shows "stored (db (fst (SaveAccountToTrie X a bc))) r m"
  using assms(2) commit_nodes_keep [OF assms(1)] law_put_stored [OF assms(1)]
  by (auto simp: SaveAccountToTrie_def Let_def split: option.splits prod.splits sum.splits)

lemma GetAccountFromTrie_Ok:
  assumes "trie_laws X view" "GetAccountFromTrie X k bc = Ok a"
  shows "acc_look view bc k = Some a"
  using assms law_get [OF assms(1)]
  by (auto simp: GetAccountFromTrie_def acc_look_def split: option.splits sum.splits)

lemma GetAccountFromTrie_Panic: "GetAccountFromTrie X k bc = Panic \<longleftrightarrow> accTrie bc = None"
  by (auto simp: GetAccountFromTrie_def split: option.splits sum.splits)

text \<open>Where no call fails, a write succeeds and a read returns what the map says.\<close>

lemma SaveAccountToTrie_reliable:
  assumes "reliable X stored" "store_laws X view stored" "accTrie bc \<noteq> None"
  shows "snd (SaveAccountToTrie X a bc) = Ok ()"
proof -
  obtain t where t: "accTrie bc = Some t" using assms(3) by auto
  let ?t1 = "trie_Update X (db bc) t (Address a) (marshal_Account a)"
  obtain d t2 r where c: "commit_nodes X (db bc) ?t1 = (d, t2, Inr r)"
    using commit_nodes_reliable [OF assms(1)] by blast
  obtain d' where p: "db_Put X d ACC_ROOT_HASH r = Inr d'"
    using rel_put [OF assms(1)] db_keys_member by blast
  have "stored d' r (view ?t1)"
    using commit_nodes_stored [OF store_node [OF assms(2)] c] law_put_stored [OF store_node [OF assms(2)] p]
    by simp
  then obtain t' where "RestoreTrieFromRootHash X d' r = Inr t'"
    using restore_reliable [OF assms(1)] by blast
  with t c p show ?thesis by (simp add: SaveAccountToTrie_def)
qed

lemma GetAccountFromTrie_reliable:
  assumes "reliable X stored" "store_laws X view stored" "accTrie bc \<noteq> None"
  shows "GetAccountFromTrie X k bc = Ok a \<longleftrightarrow> acc_look view bc k = Some a"
proof -
  obtain t where t: "accTrie bc = Some t" using assms(3) by auto
  then have "trie_Get X (db bc) t k = Inr (view t k)"
    using rel_get [OF assms(1), of "db bc" t k] law_get [OF store_trie [OF assms(2)], of "db bc" t k] by auto
  with t show ?thesis by (auto simp: GetAccountFromTrie_def acc_look_def split: option.splits)
qed

interpretation acc: ledger
  "acc_good X view stored" "acc_look view" "SaveAccountToTrie X" "GetAccountFromTrie X" Address
  san_Account "\<lambda>a. unat (Balance a)"
  for X :: "('db, 'tr, 'nd, 'tdb) store_ext" and view stored
proof (unfold_locales, goal_cases)
  case (1 bc a)
  then show ?case by (intro acc_look_save [of X view stored]) (simp_all add: acc_good_def)
next
  case (2 bc a)
  then have "acc_look view (fst (SaveAccountToTrie X a bc)) = (acc_look view bc)(Address a \<mapsto> a)"
    using acc_look_save [of X view stored bc a] by (simp add: acc_good_def)
  with 2 show ?case by (auto simp: acc_good_def frame_simps)
next
  case (3 bc a)
  then show ?case by (simp add: SaveAccountToTrie_Panic acc_good_def)
next
  case (4 bc k a)
  then show ?case by (auto simp: acc_good_def dest: store_trie GetAccountFromTrie_Ok)
next
  case (5 bc k)
  then show ?case by (simp add: GetAccountFromTrie_Panic acc_good_def)
next
  case (6 bc k a)
  then show ?case by (simp add: acc_good_def)
qed

end
