(* ===== verification/Transactions.thy ===== *)
theory Transactions
  imports Accounts
begin

text \<open>
  The transaction store of tx.go and the operations that look a transaction up or create one:
  \<open>SaveTransactionToTrie\<close>, \<open>GetTransactionFromTrie\<close>, \<open>IsTransactionExist\<close>,
  \<open>GetTransactionByID\<close>, \<open>GetTransactionByIDFromNode\<close>, \<open>CreateAndAddTransaction\<close>. The
  transaction trie is an instance of the contract \<open>kv_store\<close>, keyed by the bytes of the ID.
\<close>

section \<open>The transaction trie\<close>

definition SaveTransactionToTrie ::
    "('db, 'tr, 'nd, 'tdb) store_ext \<Rightarrow> Transaction \<Rightarrow> ('db, 'tr) Blockchain
      \<Rightarrow> ('db, 'tr) Blockchain \<times> unit outcome" where
  "SaveTransactionToTrie X tx bc =
     (case txTrie bc of
        None \<Rightarrow> (bc, Panic)
      | Some t \<Rightarrow>
          let t1 = trie_Update X (db bc) t (elems (ID tx)) (marshal_Transaction tx) in
          case commit_nodes X (db bc) t1 of
            (d, t2, Inl e) \<Rightarrow> (bc\<lparr>db := d, txTrie := Some t2\<rparr>, Err e)
          | (d, t2, Inr rootHash) \<Rightarrow>
              (case db_Put X d TX_ROOT_HASH rootHash of
                 Inl e \<Rightarrow> (bc\<lparr>db := d, txTrie := Some t2\<rparr>, Err (Wrap MsgPut e))
               | Inr d' \<Rightarrow>
                   (case RestoreTrieFromRootHash X d' rootHash of
                      Inl e \<Rightarrow> (bc\<lparr>db := d', txTrie := Some t2\<rparr>, Err (Wrap MsgTrieRestore e))
                    | Inr newTrie \<Rightarrow> (bc\<lparr>db := d', txTrie := Some newTrie\<rparr>, Ok ()))))"

definition GetTransactionFromTrie ::
    "('db, 'tr, 'nd, 'tdb) store_ext \<Rightarrow> char slice \<Rightarrow> ('db, 'tr) Blockchain \<Rightarrow> Transaction outcome" where
  "GetTransactionFromTrie X txID bc =
     (case txTrie bc of
        None \<Rightarrow> Err (Fail MsgNilTrie)
      | Some t \<Rightarrow>
          (case txID of
             None \<Rightarrow> Err (Fail MsgNilID)
           | Some k \<Rightarrow>
               (case trie_Get X (db bc) t k of
                  Inl e \<Rightarrow> Err (Wrap MsgGet e)
                | Inr None \<Rightarrow> Err (Fail (MsgTransactionNotFound k))
                | Inr (Some value) \<Rightarrow>
                    (case unmarshal_Transaction value of
                       None \<Rightarrow> Err (Wrap MsgDecode JsonError)
                     | Some tx \<Rightarrow> Ok tx))))"

definition IsTransactionExist ::
    "('db, 'tr, 'nd, 'tdb) store_ext \<Rightarrow> char slice \<Rightarrow> ('db, 'tr) Blockchain \<Rightarrow> bool outcome" where
  "IsTransactionExist X txID bc =
     (case txTrie bc of
        None \<Rightarrow> Err (Fail MsgNilTrie)
      | Some t \<Rightarrow>
          (case txID of
             None \<Rightarrow> Err (Fail MsgNilID)
           | Some k \<Rightarrow>
               (case trie_Get X (db bc) t k of
                  Inl e \<Rightarrow> Err (Wrap MsgExists e)
                | Inr value \<Rightarrow> Ok (value \<noteq> None))))"

section \<open>Lookup by ID\<close>

text \<open>
  What the select of \<open>GetTransactionByID\<close> receives from the goroutine that asks the
  network: a transaction (a pointer, that may be nil), an error, or the ten-second timeout.
\<close>

datatype p2p_outcome =
    P2PResponse "Transaction option"
  | P2PError error
  | P2PTimeout

definition GetTransactionByID ::
    "('db, 'tr, 'nd, 'tdb) store_ext \<Rightarrow> ('sk, 'pk) crypto_ext \<Rightarrow> p2p_outcome \<Rightarrow> string
      \<Rightarrow> ('db, 'tr) Blockchain \<Rightarrow> Transaction option outcome" where
  "GetTransactionByID X C net txID bc =
     (case bcMempool bc of
        None \<Rightarrow> Panic
      | Some mp \<Rightarrow>
          (case GetTransaction txID mp of
             Ok tx \<Rightarrow> Ok (Some tx)
           | Panic \<Rightarrow> Panic
           | Err _ \<Rightarrow>
               (case hex_Decode C txID of
                  Inl e \<Rightarrow> Err (Wrap MsgEmptyID e)
                | Inr txIDBytes \<Rightarrow>
                    (case GetTransactionFromTrie X (Some txIDBytes) bc of
                       Ok tx \<Rightarrow> Ok (Some tx)
                     | Panic \<Rightarrow> Panic
                     | Err _ \<Rightarrow>
                         if bcP2P bc then
                           (case net of
                              P2PResponse tx \<Rightarrow> Ok tx
                            | P2PError _ \<Rightarrow> Ok None
                            | P2PTimeout \<Rightarrow> Err (Fail MsgP2PTimeout))
                         else Err (Fail (MsgTransactionIDNotFound txID))))))"

definition GetTransactionByIDFromNode ::
    "('db, 'tr, 'nd, 'tdb) store_ext \<Rightarrow> ('sk, 'pk) crypto_ext \<Rightarrow> string
      \<Rightarrow> ('db, 'tr) Blockchain \<Rightarrow> Transaction outcome" where
  "GetTransactionByIDFromNode X C txID bc =
     (case bcMempool bc of
        None \<Rightarrow> Panic
      | Some mp \<Rightarrow>
          (case GetTransaction txID mp of
             Ok tx \<Rightarrow> Ok tx
           | Panic \<Rightarrow> Panic
           | Err _ \<Rightarrow>
               (case hex_Decode C txID of
                  Inl e \<Rightarrow> Err (Wrap MsgEmptyID e)
                | Inr txIDBytes \<Rightarrow>
                    (case GetTransactionFromTrie X (Some txIDBytes) bc of
                       Ok tx \<Rightarrow> Ok tx
                     | Panic \<Rightarrow> Panic
                     | Err _ \<Rightarrow> Err (Fail (MsgTransactionIDNotFound txID))))))"

section \<open>Creating a transaction\<close>

text \<open>
  The new state, the transactions handed to \<open>BroadcastTransaction\<close> (its error is only
  logged), and the result.
\<close>

definition CreateAndAddTransaction ::
    "('db, 'tr, 'nd, 'tdb) store_ext \<Rightarrow> ('sk, 'pk) crypto_ext \<Rightarrow> (rat \<Rightarrow> uint64) \<Rightarrow> uint64
      \<Rightarrow> string \<Rightarrow> string \<Rightarrow> rat \<Rightarrow> string \<Rightarrow> ('db, 'tr) Blockchain
      \<Rightarrow> ('db, 'tr) Blockchain \<times> Transaction list \<times> Transaction outcome" where
  "CreateAndAddTransaction X C oob now from to amount privateKeyHex bc =
     (case NewTransaction C oob now from to amount privateKeyHex of
        Err e \<Rightarrow> (bc, [], Err (Wrap MsgNewTransaction e))
      | Panic \<Rightarrow> (bc, [], Panic)
      | Ok tx \<Rightarrow>
          (case GetAccountFromTrie X from bc of
             Err e \<Rightarrow> (bc, [], Err (Wrap MsgSender e))
           | Panic \<Rightarrow> (bc, [], Panic)
           | Ok fromAccount \<Rightarrow>
               (case VerifyTransactionSignature C tx (PublicKey fromAccount) of
                  Err e \<Rightarrow> (bc, [], Err (Wrap MsgVerify e))
                | Panic \<Rightarrow> (bc, [], Panic)
                | Ok isValid \<Rightarrow>
                    if \<not> isValid then (bc, [], Err (Fail MsgInvalidSignature))
                    else case bcMempool bc of
                      None \<Rightarrow> (bc, [], Panic)
                    | Some mp \<Rightarrow>
                        (case AddTransaction C tx mp of
                           (_, Err e) \<Rightarrow> (bc, [], Err (Wrap MsgMempool e))
                         | (_, Panic) \<Rightarrow> (bc, [], Panic)
                         | (mp', Ok _) \<Rightarrow>
                             let bc' = bc\<lparr>bcMempool := Some mp'\<rparr> in
                             (case PrintMempool mp' of
                                Ok _ \<Rightarrow> (bc', if bcP2P bc then [tx] else [], Ok tx)
                              | Err e \<Rightarrow> (bc', [], Err e)
                              | Panic \<Rightarrow> (bc', [], Panic))))))"

definition GetMempoolTransactions ::
    "string list \<Rightarrow> ('db, 'tr) Blockchain \<Rightarrow> Transaction list outcome" where
  "GetMempoolTransactions ks bc =
     (case bcMempool bc of None \<Rightarrow> Panic | Some mp \<Rightarrow> Ok (GetAllTransactions ks mp))"

definition GetMempoolSize :: "('db, 'tr) Blockchain \<Rightarrow> nat outcome" where
  "GetMempoolSize bc = (case bcMempool bc of None \<Rightarrow> Panic | Some mp \<Rightarrow> Ok (GetSize mp))"

section \<open>The map behind the trie\<close>

definition tx_look :: "('tr \<Rightarrow> bytes \<Rightarrow> bytes option) \<Rightarrow> ('db, 'tr) Blockchain \<Rightarrow> bytes \<Rightarrow> Transaction option" where
  "tx_look view bc k =
     (case txTrie bc of None \<Rightarrow> None | Some t \<Rightarrow> Option.bind (view t k) unmarshal_Transaction)"

definition tx_good ::
    "('db, 'tr, 'nd, 'tdb) store_ext \<Rightarrow> ('tr \<Rightarrow> bytes \<Rightarrow> bytes option)
      \<Rightarrow> ('db \<Rightarrow> bytes \<Rightarrow> (bytes \<Rightarrow> bytes option) \<Rightarrow> bool) \<Rightarrow> ('db, 'tr) Blockchain \<Rightarrow> bool" where
  "tx_good X view stored bc \<longleftrightarrow> store_laws X view stored \<and> txTrie bc \<noteq> None
     \<and> (\<forall>k tx. tx_look view bc k = Some tx \<longrightarrow> elems (ID tx) = k \<and> san_Transaction tx = tx)
     \<and> (\<forall>t k v. txTrie bc = Some t \<longrightarrow> view t k = Some v \<longrightarrow> unmarshal_Transaction v \<noteq> None)"

lemma SaveTransactionToTrie_view:
  assumes laws: "store_laws X view stored" and t: "txTrie bc = Some t"
  shows "\<exists>t'. txTrie (fst (SaveTransactionToTrie X tx bc)) = Some t'
      \<and> view t' = (view t)(elems (ID tx) \<mapsto> marshal_Transaction tx)"
proof -
  let ?t1 = "trie_Update X (db bc) t (elems (ID tx)) (marshal_Transaction tx)"
  have t1: "view ?t1 = (view t)(elems (ID tx) \<mapsto> marshal_Transaction tx)"
    by (simp add: law_update [OF store_trie [OF laws]])
  obtain d t2 r where c: "commit_nodes X (db bc) ?t1 = (d, t2, r)"
    by (cases "commit_nodes X (db bc) ?t1")
  have t2: "view t2 = view ?t1" by (rule commit_nodes_view [OF store_trie [OF laws] c])
  have t3: "view t3 = view ?t1"
    if "r = Inr rh" "db_Put X d TX_ROOT_HASH rh = Inr d'" "RestoreTrieFromRootHash X d' rh = Inr t3"
    for rh d' t3
  proof -
    have "stored d rh (view ?t1)" using commit_nodes_stored [OF store_node [OF laws]] c that(1) by simp
    then have "stored d' rh (view ?t1)" using law_put_stored [OF store_node [OF laws] that(2)] by simp
    then show ?thesis by (rule restore_view [OF store_node [OF laws] _ that(3)])
  qed
  from t c t1 t2 t3 show ?thesis
    by (auto simp: SaveTransactionToTrie_def Let_def split: sum.splits)
qed

lemma tx_look_save:
  assumes "store_laws X view stored" "txTrie bc \<noteq> None"
  shows "tx_look view (fst (SaveTransactionToTrie X tx bc))
      = (tx_look view bc)(elems (ID tx) \<mapsto> san_Transaction tx)"
proof -
  obtain t where t: "txTrie bc = Some t" using assms(2) by auto
  from SaveTransactionToTrie_view [OF assms(1) t, of tx] obtain t' where
    "txTrie (fst (SaveTransactionToTrie X tx bc)) = Some t'"
    "view t' = (view t)(elems (ID tx) \<mapsto> marshal_Transaction tx)" by blast
  with t show ?thesis by (auto simp: tx_look_def codec_simps fun_eq_iff)
qed

lemma SaveTransactionToTrie_frame [frame_simps]:
  "tr (fst (SaveTransactionToTrie X a bc)) = tr bc"
  "accTrie (fst (SaveTransactionToTrie X a bc)) = accTrie bc"
  "bcConfig (fst (SaveTransactionToTrie X a bc)) = bcConfig bc"
  "bcMempool (fst (SaveTransactionToTrie X a bc)) = bcMempool bc"
  "bcP2P (fst (SaveTransactionToTrie X a bc)) = bcP2P bc"
  "(txTrie (fst (SaveTransactionToTrie X a bc)) = None) = (txTrie bc = None)"
  by (auto simp: SaveTransactionToTrie_def Let_def split: option.splits prod.splits sum.splits)

lemma SaveTransactionToTrie_Panic: "snd (SaveTransactionToTrie X a bc) = Panic \<longleftrightarrow> txTrie bc = None"
  by (auto simp: SaveTransactionToTrie_def Let_def split: option.splits prod.splits sum.splits)

lemma SaveTransactionToTrie_keys:
  assumes "key_laws X" "k \<in> set db_keys" "k \<noteq> TX_ROOT_HASH"
  shows "db_Get X (db (fst (SaveTransactionToTrie X a bc))) k = db_Get X (db bc) k"
  using assms commit_nodes_keys [OF assms(1)] law_put_other [OF assms(1)]
  by (auto simp: SaveTransactionToTrie_def Let_def split: option.splits prod.splits sum.splits)

lemma GetTransactionFromTrie_Ok:
  assumes "trie_laws X view" "GetTransactionFromTrie X (Some k) bc = Ok tx"
  shows "tx_look view bc k = Some tx"
  using assms law_get [OF assms(1)]
  by (auto simp: GetTransactionFromTrie_def tx_look_def split: option.splits sum.splits)

lemma GetTransactionFromTrie_no_Panic [simp]: "GetTransactionFromTrie X k bc \<noteq> Panic"
  by (auto simp: GetTransactionFromTrie_def split: option.splits sum.splits)

lemma IsTransactionExist_no_Panic [simp]: "IsTransactionExist X k bc \<noteq> Panic"
  by (auto simp: IsTransactionExist_def split: option.splits sum.splits)

text \<open>\<open>IsTransactionExist\<close> answers whether the map has an entry.\<close>

lemma IsTransactionExist_Ok:
  assumes "tx_good X view stored bc" "IsTransactionExist X (Some k) bc = Ok b"
  shows "b \<longleftrightarrow> tx_look view bc k \<noteq> None"
proof -
  from assms(1) obtain t where t: "txTrie bc = Some t" and laws: "trie_laws X view"
    and dec: "\<And>v. view t k = Some v \<Longrightarrow> unmarshal_Transaction v \<noteq> None"
    by (auto simp: tx_good_def store_trie)
  from t assms(2) obtain v where "trie_Get X (db bc) t k = Inr v" "b = (v \<noteq> None)"
    by (auto simp: IsTransactionExist_def split: sum.splits)
  with law_get [OF laws] have "b \<longleftrightarrow> view t k \<noteq> None" by simp
  with t dec show ?thesis by (cases "view t k") (simp_all add: tx_look_def)
qed

lemma IsTransactionExist_nil: "IsTransactionExist X None bc \<noteq> Ok b"
  by (simp add: IsTransactionExist_def split: option.splits)

lemma tx_good_save:
  assumes "tx_good X view stored bc"
  shows "tx_good X view stored (fst (SaveTransactionToTrie X tx bc))"
proof -
  from assms have laws: "store_laws X view stored" and n: "txTrie bc \<noteq> None"
    by (simp_all add: tx_good_def)
  then obtain t where t: "txTrie bc = Some t" by auto
  from SaveTransactionToTrie_view [OF laws t, of tx] obtain t' where t':
    "txTrie (fst (SaveTransactionToTrie X tx bc)) = Some t'"
    "view t' = (view t)(elems (ID tx) \<mapsto> marshal_Transaction tx)" by blast
  show ?thesis
    using assms t t' tx_look_save [OF laws n, of tx] by (auto simp: tx_good_def codec_simps)
qed

text \<open>Where no call fails, a write succeeds and the test answers.\<close>

lemma SaveTransactionToTrie_reliable:
  assumes "reliable X stored" "store_laws X view stored" "txTrie bc \<noteq> None"
  shows "snd (SaveTransactionToTrie X tx bc) = Ok ()"
proof -
  obtain t where t: "txTrie bc = Some t" using assms(3) by auto
  let ?t1 = "trie_Update X (db bc) t (elems (ID tx)) (marshal_Transaction tx)"
  obtain d t2 r where c: "commit_nodes X (db bc) ?t1 = (d, t2, Inr r)"
    using commit_nodes_reliable [OF assms(1)] by blast
  obtain d' where p: "db_Put X d TX_ROOT_HASH r = Inr d'"
    using rel_put [OF assms(1)] db_keys_member by blast
  have "stored d' r (view ?t1)"
    using commit_nodes_stored [OF store_node [OF assms(2)] c] law_put_stored [OF store_node [OF assms(2)] p]
    by simp
  then obtain t' where "RestoreTrieFromRootHash X d' r = Inr t'"
    using restore_reliable [OF assms(1)] by blast
  with t c p show ?thesis by (simp add: SaveTransactionToTrie_def)
qed

lemma IsTransactionExist_reliable:
  assumes "reliable X stored" "tx_good X view stored bc"
  shows "IsTransactionExist X (Some k) bc = Ok (tx_look view bc k \<noteq> None)"
proof -
  obtain t where "txTrie bc = Some t" using assms(2) by (auto simp: tx_good_def)
  then have "\<exists>b. IsTransactionExist X (Some k) bc = Ok b"
    using rel_get [OF assms(1), of "db bc" t k] by (auto simp: IsTransactionExist_def)
  with IsTransactionExist_Ok [OF assms(2)] show ?thesis by auto
qed

interpretation txs: kv_store
  "tx_good X view stored" "tx_look view" "SaveTransactionToTrie X"
  "\<lambda>k. GetTransactionFromTrie X (Some k)" "\<lambda>tx. elems (ID tx)" san_Transaction
  for X :: "('db, 'tr, 'nd, 'tdb) store_ext" and view stored
proof (unfold_locales, goal_cases)
  case (1 bc tx)
  then show ?case by (intro tx_look_save [of X view stored]) (simp_all add: tx_good_def)
next
  case (2 bc tx)
  then show ?case by (simp add: tx_good_save)
next
  case (3 bc tx)
  then show ?case by (simp add: SaveTransactionToTrie_Panic tx_good_def)
next
  case (4 bc k tx)
  then show ?case by (auto simp: tx_good_def dest: store_trie GetTransactionFromTrie_Ok)
next
  case (5 bc k)
  then show ?case by simp
next
  case (6 bc k tx)
  then show ?case by (simp add: tx_good_def)
qed

text \<open>Neither store touches the other's map.\<close>

lemma acc_look_cong: "accTrie bc = accTrie bc' \<Longrightarrow> acc_look view bc = acc_look view bc'"
  by (simp add: acc_look_def fun_eq_iff)

lemma tx_look_cong: "txTrie bc = txTrie bc' \<Longrightarrow> tx_look view bc = tx_look view bc'"
  by (simp add: tx_look_def fun_eq_iff)

lemma acc_good_cong: "accTrie bc = accTrie bc' \<Longrightarrow> acc_good X view stored bc = acc_good X view stored bc'"
  using acc_look_cong [of bc bc' view] by (simp add: acc_good_def)

lemma tx_good_cong: "txTrie bc = txTrie bc' \<Longrightarrow> tx_good X view stored bc = tx_good X view stored bc'"
  using tx_look_cong [of bc bc' view] by (simp add: tx_good_def)

lemma cross_frames [frame_simps]:
  "acc_look view (fst (SaveTransactionToTrie X tx bc)) = acc_look view bc"
  "tx_look view (fst (SaveAccountToTrie X a bc)) = tx_look view bc"
  "acc_good X view stored (fst (SaveTransactionToTrie X tx bc)) = acc_good X view stored bc"
  "tx_good X view stored (fst (SaveAccountToTrie X a bc)) = tx_good X view stored bc"
  by (rule acc_look_cong tx_look_cong acc_good_cong tx_good_cong; simp add: frame_simps)+

end
