(* ===== verification/Processing.thy ===== *)
theory Processing
  imports Transactions
begin

text \<open>
  Executing transactions (the second half of tx.go): the loop bodies and the loops of
  \<open>ProcessMempoolTransactions\<close> and \<open>ProcessTransactionsByIDs\<close>. The theorems are about
  money: \<open>total_balance\<close> is the sum of all balances, a transfer between two accounts keeps
  it, a transfer from an account to itself raises it; and about replay: a transaction
  whose ID is recorded is never executed again.
\<close>

section \<open>One transaction\<close>

definition drop_tx :: "string \<Rightarrow> ('db, 'tr) Blockchain \<Rightarrow> ('db, 'tr) Blockchain" where
  "drop_tx txID bc = bc\<lparr>bcMempool := map_option (RemoveTransaction txID) (bcMempool bc)\<rparr>"

text \<open>
  The part both loop bodies share once the balance has been checked: debit, credit, nonce, and
  the three writes. The two accounts are two values even when the addresses are equal, since
  each was decoded on its own.
\<close>

datatype settlement =
    Settled
  | SenderFailed error
  | ReceiverFailed error
  | RecordFailed error
  | SettleCrashed

definition settle ::
    "('db, 'tr, 'nd, 'tdb) store_ext \<Rightarrow> Transaction \<Rightarrow> Account \<Rightarrow> Account
      \<Rightarrow> ('db, 'tr) Blockchain \<Rightarrow> ('db, 'tr) Blockchain \<times> settlement" where
  "settle X tx fromAcc toAcc bc =
     (let fromAcc1 = fromAcc\<lparr>Balance := Balance fromAcc - Amount tx\<rparr>;
          toAcc1 = toAcc\<lparr>Balance := Balance toAcc + Amount tx\<rparr>;
          fromAcc2 = IncrementNonce fromAcc1
      in case SaveAccountToTrie X fromAcc2 bc of
           (bc1, Panic) \<Rightarrow> (bc1, SettleCrashed)
         | (bc1, Err e) \<Rightarrow> (bc1, SenderFailed e)
         | (bc1, Ok _) \<Rightarrow>
             (case SaveAccountToTrie X toAcc1 bc1 of
                (bc2, Panic) \<Rightarrow> (bc2, SettleCrashed)
              | (bc2, Err e) \<Rightarrow> (bc2, ReceiverFailed e)
              | (bc2, Ok _) \<Rightarrow>
                  (case SaveTransactionToTrie X tx bc2 of
                     (bc3, Panic) \<Rightarrow> (bc3, SettleCrashed)
                   | (bc3, Err e) \<Rightarrow> (bc3, RecordFailed e)
                   | (bc3, Ok _) \<Rightarrow> (bc3, Settled))))"

text \<open>
  How a loop body ends: the loop goes on (\<open>Skipped\<close> is its \<open>continue\<close>), the
  function returns an error, or it panics.
\<close>

datatype step = Skipped | Done | Stopped error | Crashed

definition process_tx ::
    "('db, 'tr, 'nd, 'tdb) store_ext \<Rightarrow> ('sk, 'pk) crypto_ext \<Rightarrow> Transaction
      \<Rightarrow> ('db, 'tr) Blockchain \<Rightarrow> ('db, 'tr) Blockchain \<times> step" where
  "process_tx X C tx bc =
     (let txID = tx_key C tx in
      case IsTransactionExist X (ID tx) bc of
        Err e \<Rightarrow> (bc, Stopped (Wrap MsgExists e))
      | Panic \<Rightarrow> (bc, Crashed)
      | Ok exists \<Rightarrow>
          if exists then (bc, Skipped)
          else case GetAccountFromTrie X (From tx) bc of
            Err e \<Rightarrow> (drop_tx txID bc, Stopped (Wrap MsgSender e))
          | Panic \<Rightarrow> (bc, Crashed)
          | Ok fromAcc \<Rightarrow>
              (case GetAccountFromTrie X (To tx) bc of
                 Err e \<Rightarrow> (drop_tx txID bc, Stopped (Wrap MsgReceiver e))
               | Panic \<Rightarrow> (bc, Crashed)
               | Ok toAcc \<Rightarrow>
                   if Balance fromAcc < Amount tx then (drop_tx txID bc, Skipped)
                   else case settle X tx fromAcc toAcc bc of
                     (bc', SenderFailed e) \<Rightarrow> (drop_tx txID bc', Stopped (Wrap MsgSaveSender e))
                   | (bc', ReceiverFailed e) \<Rightarrow> (drop_tx txID bc', Stopped (Wrap MsgSaveReceiver e))
                   | (bc', RecordFailed e) \<Rightarrow> (drop_tx txID bc', Stopped (Wrap MsgSaveTransaction e))
                   | (bc', SettleCrashed) \<Rightarrow> (bc', Crashed)
                   | (bc', Settled) \<Rightarrow> (drop_tx txID bc', Done)))"

text \<open>
  The body of the other loop: a transaction that is not known locally is asked for, and a
  nil pointer without an error is dereferenced; the failures of the last two writes leave
  the mempool alone, and so does success.
\<close>

definition process_id ::
    "('db, 'tr, 'nd, 'tdb) store_ext \<Rightarrow> ('sk, 'pk) crypto_ext \<Rightarrow> p2p_outcome \<Rightarrow> string
      \<Rightarrow> ('db, 'tr) Blockchain \<Rightarrow> ('db, 'tr) Blockchain \<times> step" where
  "process_id X C net txID bc =
     (case hex_Decode C txID of
        Inl e \<Rightarrow> (bc, Stopped (Wrap MsgDecode e))
      | Inr txIDBytes \<Rightarrow>
          (case IsTransactionExist X (Some txIDBytes) bc of
             Err e \<Rightarrow> (bc, Stopped (Wrap MsgExists e))
           | Panic \<Rightarrow> (bc, Crashed)
           | Ok exists \<Rightarrow>
               if exists then (bc, Skipped)
               else case GetTransactionByID X C net txID bc of
                 Err e \<Rightarrow> (drop_tx txID bc, Stopped (Wrap MsgGet e))
               | Panic \<Rightarrow> (bc, Crashed)
               | Ok None \<Rightarrow> (bc, Crashed)
               | Ok (Some tx) \<Rightarrow>
                   (case GetAccountFromTrie X (From tx) bc of
                      Err e \<Rightarrow> (drop_tx txID bc, Stopped (Wrap MsgSender e))
                    | Panic \<Rightarrow> (bc, Crashed)
                    | Ok fromAcc \<Rightarrow>
                        (case GetAccountFromTrie X (To tx) bc of
                           Err e \<Rightarrow> (drop_tx txID bc, Stopped (Wrap MsgReceiver e))
                         | Panic \<Rightarrow> (bc, Crashed)
                         | Ok toAcc \<Rightarrow>
                             if Balance fromAcc < Amount tx then (drop_tx txID bc, Skipped)
                             else case settle X tx fromAcc toAcc bc of
                               (bc', SenderFailed e) \<Rightarrow> (drop_tx txID bc', Stopped (Wrap MsgSaveSender e))
                             | (bc', ReceiverFailed e) \<Rightarrow> (bc', Stopped (Wrap MsgSaveReceiver e))
                             | (bc', RecordFailed e) \<Rightarrow> (bc', Stopped (Wrap MsgSaveTransaction e))
                             | (bc', SettleCrashed) \<Rightarrow> (bc', Crashed)
                             | (bc', Settled) \<Rightarrow> (bc', Done)))))"

section \<open>The loops\<close>

text \<open>The IDs of the executed transactions are returned with an error too.\<close>

fun process_txs ::
    "('db, 'tr, 'nd, 'tdb) store_ext \<Rightarrow> ('sk, 'pk) crypto_ext \<Rightarrow> Transaction list \<Rightarrow> string list
      \<Rightarrow> ('db, 'tr) Blockchain \<Rightarrow> ('db, 'tr) Blockchain \<times> string list \<times> unit outcome" where
  "process_txs X C [] successfulTxs bc = (bc, successfulTxs, Ok ())"
| "process_txs X C (tx # txs) successfulTxs bc =
     (case process_tx X C tx bc of
        (bc', Skipped) \<Rightarrow> process_txs X C txs successfulTxs bc'
      | (bc', Done) \<Rightarrow> process_txs X C txs (successfulTxs @ [tx_key C tx]) bc'
      | (bc', Stopped e) \<Rightarrow> (bc', successfulTxs, Err e)
      | (bc', Crashed) \<Rightarrow> (bc', successfulTxs, Panic))"

definition ProcessMempoolTransactions ::
    "('db, 'tr, 'nd, 'tdb) store_ext \<Rightarrow> ('sk, 'pk) crypto_ext \<Rightarrow> string list
      \<Rightarrow> ('db, 'tr) Blockchain \<Rightarrow> ('db, 'tr) Blockchain \<times> string list \<times> unit outcome" where
  "ProcessMempoolTransactions X C ks bc =
     (case bcMempool bc of
        None \<Rightarrow> (bc, [], Panic)
      | Some mp \<Rightarrow> process_txs X C (GetAllTransactions ks mp) [] bc)"

text \<open>\<open>net i\<close> is what the network answers when the \<open>i\<close>-th ID has to be asked for.\<close>

fun process_ids ::
    "('db, 'tr, 'nd, 'tdb) store_ext \<Rightarrow> ('sk, 'pk) crypto_ext \<Rightarrow> (nat \<Rightarrow> p2p_outcome) \<Rightarrow> nat
      \<Rightarrow> string list \<Rightarrow> ('db, 'tr) Blockchain \<Rightarrow> ('db, 'tr) Blockchain \<times> unit outcome" where
  "process_ids X C net i [] bc = (bc, Ok ())"
| "process_ids X C net i (txID # txIDs) bc =
     (case process_id X C (net i) txID bc of
        (bc', Skipped) \<Rightarrow> process_ids X C net (Suc i) txIDs bc'
      | (bc', Done) \<Rightarrow> process_ids X C net (Suc i) txIDs bc'
      | (bc', Stopped e) \<Rightarrow> (bc', Err e)
      | (bc', Crashed) \<Rightarrow> (bc', Panic))"

definition ProcessTransactionsByIDs ::
    "('db, 'tr, 'nd, 'tdb) store_ext \<Rightarrow> ('sk, 'pk) crypto_ext \<Rightarrow> (nat \<Rightarrow> p2p_outcome)
      \<Rightarrow> string slice \<Rightarrow> ('db, 'tr) Blockchain \<Rightarrow> ('db, 'tr) Blockchain \<times> unit outcome" where
  "ProcessTransactionsByIDs X C net txIDs bc = process_ids X C net 0 (elems txIDs) bc"


section \<open>The state of the two stores\<close>

definition store_good ::
    "('db, 'tr, 'nd, 'tdb) store_ext \<Rightarrow> ('tr \<Rightarrow> bytes \<Rightarrow> bytes option)
      \<Rightarrow> ('db \<Rightarrow> bytes \<Rightarrow> (bytes \<Rightarrow> bytes option) \<Rightarrow> bool) \<Rightarrow> ('db, 'tr) Blockchain \<Rightarrow> bool" where
  "store_good X view stored bc \<longleftrightarrow> acc_good X view stored bc \<and> tx_good X view stored bc"

text \<open>The sum of the balances of all accounts.\<close>

definition total_balance :: "('tr \<Rightarrow> bytes \<Rightarrow> bytes option) \<Rightarrow> ('db, 'tr) Blockchain \<Rightarrow> nat" where
  "total_balance view bc =
     (\<Sum>k \<in> dom (acc_look view bc). unat (Balance (the (acc_look view bc k))))"

lemma total_balance_funds:
  "total_balance view bc = acc.funds view (dom (acc_look view bc)) bc"
  unfolding total_balance_def acc.funds_def
  by (rule sum.cong) (auto simp: acc.bal_at_def)

lemma store_goodD:
  assumes "store_good X view stored bc"
  shows "acc_good X view stored bc" "tx_good X view stored bc" "store_laws X view stored"
    "accTrie bc \<noteq> None" "txTrie bc \<noteq> None"
  using assms by (simp_all add: store_good_def acc_good_def tx_good_def)

lemma store_good_save_acc:
  "store_good X view stored bc \<Longrightarrow> san_Account a = a \<Longrightarrow> store_good X view stored (fst (SaveAccountToTrie X a bc))"
  by (simp add: store_good_def acc.good_save cross_frames)

lemma store_good_save_tx:
  "store_good X view stored bc \<Longrightarrow> store_good X view stored (fst (SaveTransactionToTrie X tx bc))"
  by (simp add: store_good_def tx_good_save cross_frames)

lemma drop_tx_frame [frame_simps, simp]:
  "db (drop_tx k bc) = db bc" "tr (drop_tx k bc) = tr bc" "txTrie (drop_tx k bc) = txTrie bc"
  "accTrie (drop_tx k bc) = accTrie bc" "bcConfig (drop_tx k bc) = bcConfig bc"
  "bcP2P (drop_tx k bc) = bcP2P bc"
  "acc_look view (drop_tx k bc) = acc_look view bc" "tx_look view (drop_tx k bc) = tx_look view bc"
  "acc_good X view stored (drop_tx k bc) = acc_good X view stored bc"
  "tx_good X view stored (drop_tx k bc) = tx_good X view stored bc"
  "store_good X view stored (drop_tx k bc) = store_good X view stored bc"
  "total_balance view (drop_tx k bc) = total_balance view bc"
proof -
  have look: "acc_look view (drop_tx k bc) = acc_look view bc" "tx_look view (drop_tx k bc) = tx_look view bc"
    by (rule acc_look_cong tx_look_cong; simp add: drop_tx_def)+
  then show "acc_look view (drop_tx k bc) = acc_look view bc" "tx_look view (drop_tx k bc) = tx_look view bc"
    "total_balance view (drop_tx k bc) = total_balance view bc"
    by (simp_all add: total_balance_def)
  have good: "acc_good X view stored (drop_tx k bc) = acc_good X view stored bc"
    "tx_good X view stored (drop_tx k bc) = tx_good X view stored bc"
    by (rule acc_good_cong tx_good_cong; simp add: drop_tx_def)+
  then show "acc_good X view stored (drop_tx k bc) = acc_good X view stored bc"
    "tx_good X view stored (drop_tx k bc) = tx_good X view stored bc"
    "store_good X view stored (drop_tx k bc) = store_good X view stored bc"
    by (simp_all add: store_good_def)
qed (simp_all add: drop_tx_def)

lemma san_Account_id: "san_Account a = a \<longleftrightarrow> to_valid (Address a) = Address a \<and> to_valid (PublicKey a) = PublicKey a"
  by (cases a) (auto simp: san_Account_def)

section \<open>What a settlement does\<close>

abbreviation debited :: "Transaction \<Rightarrow> Account \<Rightarrow> Account" where
  "debited tx a \<equiv> IncrementNonce (a\<lparr>Balance := Balance a - Amount tx\<rparr>)"

abbreviation credited :: "Transaction \<Rightarrow> Account \<Rightarrow> Account" where
  "credited tx a \<equiv> a\<lparr>Balance := Balance a + Amount tx\<rparr>"

text \<open>The states after the first, the second and the third write.\<close>

abbreviation debit_state ::
    "('db, 'tr, 'nd, 'tdb) store_ext \<Rightarrow> Transaction \<Rightarrow> Account
      \<Rightarrow> ('db, 'tr) Blockchain \<Rightarrow> ('db, 'tr) Blockchain" where
  "debit_state X tx f bc \<equiv> fst (SaveAccountToTrie X (debited tx f) bc)"

abbreviation credit_state ::
    "('db, 'tr, 'nd, 'tdb) store_ext \<Rightarrow> Transaction \<Rightarrow> Account \<Rightarrow> Account
      \<Rightarrow> ('db, 'tr) Blockchain \<Rightarrow> ('db, 'tr) Blockchain" where
  "credit_state X tx f t bc \<equiv> fst (SaveAccountToTrie X (credited tx t) (debit_state X tx f bc))"

abbreviation record_state ::
    "('db, 'tr, 'nd, 'tdb) store_ext \<Rightarrow> Transaction \<Rightarrow> Account \<Rightarrow> Account
      \<Rightarrow> ('db, 'tr) Blockchain \<Rightarrow> ('db, 'tr) Blockchain" where
  "record_state X tx f t bc \<equiv> fst (SaveTransactionToTrie X tx (credit_state X tx f t bc))"

lemma settle_cases [consumes 2]:
  assumes "settle X tx f t bc = (bc', r)" "store_good X view stored bc"
  obtains (sender) e where "r = SenderFailed e" "bc' = debit_state X tx f bc"
  | (receiver) e where "r = ReceiverFailed e" "bc' = credit_state X tx f t bc"
  | (unrecorded) e where "r = RecordFailed e" "bc' = record_state X tx f t bc"
  | (settled) "r = Settled" "bc' = record_state X tx f t bc"
  using assms SaveAccountToTrie_Panic [of X "debited tx f" bc]
    SaveAccountToTrie_Panic [of X "credited tx t" "debit_state X tx f bc"]
    SaveTransactionToTrie_Panic [of X tx "credit_state X tx f t bc"]
  by (simp add: settle_def Let_def frame_simps store_goodD split: prod.splits outcome.splits) blast+

text \<open>The states of a settlement, for accounts that have been read from the trie.\<close>

lemma settle_look:
  assumes "store_good X view stored bc"
    "acc_look view bc (From tx) = Some f" "acc_look view bc (To tx) = Some t"
  shows "acc_look view (debit_state X tx f bc) = (acc_look view bc)(From tx \<mapsto> debited tx f)"
    "acc_look view (credit_state X tx f t bc)
       = (acc_look view bc)(From tx \<mapsto> debited tx f, To tx \<mapsto> credited tx t)"
    "acc_look view (record_state X tx f t bc) = acc_look view (credit_state X tx f t bc)"
    "tx_look view (debit_state X tx f bc) = tx_look view bc"
    "tx_look view (credit_state X tx f t bc) = tx_look view bc"
    "tx_look view (record_state X tx f t bc)
       = (tx_look view bc)(elems (ID tx) \<mapsto> san_Transaction tx)"
    "store_good X view stored (debit_state X tx f bc)"
    "store_good X view stored (credit_state X tx f t bc)"
    "store_good X view stored (record_state X tx f t bc)"
proof -
  note good = store_goodD [OF assms(1)]
  from assms good have "Address f = From tx" "san_Account f = f" "Address t = To tx" "san_Account t = t"
    by (auto simp: acc_good_def)
  then have san: "san_Account (debited tx f) = debited tx f" "san_Account (credited tx t) = credited tx t"
    and adr: "Address (debited tx f) = From tx" "Address (credited tx t) = To tx"
    unfolding san_Account_id by (simp_all add: IncrementNonce_def)
  show 1: "store_good X view stored (debit_state X tx f bc)"
    by (rule store_good_save_acc [OF assms(1) san(1)])
  show 2: "store_good X view stored (credit_state X tx f t bc)"
    by (rule store_good_save_acc [OF 1 san(2)])
  show "store_good X view stored (record_state X tx f t bc)"
    by (rule store_good_save_tx [OF 2])
  show look1: "acc_look view (debit_state X tx f bc) = (acc_look view bc)(From tx \<mapsto> debited tx f)"
    using acc.look_save [OF good(1), of "debited tx f"] san adr by simp
  show "acc_look view (credit_state X tx f t bc)
      = (acc_look view bc)(From tx \<mapsto> debited tx f, To tx \<mapsto> credited tx t)"
    using acc.look_save [OF store_goodD(1) [OF 1], of "credited tx t"] san adr look1 by simp
  show "tx_look view (record_state X tx f t bc)
      = (tx_look view bc)(elems (ID tx) \<mapsto> san_Transaction tx)"
    using txs.look_save [OF store_goodD(2) [OF 2], of tx] by (simp add: cross_frames)
qed (simp_all add: cross_frames)


text \<open>The total after each write, for a transfer between two accounts.\<close>

lemma total_balance_same_dom:
  assumes "dom (acc_look view bc') = dom (acc_look view bc)"
  shows "total_balance view bc' = acc.funds view (dom (acc_look view bc)) bc'"
  by (simp add: total_balance_funds assms)

lemma settle_dom:
  assumes "store_good X view stored bc"
    "acc_look view bc (From tx) = Some f" "acc_look view bc (To tx) = Some t"
  shows "dom (acc_look view (debit_state X tx f bc)) = dom (acc_look view bc)"
    "dom (acc_look view (credit_state X tx f t bc)) = dom (acc_look view bc)"
    "dom (acc_look view (record_state X tx f t bc)) = dom (acc_look view bc)"
  using assms(2,3) by (auto simp: settle_look [OF assms])

lemma total_balance_upd:
  assumes "finite (dom m)" "m k = Some a"
  shows "(\<Sum>j \<in> dom m. unat (Balance (the ((m(k \<mapsto> b)) j)))) + unat (Balance a)
    = (\<Sum>j \<in> dom m. unat (Balance (the (m j)))) + unat (Balance b)"
  using sum_update_one [of "dom m" k "\<lambda>j. unat (Balance (the ((m(k \<mapsto> b)) j)))"
      "\<lambda>j. unat (Balance (the (m j)))"] assms
  by (simp add: domI)

lemma balances_le_total:
  assumes "finite (dom (acc_look view bc))"
    "acc_look view bc a = Some x" "acc_look view bc b = Some y" "a \<noteq> b"
  shows "unat (Balance x) + unat (Balance y) \<le> total_balance view bc"
  using member_le_sum_two [of "dom (acc_look view bc)" a b "\<lambda>k. unat (Balance (the (acc_look view bc k)))"] assms
  by (simp add: total_balance_def domI)

lemma settle_total:
  assumes good: "store_good X view stored bc"
    and f: "acc_look view bc (From tx) = Some f" and t: "acc_look view bc (To tx) = Some t"
    and ne: "From tx \<noteq> To tx" and le: "Amount tx \<le> Balance f"
    and fin: "finite (dom (acc_look view bc))" and small: "total_balance view bc < 2 ^ 64"
  shows "total_balance view (debit_state X tx f bc) + unat (Amount tx) = total_balance view bc"
    "total_balance view (credit_state X tx f t bc) = total_balance view bc"
    "total_balance view (record_state X tx f t bc) = total_balance view bc"
proof -
  let ?A = "dom (acc_look view bc)"
  note gd = store_goodD [OF good] and lk = settle_look [OF good f t] and dm = settle_dom [OF good f t]
  have adr: "Address f = From tx" "san_Account f = f" "Address t = To tx" "san_Account t = t"
    using gd(1) f t by (auto simp: acc_good_def)
  then have san: "san_Account (debited tx f) = debited tx f" "san_Account (credited tx t) = credited tx t"
    unfolding san_Account_id by (simp_all add: IncrementNonce_def)
  have k: "Address (debited tx f) = From tx" "Address (credited tx t) = To tx"
    using adr by (simp_all add: IncrementNonce_def)
  have debit: "unat (Balance (debited tx f)) + unat (Amount tx) = unat (Balance f)"
    using le by (simp add: IncrementNonce_def unat_sub word_le_nat_alt)
  have "unat (Balance t) + unat (Amount tx) < 2 ^ 64"
    using balances_le_total [OF fin f t ne] small le by (simp add: word_le_nat_alt)
  then have credit: "unat (Balance (credited tx t)) = unat (Balance t) + unat (Amount tx)"
    by (simp add: unat_add_small)
  show "total_balance view (debit_state X tx f bc) + unat (Amount tx) = total_balance view bc"
    unfolding total_balance_same_dom [OF dm(1)] total_balance_funds [of view bc]
    by (rule acc.debit_funds [OF gd(1), where w = f]) (use f k san fin debit in auto)
  show *: "total_balance view (credit_state X tx f t bc) = total_balance view bc"
    unfolding total_balance_same_dom [OF dm(2)] total_balance_funds [of view bc]
    by (rule acc.transfer_funds [OF gd(1), where ?v0.0 = f and ?w0.0 = t])
      (use f t k san fin debit credit ne in auto)
  show "total_balance view (record_state X tx f t bc) = total_balance view bc"
    using * by (simp add: total_balance_def cross_frames)
qed


section \<open>What a loop body does\<close>

text \<open>
  Either nothing moved, or the transaction was new, both accounts were found, the sender
  could pay, and the body ended after one of the three writes.
\<close>

definition new_and_payable ::
    "('tr \<Rightarrow> bytes \<Rightarrow> bytes option) \<Rightarrow> ('db, 'tr) Blockchain \<Rightarrow> Transaction \<Rightarrow> Account \<Rightarrow> Account \<Rightarrow> bool" where
  "new_and_payable view bc tx f t \<longleftrightarrow> acc_look view bc (From tx) = Some f \<and> acc_look view bc (To tx) = Some t
     \<and> Amount tx \<le> Balance f"

lemma account_read:
  "store_good X view stored bc \<Longrightarrow> GetAccountFromTrie X k bc = Ok a \<Longrightarrow> acc_look view bc k = Some a"
  using acc.look_get store_goodD(1) by blast

lemma account_no_panic: "store_good X view stored bc \<Longrightarrow> GetAccountFromTrie X k bc \<noteq> Panic"
  by (rule acc.get_no_panic [OF store_goodD(1)])

lemma process_tx_cases [consumes 2]:
  assumes "process_tx X C tx bc = (bc', s)" "store_good X view stored bc"
  obtains (same) "bc' = bc \<or> bc' = drop_tx (tx_key C tx) bc" "s = Skipped \<or> (\<exists>e. s = Stopped e)"
  | (moved) f t k where "new_and_payable view bc tx f t" "ID tx = Some k" "tx_look view bc k = None"
      "(\<exists>e. s = Stopped e) \<and> (bc' = drop_tx (tx_key C tx) (debit_state X tx f bc)
          \<or> bc' = drop_tx (tx_key C tx) (credit_state X tx f t bc)
          \<or> bc' = drop_tx (tx_key C tx) (record_state X tx f t bc))
       \<or> s = Done \<and> bc' = drop_tx (tx_key C tx) (record_state X tx f t bc)"
proof (cases "\<exists>f t. IsTransactionExist X (ID tx) bc = Ok False \<and> GetAccountFromTrie X (From tx) bc = Ok f
    \<and> GetAccountFromTrie X (To tx) bc = Ok t \<and> Amount tx \<le> Balance f")
  case False
  with assms(1) account_no_panic [OF assms(2)] have
    "(bc' = bc \<or> bc' = drop_tx (tx_key C tx) bc) \<and> (s = Skipped \<or> (\<exists>e. s = Stopped e))"
    by (auto simp: process_tx_def Let_def not_le split: outcome.splits if_splits)
  with same show thesis by blast
next
  case True
  then obtain f t where ft: "IsTransactionExist X (ID tx) bc = Ok False"
    "GetAccountFromTrie X (From tx) bc = Ok f" "GetAccountFromTrie X (To tx) bc = Ok t"
    "Amount tx \<le> Balance f" by blast
  obtain k where k: "ID tx = Some k" using ft(1) IsTransactionExist_nil by (cases "ID tx") auto
  have none: "tx_look view bc k = None"
    using IsTransactionExist_Ok [OF store_goodD(2) [OF assms(2)], of k False] ft(1) k by simp
  have pay: "new_and_payable view bc tx f t"
    using ft account_read [OF assms(2)] by (simp add: new_and_payable_def)
  obtain b r where br: "settle X tx f t bc = (b, r)" by (cases "settle X tx f t bc")
  from assms(1) ft br have s: "(case (b, r) of
       (bc', SenderFailed e) \<Rightarrow> (drop_tx (tx_key C tx) bc', Stopped (Wrap MsgSaveSender e))
     | (bc', ReceiverFailed e) \<Rightarrow> (drop_tx (tx_key C tx) bc', Stopped (Wrap MsgSaveReceiver e))
     | (bc', RecordFailed e) \<Rightarrow> (drop_tx (tx_key C tx) bc', Stopped (Wrap MsgSaveTransaction e))
     | (bc', SettleCrashed) \<Rightarrow> (bc', Crashed)
     | (bc', Settled) \<Rightarrow> (drop_tx (tx_key C tx) bc', Done)) = (bc', s)"
    by (simp add: process_tx_def Let_def leD)
  from br assms(2) show thesis
    by (cases rule: settle_cases) (use s in \<open>auto intro: moved [OF pay k none]\<close>)
qed

lemma process_id_cases [consumes 2]:
  assumes "process_id X C net txID bc = (bc', s)" "store_good X view stored bc"
  obtains (same) "bc' = bc \<or> bc' = drop_tx txID bc" "s \<noteq> Done"
  | (moved) f t k tx where "new_and_payable view bc tx f t" "hex_Decode C txID = Inr k"
      "tx_look view bc k = None" "GetTransactionByID X C net txID bc = Ok (Some tx)"
      "(\<exists>e. s = Stopped e) \<and> (bc' = drop_tx txID (debit_state X tx f bc)
          \<or> bc' = credit_state X tx f t bc \<or> bc' = record_state X tx f t bc)
       \<or> s = Done \<and> bc' = record_state X tx f t bc"
proof (cases "\<exists>k tx f t. hex_Decode C txID = Inr k \<and> IsTransactionExist X (Some k) bc = Ok False
    \<and> GetTransactionByID X C net txID bc = Ok (Some tx) \<and> GetAccountFromTrie X (From tx) bc = Ok f
    \<and> GetAccountFromTrie X (To tx) bc = Ok t \<and> Amount tx \<le> Balance f")
  case False
  with assms(1) account_no_panic [OF assms(2)] have
    "(bc' = bc \<or> bc' = drop_tx txID bc) \<and> s \<noteq> Done"
    by (auto simp: process_id_def not_le split: outcome.splits sum.splits option.splits if_splits)
  with same show thesis by blast
next
  case True
  then obtain k tx f t where ft: "hex_Decode C txID = Inr k" "IsTransactionExist X (Some k) bc = Ok False"
    "GetTransactionByID X C net txID bc = Ok (Some tx)" "GetAccountFromTrie X (From tx) bc = Ok f"
    "GetAccountFromTrie X (To tx) bc = Ok t" "Amount tx \<le> Balance f" by blast
  have none: "tx_look view bc k = None"
    using IsTransactionExist_Ok [OF store_goodD(2) [OF assms(2)] ft(2)] by simp
  have pay: "new_and_payable view bc tx f t"
    using ft account_read [OF assms(2)] by (simp add: new_and_payable_def)
  obtain b r where br: "settle X tx f t bc = (b, r)" by (cases "settle X tx f t bc")
  from assms(1) ft br have s: "(case (b, r) of
       (bc', SenderFailed e) \<Rightarrow> (drop_tx txID bc', Stopped (Wrap MsgSaveSender e))
     | (bc', ReceiverFailed e) \<Rightarrow> (bc', Stopped (Wrap MsgSaveReceiver e))
     | (bc', RecordFailed e) \<Rightarrow> (bc', Stopped (Wrap MsgSaveTransaction e))
     | (bc', SettleCrashed) \<Rightarrow> (bc', Crashed)
     | (bc', Settled) \<Rightarrow> (bc', Done)) = (bc', s)"
    by (simp add: process_id_def leD)
  from br assms(2) show thesis
    by (cases rule: settle_cases) (use s in \<open>auto intro: moved [OF pay ft(1) none ft(3)]\<close>)
qed


text \<open>
  What holds before and is kept by every body holds after the loop; where the loop returns
  without an error, only bodies that ended well have to keep it.
\<close>

lemma process_txs_inv:
  assumes "process_txs X C txs ids bc = (bc', ids', r)" "P bc"
    and "\<And>tx b b' s. tx \<in> set txs \<Longrightarrow> P b \<Longrightarrow> process_tx X C tx b = (b', s)
      \<Longrightarrow> (r = Ok () \<longrightarrow> s = Skipped \<or> s = Done) \<Longrightarrow> P b'"
  shows "P bc'"
  using assms
proof (induction txs arbitrary: ids bc)
  case (Cons tx txs)
  obtain b s where b: "process_tx X C tx bc = (b, s)" by (cases "process_tx X C tx bc")
  then have "r = Ok () \<longrightarrow> s = Skipped \<or> s = Done" using Cons.prems(1) by (cases s) auto
  then have P: "P b" using Cons.prems(3) [OF _ Cons.prems(2) b] by simp
  have "P bc'" if "process_txs X C txs ids2 b = (bc', ids', r)" for ids2
    using Cons.IH [OF that P] Cons.prems(3) by (metis list.set_intros(2))
  then show ?case using Cons.prems(1) b P by (cases s) auto
qed simp

lemma process_ids_inv:
  assumes "process_ids X C net i ids bc = (bc', r)" "P bc"
    and "\<And>txID j b b' s. txID \<in> set ids \<Longrightarrow> P b \<Longrightarrow> process_id X C (net j) txID b = (b', s)
      \<Longrightarrow> (r = Ok () \<longrightarrow> s = Skipped \<or> s = Done) \<Longrightarrow> P b'"
  shows "P bc'"
  using assms
proof (induction ids arbitrary: i bc)
  case (Cons txID ids)
  obtain b s where b: "process_id X C (net i) txID bc = (b, s)"
    by (cases "process_id X C (net i) txID bc")
  then have "r = Ok () \<longrightarrow> s = Skipped \<or> s = Done" using Cons.prems(1) by (cases s) auto
  then have P: "P b" using Cons.prems(3) [OF _ Cons.prems(2) b] by simp
  have "P bc'" if "process_ids X C net (Suc i) ids b = (bc', r)"
    using Cons.IH [OF that P] Cons.prems(3) by (metis list.set_intros(2))
  then show ?case using Cons.prems(1) b P by (cases s) auto
qed simp

section \<open>Money\<close>

text \<open>A state whose accounts are finitely many and whose total fits a machine word.\<close>

definition solvent ::
    "('db, 'tr, 'nd, 'tdb) store_ext \<Rightarrow> ('tr \<Rightarrow> bytes \<Rightarrow> bytes option)
      \<Rightarrow> ('db \<Rightarrow> bytes \<Rightarrow> (bytes \<Rightarrow> bytes option) \<Rightarrow> bool) \<Rightarrow> string set \<Rightarrow> nat \<Rightarrow> ('db, 'tr) Blockchain \<Rightarrow> bool" where
  "solvent X view stored A n bc \<longleftrightarrow> store_good X view stored bc \<and> finite A \<and> dom (acc_look view bc) = A
     \<and> total_balance view bc \<le> n \<and> n < 2 ^ 64"

lemma solvent_frame [simp]: "solvent X view stored A n (drop_tx k bc) = solvent X view stored A n bc"
  by (simp add: solvent_def)

text \<open>After any of the three writes of a transfer between two accounts the total has not grown.\<close>

lemma settle_solvent:
  assumes "solvent X view stored A n bc" "new_and_payable view bc tx f t" "From tx \<noteq> To tx"
  shows "solvent X view stored A n (debit_state X tx f bc)"
    "solvent X view stored A n (credit_state X tx f t bc)"
    "solvent X view stored A n (record_state X tx f t bc)"
    "total_balance view (record_state X tx f t bc) = total_balance view bc"
proof -
  from assms have h: "store_good X view stored bc" "acc_look view bc (From tx) = Some f"
    "acc_look view bc (To tx) = Some t" "Amount tx \<le> Balance f" "finite (dom (acc_look view bc))"
    "total_balance view bc < 2 ^ 64" "A = dom (acc_look view bc)" "total_balance view bc \<le> n" "n < 2 ^ 64"
    by (auto simp: solvent_def new_and_payable_def)
  note tot = settle_total [OF h(1,2,3) assms(3) h(4,5,6)] and lk = settle_look [OF h(1,2,3)]
    and dm = settle_dom [OF h(1,2,3)]
  show "solvent X view stored A n (debit_state X tx f bc)"
    using tot(1) lk(7) dm(1) h by (simp add: solvent_def)
  show "solvent X view stored A n (credit_state X tx f t bc)"
    using tot(2) lk(8) dm(2) h by (simp add: solvent_def)
  show "solvent X view stored A n (record_state X tx f t bc)"
    using tot(3) lk(9) dm(3) h by (simp add: solvent_def)
  show "total_balance view (record_state X tx f t bc) = total_balance view bc"
    by (rule tot(3))
qed

lemma process_tx_solvent:
  assumes "process_tx X C tx bc = (bc', s)" "solvent X view stored A n bc" "From tx \<noteq> To tx"
  shows "solvent X view stored A n bc'"
    "s = Skipped \<or> s = Done \<Longrightarrow> total_balance view bc' = total_balance view bc"
proof -
  have good: "store_good X view stored bc" using assms(2) by (simp add: solvent_def)
  have "solvent X view stored A n bc'
      \<and> (s = Skipped \<or> s = Done \<longrightarrow> total_balance view bc' = total_balance view bc)"
    using assms(1) good
  proof (cases rule: process_tx_cases)
    case same
    then show ?thesis using assms(2) by auto
  next
    case (moved f t k)
    from moved(4) show ?thesis
      using settle_solvent [OF assms(2) moved(1) assms(3)] by auto
  qed
  then show "solvent X view stored A n bc'"
    "s = Skipped \<or> s = Done \<Longrightarrow> total_balance view bc' = total_balance view bc" by blast+
qed

lemma process_id_solvent:
  assumes "process_id X C net txID bc = (bc', s)" "solvent X view stored A n bc"
    and "\<And>tx k. hex_Decode C txID = Inr k \<Longrightarrow> tx_look view bc k = None
      \<Longrightarrow> GetTransactionByID X C net txID bc = Ok (Some tx) \<Longrightarrow> From tx \<noteq> To tx"
  shows "solvent X view stored A n bc'"
    "s = Skipped \<or> s = Done \<Longrightarrow> total_balance view bc' = total_balance view bc"
proof -
  have good: "store_good X view stored bc" using assms(2) by (simp add: solvent_def)
  have "solvent X view stored A n bc'
      \<and> (s = Skipped \<or> s = Done \<longrightarrow> total_balance view bc' = total_balance view bc)"
    using assms(1) good
  proof (cases rule: process_id_cases)
    case same
    then show ?thesis using assms(2) by auto
  next
    case (moved f t k tx)
    from moved(5) show ?thesis
      using settle_solvent [OF assms(2) moved(1) assms(3) [OF moved(2-4)]] by auto
  qed
  then show "solvent X view stored A n bc'"
    "s = Skipped \<or> s = Done \<Longrightarrow> total_balance view bc' = total_balance view bc" by blast+
qed

end
