(* ===== verification/Blocks.thy ===== *)
theory Blocks
  imports Processing
begin

text \<open>
  The block store of chain.go: the pointers \<open>CURRENT_BLOCK\<close> and \<open>LAST_BLOCK\<close> in the
  database, the trie of blocks, and \<open>SaveBlockToTrie\<close>, the only way into them. The trie
  part is an instance of \<open>kv_store\<close>, keyed by \<open>block_<index>\<close>.
\<close>

section \<open>The pointers\<close>

definition GetLastBlock :: "('db, 'tr, 'nd, 'tdb) store_ext \<Rightarrow> ('db, 'tr) Blockchain \<Rightarrow> Block outcome" where
  "GetLastBlock X bc =
     (case db_Get X (db bc) LAST_BLOCK of
        Inl e \<Rightarrow> Err (Wrap MsgGet e)
      | Inr blockJSON \<Rightarrow>
          (case unmarshal_Block blockJSON of
             None \<Rightarrow> Err (Wrap MsgDecode JsonError)
           | Some block \<Rightarrow> Ok block))"

definition GetCurrentBlock :: "('db, 'tr, 'nd, 'tdb) store_ext \<Rightarrow> ('db, 'tr) Blockchain \<Rightarrow> Block outcome" where
  "GetCurrentBlock X bc =
     (case db_Get X (db bc) CURRENT_BLOCK of
        Inl e \<Rightarrow> Err (Wrap MsgGet e)
      | Inr blockJSON \<Rightarrow>
          (case unmarshal_Block blockJSON of
             None \<Rightarrow> Err (Wrap MsgDecode JsonError)
           | Some block \<Rightarrow> Ok block))"

definition RetrieveLastBlock :: "('db, 'tr, 'nd, 'tdb) store_ext \<Rightarrow> ('db, 'tr) Blockchain \<Rightarrow> Block outcome" where
  "RetrieveLastBlock X bc =
     (case db_Get X (db bc) LAST_BLOCK of
        Inl e \<Rightarrow> Err (Wrap MsgGet e)
      | Inr blockJSON \<Rightarrow>
          (case unmarshal_Block blockJSON of
             None \<Rightarrow> Err (Wrap MsgDecode JsonError)
           | Some block \<Rightarrow> Ok block))"

definition SaveCurrentBlock ::
    "('db, 'tr, 'nd, 'tdb) store_ext \<Rightarrow> Block \<Rightarrow> ('db, 'tr) Blockchain
      \<Rightarrow> ('db, 'tr) Blockchain \<times> unit outcome" where
  "SaveCurrentBlock X block bc =
     (case db_Put X (db bc) CURRENT_BLOCK (marshal_Block block) of
        Inl e \<Rightarrow> (bc, Err (Wrap MsgPut e))
      | Inr d \<Rightarrow> (bc\<lparr>db := d\<rparr>, Ok ()))"

definition SaveLastBlock ::
    "('db, 'tr, 'nd, 'tdb) store_ext \<Rightarrow> Block \<Rightarrow> ('db, 'tr) Blockchain
      \<Rightarrow> ('db, 'tr) Blockchain \<times> unit outcome" where
  "SaveLastBlock X block bc =
     (case db_Put X (db bc) LAST_BLOCK (marshal_Block block) of
        Inl e \<Rightarrow> (bc, Err (Wrap MsgPut e))
      | Inr d \<Rightarrow> (bc\<lparr>db := d\<rparr>, Ok ()))"

text \<open>\<open>GetGenesisBlock\<close> at the clock \<open>now\<close>.\<close>

definition GetGenesisBlock :: "uint64 \<Rightarrow> Block" where
  "GetGenesisBlock now =
     \<lparr>Header = zero_BlockHeader\<lparr>Version := 1, PreviousBlockHeader := [],
        MerkleRoot := ''0x1bc3300000000000000000000000000000000000000'', Time := now\<rparr>,
      Index = 0, Txns = None\<rparr>"

section \<open>Saving a block\<close>

text \<open>The first half of \<open>SaveBlockToTrie\<close>: the index check and the pointers.\<close>

definition move_pointers ::
    "('db, 'tr, 'nd, 'tdb) store_ext \<Rightarrow> Block \<Rightarrow> ('db, 'tr) Blockchain
      \<Rightarrow> ('db, 'tr) Blockchain \<times> unit outcome" where
  "move_pointers X block bc =
     (if Index block > 0 then
        (case GetCurrentBlock X bc of
           Err e \<Rightarrow> (bc, Err (Wrap MsgGet e))
         | Panic \<Rightarrow> (bc, Panic)
         | Ok currentBlock \<Rightarrow>
             (case GetLastBlock X bc of
                Err e \<Rightarrow> (bc, Err (Wrap MsgGet e))
              | Panic \<Rightarrow> (bc, Panic)
              | Ok lastBlock \<Rightarrow>
                  if Index block \<noteq> Index currentBlock + 1 then (bc, Err (Fail (MsgBadBlockIndex (Index block))))
                  else case SaveCurrentBlock X block bc of
                    (bc1, Err e) \<Rightarrow> (bc1, Err (Wrap MsgSaveBlock e))
                  | (bc1, Panic) \<Rightarrow> (bc1, Panic)
                  | (bc1, Ok _) \<Rightarrow>
                      if Index block > Index lastBlock then
                        (case SaveLastBlock X block bc1 of
                           (bc2, Err e) \<Rightarrow> (bc2, Err (Wrap MsgSaveBlock e))
                         | (bc2, r) \<Rightarrow> (bc2, r))
                      else (bc1, Ok ())))
      else
        (case SaveCurrentBlock X block bc of
           (bc1, Err e) \<Rightarrow> (bc1, Err (Wrap MsgSaveBlock e))
         | (bc1, Panic) \<Rightarrow> (bc1, Panic)
         | (bc1, Ok _) \<Rightarrow>
             (case SaveLastBlock X block bc1 of
                (bc2, Err e) \<Rightarrow> (bc2, Err (Wrap MsgSaveBlock e))
              | (bc2, r) \<Rightarrow> (bc2, r))))"

text \<open>The second half: the trie. Unlike the other stores it opens the new trie before it writes the root.\<close>

definition store_block ::
    "('db, 'tr, 'nd, 'tdb) store_ext \<Rightarrow> Block \<Rightarrow> ('db, 'tr) Blockchain
      \<Rightarrow> ('db, 'tr) Blockchain \<times> unit outcome" where
  "store_block X block bc =
     (case tr bc of
        None \<Rightarrow> (bc, Panic)
      | Some t \<Rightarrow>
          let t1 = trie_Update X (db bc) t (block_key (Index block)) (marshal_Block block) in
          case commit_nodes X (db bc) t1 of
            (d, t2, Inl e) \<Rightarrow> (bc\<lparr>db := d, tr := Some t2\<rparr>, Err e)
          | (d, t2, Inr rootHash) \<Rightarrow>
              (case RestoreTrieFromRootHash X d rootHash of
                 Inl e \<Rightarrow> (bc\<lparr>db := d, tr := Some t2\<rparr>, Err (Wrap MsgTrieRestore e))
               | Inr newTrie \<Rightarrow>
                   (case db_Put X d ROOT_HASH rootHash of
                      Inl e \<Rightarrow> (bc\<lparr>db := d, tr := Some newTrie\<rparr>, Err (Wrap MsgPut e))
                    | Inr d' \<Rightarrow> (bc\<lparr>db := d', tr := Some newTrie\<rparr>, Ok ()))))"

definition SaveBlockToTrie ::
    "('db, 'tr, 'nd, 'tdb) store_ext \<Rightarrow> Block \<Rightarrow> ('db, 'tr) Blockchain
      \<Rightarrow> ('db, 'tr) Blockchain \<times> unit outcome" where
  "SaveBlockToTrie X block bc =
     (case move_pointers X block bc of
        (bc1, Ok _) \<Rightarrow> store_block X block bc1
      | (bc1, r) \<Rightarrow> (bc1, r))"

definition GetBlockFromTrie ::
    "('db, 'tr, 'nd, 'tdb) store_ext \<Rightarrow> bytes \<Rightarrow> ('db, 'tr) Blockchain \<Rightarrow> Block outcome" where
  "GetBlockFromTrie X k bc =
     (case tr bc of
        None \<Rightarrow> Panic
      | Some t \<Rightarrow>
          (case trie_Get X (db bc) t k of
             Inl e \<Rightarrow> Err (Wrap MsgGet e)
           | Inr None \<Rightarrow> Err (Fail (MsgBlockNotFound k))
           | Inr (Some value) \<Rightarrow>
               (case unmarshal_Block value of
                  None \<Rightarrow> Err (Wrap MsgDecode JsonError)
                | Some block \<Rightarrow> Ok block)))"

section \<open>The map behind the trie\<close>

definition blk_look :: "('tr \<Rightarrow> bytes \<Rightarrow> bytes option) \<Rightarrow> ('db, 'tr) Blockchain \<Rightarrow> bytes \<Rightarrow> Block option" where
  "blk_look view bc k = (case tr bc of None \<Rightarrow> None | Some t \<Rightarrow> Option.bind (view t k) unmarshal_Block)"

definition blk_good ::
    "('db, 'tr, 'nd, 'tdb) store_ext \<Rightarrow> ('tr \<Rightarrow> bytes \<Rightarrow> bytes option)
      \<Rightarrow> ('db \<Rightarrow> bytes \<Rightarrow> (bytes \<Rightarrow> bytes option) \<Rightarrow> bool) \<Rightarrow> ('db, 'tr) Blockchain \<Rightarrow> bool" where
  "blk_good X view stored bc \<longleftrightarrow> store_laws X view stored \<and> tr bc \<noteq> None
     \<and> (\<forall>k b. blk_look view bc k = Some b \<longrightarrow> block_key (Index b) = k \<and> san_Block b = b)"

lemma store_block_view:
  assumes laws: "store_laws X view stored" and t: "tr bc = Some t"
  shows "\<exists>t'. tr (fst (store_block X b bc)) = Some t'
      \<and> view t' = (view t)(block_key (Index b) \<mapsto> marshal_Block b)"
proof -
  let ?t1 = "trie_Update X (db bc) t (block_key (Index b)) (marshal_Block b)"
  have t1: "view ?t1 = (view t)(block_key (Index b) \<mapsto> marshal_Block b)"
    by (simp add: law_update [OF store_trie [OF laws]])
  obtain d t2 r where c: "commit_nodes X (db bc) ?t1 = (d, t2, r)"
    by (cases "commit_nodes X (db bc) ?t1")
  have t2: "view t2 = view ?t1" by (rule commit_nodes_view [OF store_trie [OF laws] c])
  have t3: "view t3 = view ?t1" if "r = Inr rh" "RestoreTrieFromRootHash X d rh = Inr t3" for rh t3
    using commit_nodes_stored [OF store_node [OF laws]] c that restore_view [OF store_node [OF laws]]
    by blast
  from t c t1 t2 t3 show ?thesis
    by (auto simp: store_block_def Let_def split: sum.splits)
qed

lemma blk_look_store:
  assumes "store_laws X view stored" "tr bc \<noteq> None"
  shows "blk_look view (fst (store_block X b bc)) = (blk_look view bc)(block_key (Index b) \<mapsto> san_Block b)"
proof -
  obtain t where t: "tr bc = Some t" using assms(2) by auto
  from store_block_view [OF assms(1) t, of b] obtain t' where
    "tr (fst (store_block X b bc)) = Some t'"
    "view t' = (view t)(block_key (Index b) \<mapsto> marshal_Block b)" by blast
  with t show ?thesis by (auto simp: blk_look_def codec_simps fun_eq_iff)
qed

lemma store_block_frame [frame_simps]:
  "txTrie (fst (store_block X b bc)) = txTrie bc" "accTrie (fst (store_block X b bc)) = accTrie bc"
  "bcConfig (fst (store_block X b bc)) = bcConfig bc" "bcMempool (fst (store_block X b bc)) = bcMempool bc"
  "bcP2P (fst (store_block X b bc)) = bcP2P bc" "(tr (fst (store_block X b bc)) = None) = (tr bc = None)"
  by (auto simp: store_block_def Let_def split: option.splits prod.splits sum.splits)

lemma store_block_Panic: "snd (store_block X b bc) = Panic \<longleftrightarrow> tr bc = None"
  by (auto simp: store_block_def Let_def split: option.splits prod.splits sum.splits)

lemma store_block_keys:
  assumes "key_laws X" "k \<in> set db_keys" "k \<noteq> ROOT_HASH"
  shows "db_Get X (db (fst (store_block X b bc))) k = db_Get X (db bc) k"
  using assms commit_nodes_keys [OF assms(1)] law_put_other [OF assms(1)]
  by (auto simp: store_block_def Let_def split: option.splits prod.splits sum.splits)

lemma GetBlockFromTrie_Ok:
  assumes "trie_laws X view" "GetBlockFromTrie X k bc = Ok b"
  shows "blk_look view bc k = Some b"
  using assms law_get [OF assms(1)]
  by (auto simp: GetBlockFromTrie_def blk_look_def split: option.splits sum.splits)

lemma GetBlockFromTrie_Panic: "GetBlockFromTrie X k bc = Panic \<longleftrightarrow> tr bc = None"
  by (auto simp: GetBlockFromTrie_def split: option.splits sum.splits)

interpretation blks: kv_store
  "blk_good X view stored" "blk_look view" "store_block X" "GetBlockFromTrie X" "\<lambda>b. block_key (Index b)" san_Block
  for X :: "('db, 'tr, 'nd, 'tdb) store_ext" and view stored
proof (unfold_locales, goal_cases)
  case (1 bc b)
  then show ?case by (intro blk_look_store [of X view stored]) (simp_all add: blk_good_def)
next
  case (2 bc b)
  then have "blk_look view (fst (store_block X b bc)) = (blk_look view bc)(block_key (Index b) \<mapsto> b)"
    using blk_look_store [of X view stored bc b] by (simp add: blk_good_def)
  with 2 show ?case by (auto simp: blk_good_def frame_simps)
next
  case (3 bc b)
  then show ?case by (simp add: store_block_Panic blk_good_def)
next
  case (4 bc k b)
  then show ?case by (auto simp: blk_good_def dest: store_trie GetBlockFromTrie_Ok)
next
  case (5 bc k)
  then show ?case by (simp add: GetBlockFromTrie_Panic blk_good_def)
next
  case (6 bc k b)
  then show ?case by (simp add: blk_good_def)
qed

lemma blk_look_cong: "tr bc = tr bc' \<Longrightarrow> blk_look view bc = blk_look view bc'"
  by (simp add: blk_look_def fun_eq_iff)

end
