(* ===== verification/Ledger_Spec.thy ===== *)
theory Ledger_Spec
  imports Processing
begin

text \<open>
  What processing promises: a ledger is two maps, accounts and recorded transactions, and
  executing a transaction is one pure function on it. Where no storage call fails, the loop of
  \<open>ProcessMempoolTransactions\<close> refines the execution of the list, with the same
  verdict on every transaction and the same list of executed IDs.
\<close>

section \<open>The specification\<close>

record Ledger =
  accounts :: "string \<rightharpoonup> Account"
  recorded :: "bytes \<rightharpoonup> Transaction"

datatype verdict = Executed | Ignored | Rejected

definition exec :: "Transaction \<Rightarrow> Ledger \<Rightarrow> Ledger \<times> verdict" where
  "exec tx L =
     (case ID tx of
        None \<Rightarrow> (L, Rejected)
      | Some k \<Rightarrow>
          if recorded L k \<noteq> None then (L, Ignored)
          else case (accounts L (From tx), accounts L (To tx)) of
            (Some f, Some t) \<Rightarrow>
              if Balance f < Amount tx then (L, Ignored)
              else (L\<lparr>accounts := (accounts L)
                         (From tx \<mapsto> f\<lparr>Balance := Balance f - Amount tx, Nonce := Nonce f + 1\<rparr>,
                          To tx \<mapsto> t\<lparr>Balance := Balance t + Amount tx\<rparr>),
                       recorded := (recorded L)(k \<mapsto> san_Transaction tx)\<rparr>, Executed)
          | _ \<Rightarrow> (L, Rejected))"

text \<open>The list up to the first rejection, the transactions executed, and whether all went through.\<close>

fun exec_all :: "Transaction list \<Rightarrow> Ledger \<Rightarrow> Ledger \<times> Transaction list \<times> bool" where
  "exec_all [] L = (L, [], True)"
| "exec_all (tx # txs) L =
     (case exec tx L of
        (L', Executed) \<Rightarrow> (case exec_all txs L' of (L'', done, b) \<Rightarrow> (L'', tx # done, b))
      | (L', Ignored) \<Rightarrow> exec_all txs L'
      | (L', Rejected) \<Rightarrow> (L', [], False))"

section \<open>The abstraction\<close>

definition ledger_of :: "('tr \<Rightarrow> bytes \<Rightarrow> bytes option) \<Rightarrow> ('db, 'tr) Blockchain \<Rightarrow> Ledger" where
  "ledger_of view bc = \<lparr>accounts = acc_look view bc, recorded = tx_look view bc\<rparr>"

lemma ledger_of_drop [simp]: "ledger_of view (drop_tx k bc) = ledger_of view bc"
  by (simp add: ledger_of_def)

fun verdict_of :: "step \<Rightarrow> verdict option" where
  "verdict_of Done = Some Executed"
| "verdict_of Skipped = Some Ignored"
| "verdict_of (Stopped _) = Some Rejected"
| "verdict_of Crashed = None"

text \<open>A settlement that no storage call interrupts.\<close>

lemma settle_reliable:
  assumes "reliable X stored" "store_good X view stored bc"
    "acc_look view bc (From tx) = Some f" "acc_look view bc (To tx) = Some t"
  shows "settle X tx f t bc = (record_state X tx f t bc, Settled)"
proof -
  note lk = settle_look [OF assms(2-4)]
  have 1: "snd (SaveAccountToTrie X (debited tx f) bc) = Ok ()"
    by (rule SaveAccountToTrie_reliable [OF assms(1)]) (use store_goodD [OF assms(2)] in auto)
  have 2: "snd (SaveAccountToTrie X (credited tx t) (debit_state X tx f bc)) = Ok ()"
    by (rule SaveAccountToTrie_reliable [OF assms(1)]) (use store_goodD [OF lk(7)] in auto)
  have 3: "snd (SaveTransactionToTrie X tx (credit_state X tx f t bc)) = Ok ()"
    by (rule SaveTransactionToTrie_reliable [OF assms(1)]) (use store_goodD [OF lk(8)] in auto)
  from 1 2 3 show ?thesis
    by (auto simp: settle_def Let_def split: prod.splits)
qed

lemma account_read_reliable:
  assumes "reliable X stored" "store_good X view stored bc"
  shows "GetAccountFromTrie X k bc = Ok a \<longleftrightarrow> acc_look view bc k = Some a"
  by (rule GetAccountFromTrie_reliable [OF assms(1)]) (use store_goodD [OF assms(2)] in auto)

lemma account_read_cases:
  assumes "reliable X stored" "store_good X view stored bc"
  obtains a where "GetAccountFromTrie X k bc = Ok a" "acc_look view bc k = Some a"
  | e where "GetAccountFromTrie X k bc = Err e" "acc_look view bc k = None"
  using account_read_reliable [OF assms] account_no_panic [OF assms(2)]
  by (metis not_None_eq outcome.exhaust)

lemma process_tx_refines_exec:
  assumes rel: "reliable X stored" and good: "store_good X view stored bc"
    and step: "process_tx X C tx bc = (bc', s)"
  shows "store_good X view stored bc'
    \<and> (\<exists>v. exec tx (ledger_of view bc) = (ledger_of view bc', v) \<and> verdict_of s = Some v)"
proof (cases "ID tx")
  case None
  then have "\<exists>e. IsTransactionExist X (ID tx) bc = Err e"
    using IsTransactionExist_nil IsTransactionExist_no_Panic by (metis outcome.exhaust)
  with step None good show ?thesis by (auto simp: process_tx_def Let_def exec_def)
next
  case (Some k)
  note ex = IsTransactionExist_reliable [OF rel store_goodD(2) [OF good], of k]
  show ?thesis
  proof (cases "tx_look view bc k")
    case (Some old)
    with step ex \<open>ID tx = Some k\<close> good show ?thesis
      by (auto simp: process_tx_def Let_def exec_def ledger_of_def)
  next
    case none: None
    show ?thesis
    proof (rule account_read_cases [OF rel good, of "From tx"])
      fix e assume "GetAccountFromTrie X (From tx) bc = Err e" "acc_look view bc (From tx) = None"
      with step ex \<open>ID tx = Some k\<close> good none show ?thesis
        by (auto simp: process_tx_def Let_def exec_def ledger_of_def)
    next
      fix f assume f: "GetAccountFromTrie X (From tx) bc = Ok f" "acc_look view bc (From tx) = Some f"
      show ?thesis
      proof (rule account_read_cases [OF rel good, of "To tx"])
        fix e assume "GetAccountFromTrie X (To tx) bc = Err e" "acc_look view bc (To tx) = None"
        with step ex \<open>ID tx = Some k\<close> good none f show ?thesis
          by (auto simp: process_tx_def Let_def exec_def ledger_of_def)
      next
        fix t assume t: "GetAccountFromTrie X (To tx) bc = Ok t" "acc_look view bc (To tx) = Some t"
        note lk = settle_look [OF good f(2) t(2)] and st = settle_reliable [OF rel good f(2) t(2)]
        from step ex \<open>ID tx = Some k\<close> good none f t lk st show ?thesis
          by (auto simp: process_tx_def Let_def exec_def ledger_of_def IncrementNonce_def split: if_splits)
      qed
    qed
  qed
qed

lemma process_txs_refines_exec_all:
  assumes "reliable X stored" "store_good X view stored bc"
    "process_txs X C txs ids bc = (bc', ids', r)"
  shows "store_good X view stored bc'
    \<and> (\<exists>done. exec_all txs (ledger_of view bc) = (ledger_of view bc', done, r = Ok ())
        \<and> ids' = ids @ map (tx_key C) done)"
  using assms(2,3)
proof (induction txs arbitrary: bc ids)
  case (Cons tx txs)
  obtain b s where b: "process_tx X C tx bc = (b, s)" by (cases "process_tx X C tx bc")
  from process_tx_refines_exec [OF assms(1) Cons.prems(1) b] obtain v where
    v: "store_good X view stored b" "exec tx (ledger_of view bc) = (ledger_of view b, v)"
    "verdict_of s = Some v" by blast
  show ?case
  proof (cases s)
    case Done
    then have "process_txs X C txs (ids @ [tx_key C tx]) b = (bc', ids', r)" using b Cons.prems(2) by simp
    from Cons.IH [OF v(1) this] v Done show ?thesis by auto
  next
    case Skipped
    then have "process_txs X C txs ids b = (bc', ids', r)" using b Cons.prems(2) by simp
    from Cons.IH [OF v(1) this] v Skipped show ?thesis by auto
  qed (use v b Cons.prems in auto)
qed simp

end
