(* ===== verification/Demo_State.thy ===== *)
theory Demo_State
  imports Ledger_Spec
begin

text \<open>
  A small concrete node, on the reference instances of the parameters: two accounts, an empty
  transaction trie and a mempool. The theorems with hypotheses are applied to it, to show that
  the hypotheses hold together. The state is built by the operations of the model, so what it
  contains follows from their lemmas.
\<close>

definition demo_empty :: "(ref_db, ref_trie) Blockchain" where
  "demo_empty = \<lparr>db = ([], []), tr = Some [], txTrie = Some [], accTrie = Some [],
     bcConfig = zero_Config, bcMempool = Some NewMempool, bcP2P = False\<rparr>"

definition alice :: Account where
  "alice = \<lparr>Address = ''0xa'', Balance = 1000, PublicKey = ''0x04aa'', Nonce = 0\<rparr>"

definition bob :: Account where
  "bob = \<lparr>Address = ''0xb'', Balance = 50, PublicKey = ''0x04bb'', Nonce = 7\<rparr>"

definition demo_accounts :: "(ref_db, ref_trie) Blockchain" where
  "demo_accounts = fst (SaveAccountToTrie ref_store bob (fst (SaveAccountToTrie ref_store alice demo_empty)))"

definition demo_tx :: "string \<Rightarrow> string \<Rightarrow> uint64 \<Rightarrow> Transaction" where
  "demo_tx a b n = \<lparr>ID = Some ''x'', From = a, To = b, Amount = n, Timestamp = 5, TxSignature = ''s''\<rparr>"

text \<open>The node with one pending transaction.\<close>

definition demo_pending :: "Transaction \<Rightarrow> (ref_db, ref_trie) Blockchain" where
  "demo_pending tx = demo_accounts\<lparr>bcMempool := Some (fst (AddTransaction ref_crypto tx NewMempool))\<rparr>"

section \<open>What the state contains\<close>

lemma demo_hex [simp]: "hex_Decode ref_crypto ''0x78'' = Inr ''x''" "hex_Decode ref_crypto ''0x79'' = Inr ''y''"
  by (simp_all add: ref_crypto_def ref_decode_def hex_val_def Let_def char_of_def bit_0)

lemma demo_empty_good: "store_good ref_store map_of ref_stored demo_empty"
  by (auto simp: store_good_def acc_good_def tx_good_def ref_store_laws demo_empty_def acc_look_def
      tx_look_def)

lemma demo_empty_look [simp]: "acc_look map_of demo_empty = Map.empty" "tx_look map_of demo_empty = Map.empty"
  by (simp_all add: demo_empty_def acc_look_def tx_look_def fun_eq_iff)

lemma san_demo [simp]: "san_Account alice = alice" "san_Account bob = bob"
  unfolding san_Account_id by (simp_all add: alice_def bob_def to_valid_ascii ascii_def)

lemma demo_fields [simp]:
  "Address alice = ''0xa''" "Address bob = ''0xb''" "Balance alice = 1000" "Balance bob = 50"
  "Nonce alice = 0" "Nonce bob = 7"
  "ID (demo_tx a b n) = Some ''x''" "From (demo_tx a b n) = a" "To (demo_tx a b n) = b"
  "Amount (demo_tx a b n) = n"
  by (simp_all add: alice_def bob_def demo_tx_def)

lemma demo_accounts_good: "store_good ref_store map_of ref_stored demo_accounts"
  unfolding demo_accounts_def by (intro store_good_save_acc demo_empty_good san_demo)

lemma demo_accounts_look:
  "acc_look map_of demo_accounts = [''0xa'' \<mapsto> alice, ''0xb'' \<mapsto> bob]"
  "tx_look map_of demo_accounts = Map.empty"
proof -
  have 1: "acc_good ref_store map_of ref_stored demo_empty" by (rule store_goodD [OF demo_empty_good])
  have 2: "acc_good ref_store map_of ref_stored (fst (SaveAccountToTrie ref_store alice demo_empty))"
    by (rule acc.good_save [OF 1 san_demo(1)])
  show "acc_look map_of demo_accounts = [''0xa'' \<mapsto> alice, ''0xb'' \<mapsto> bob]"
    by (simp add: demo_accounts_def acc.look_save [OF 2] acc.look_save [OF 1])
  show "tx_look map_of demo_accounts = Map.empty"
    by (simp add: demo_accounts_def cross_frames)
qed

lemma demo_pending_frame [simp]:
  "acc_look map_of (demo_pending tx) = [''0xa'' \<mapsto> alice, ''0xb'' \<mapsto> bob]"
  "tx_look map_of (demo_pending tx) = Map.empty"
proof -
  have "acc_look map_of (demo_pending tx) = acc_look map_of demo_accounts"
    by (rule acc_look_cong) (simp add: demo_pending_def)
  then show "acc_look map_of (demo_pending tx) = [''0xa'' \<mapsto> alice, ''0xb'' \<mapsto> bob]"
    by (simp add: demo_accounts_look)
  have "tx_look map_of (demo_pending tx) = tx_look map_of demo_accounts"
    by (rule tx_look_cong) (simp add: demo_pending_def)
  then show "tx_look map_of (demo_pending tx) = Map.empty" by (simp add: demo_accounts_look)
qed

lemma demo_pending_good: "store_good ref_store map_of ref_stored (demo_pending tx)"
proof -
  have "acc_good ref_store map_of ref_stored (demo_pending tx) = acc_good ref_store map_of ref_stored demo_accounts"
    by (rule acc_good_cong) (simp add: demo_pending_def)
  moreover have "tx_good ref_store map_of ref_stored (demo_pending tx) = tx_good ref_store map_of ref_stored demo_accounts"
    by (rule tx_good_cong) (simp add: demo_pending_def)
  ultimately show ?thesis using demo_accounts_good by (simp add: store_good_def)
qed

lemma demo_pool:
  "bcMempool (demo_pending tx) = Some \<lparr>transactions = fmupd (tx_key ref_crypto tx) tx fmempty\<rparr>"
  by (simp add: demo_pending_def AddTransaction_def NewMempool_def Let_def)

lemma demo_total: "total_balance map_of (demo_pending tx) = 1050"
  by (simp add: total_balance_def)

lemma demo_finite: "finite (dom (acc_look map_of (demo_pending tx)))"
  by simp

text \<open>Processing the one pending transaction, by the specification.\<close>

lemma demo_process:
  assumes "ProcessMempoolTransactions ref_store ref_crypto [tx_key ref_crypto tx] (demo_pending tx) = (bc', ids, r)"
    "exec tx (ledger_of map_of (demo_pending tx)) = (L, v)"
  shows "ledger_of map_of bc' = L" "r = Ok () \<longleftrightarrow> v \<noteq> Rejected"
    "ids = (if v = Executed then [tx_key ref_crypto tx] else [])"
    "store_good ref_store map_of ref_stored bc'"
proof -
  from assms(1) have q: "process_txs ref_store ref_crypto [tx] [] (demo_pending tx) = (bc', ids, r)"
    by (simp add: ProcessMempoolTransactions_def demo_pool GetAllTransactions_def List.map_filter_def)
  from process_txs_refines_exec_all [OF ref_reliable demo_pending_good q] assms(2)
  show "ledger_of map_of bc' = L" "r = Ok () \<longleftrightarrow> v \<noteq> Rejected"
    "ids = (if v = Executed then [tx_key ref_crypto tx] else [])"
    "store_good ref_store map_of ref_stored bc'"
    by (auto split: verdict.splits)
qed

end
