(* ===== verification/Processing_Props.thy ===== *)
theory Processing_Props
  imports Demo_State
begin

text \<open>
  The properties of processing: money is neither created nor destroyed by transfers between
  two accounts, a transfer to oneself creates it, no transaction is executed twice, an executed
  one leaves the mempool, and the network's error crashes the loop over IDs.
\<close>

section \<open>The mempool during processing\<close>

definition pool_look :: "('db, 'tr) Blockchain \<Rightarrow> string \<Rightarrow> Transaction option" where
  "pool_look bc k = (case bcMempool bc of None \<Rightarrow> None | Some mp \<Rightarrow> fmlookup (transactions mp) k)"

lemma pool_look_drop: "pool_look (drop_tx k bc) = (pool_look bc)(k := None)"
  by (auto simp: pool_look_def drop_tx_def RemoveTransaction_def fun_eq_iff split: option.splits)

lemma pool_look_settle [simp]:
  "pool_look (debit_state X tx f bc) = pool_look bc"
  "pool_look (credit_state X tx f t bc) = pool_look bc"
  "pool_look (record_state X tx f t bc) = pool_look bc"
  by (simp_all add: pool_look_def fun_eq_iff frame_simps)

lemma pool_look_all: "tx \<in> set (GetAllTransactions ks mp) \<Longrightarrow> \<exists>k. fmlookup (transactions mp) k = Some tx"
  by (auto simp: GetAllTransactions_def List.map_filter_def)

lemma map_le_drop [simp]: "m(k := None) \<subseteq>\<^sub>m m"
  by (auto simp: map_le_def)

text \<open>What one body does to the records and to the pool.\<close>

lemma process_tx_records:
  assumes "process_tx X C tx bc = (bc', s)" "store_good X view stored bc"
  shows "store_good X view stored bc'" "tx_look view bc \<subseteq>\<^sub>m tx_look view bc'"
    "pool_look bc' \<subseteq>\<^sub>m pool_look bc" "s \<noteq> Crashed"
    "s = Done \<Longrightarrow> \<exists>k. ID tx = Some k \<and> tx_look view bc k = None \<and> tx_look view bc' k \<noteq> None
       \<and> pool_look bc' (tx_key C tx) = None"
proof -
  have "store_good X view stored bc' \<and> tx_look view bc \<subseteq>\<^sub>m tx_look view bc'
      \<and> pool_look bc' \<subseteq>\<^sub>m pool_look bc \<and> s \<noteq> Crashed
      \<and> (s = Done \<longrightarrow> (\<exists>k. ID tx = Some k \<and> tx_look view bc k = None \<and> tx_look view bc' k \<noteq> None
           \<and> pool_look bc' (tx_key C tx) = None))"
    using assms
  proof (cases rule: process_tx_cases)
    case same
    then show ?thesis using assms(2) by (auto simp: pool_look_drop)
  next
    case (moved f t k)
    from moved(1) have ft: "acc_look view bc (From tx) = Some f" "acc_look view bc (To tx) = Some t"
      by (simp_all add: new_and_payable_def)
    have "tx_look view bc \<subseteq>\<^sub>m (tx_look view bc)(elems (ID tx) \<mapsto> san_Transaction tx)"
      using moved(2,3) by (auto simp: map_le_def)
    with moved(2-4) settle_look [OF assms(2) ft] show ?thesis
      by (auto simp: pool_look_drop)
  qed
  then show "store_good X view stored bc'" "tx_look view bc \<subseteq>\<^sub>m tx_look view bc'"
    "pool_look bc' \<subseteq>\<^sub>m pool_look bc" "s \<noteq> Crashed"
    "s = Done \<Longrightarrow> \<exists>k. ID tx = Some k \<and> tx_look view bc k = None \<and> tx_look view bc' k \<noteq> None
       \<and> pool_look bc' (tx_key C tx) = None" by blast+
qed

text \<open>The IDs the loop has collected: distinct, recorded since, and gone from the pool.\<close>

definition collected ::
    "('sk, 'pk) crypto_ext \<Rightarrow> ('tr \<Rightarrow> bytes \<Rightarrow> bytes option) \<Rightarrow> ('db, 'tr) Blockchain
      \<Rightarrow> ('db, 'tr) Blockchain \<Rightarrow> string list \<Rightarrow> bool" where
  "collected C view bc0 bc ids \<longleftrightarrow> distinct ids \<and> tx_look view bc0 \<subseteq>\<^sub>m tx_look view bc
     \<and> (\<forall>i \<in> set ids. pool_look bc i = None
          \<and> (\<exists>b. i = hex_Encode C b \<and> tx_look view bc0 b = None \<and> tx_look view bc b \<noteq> None))"

lemma map_le_None: "m \<subseteq>\<^sub>m n \<Longrightarrow> n k = None \<Longrightarrow> m k = None"
  by (metis domIff map_le_def)

lemma map_le_not_None: "m \<subseteq>\<^sub>m n \<Longrightarrow> m k \<noteq> None \<Longrightarrow> n k \<noteq> None"
  by (metis domIff map_le_def)

lemma process_tx_collected:
  assumes step: "process_tx X C tx bc = (bc', s)" and good: "store_good X view stored bc"
    and C: "crypto_laws C" and col: "collected C view bc0 bc ids"
  shows "collected C view bc0 bc' (if s = Done then ids @ [tx_key C tx] else ids)"
proof -
  note r = process_tx_records [OF step good]
  have grow: "tx_look view bc0 \<subseteq>\<^sub>m tx_look view bc'"
    using col map_le_trans [OF _ r(2)] by (simp add: collected_def)
  have keep: "collected C view bc0 bc' ids"
    unfolding collected_def
  proof (intro conjI ballI)
    show "distinct ids" using col by (simp add: collected_def)
    fix i assume "i \<in> set ids"
    then obtain b where b: "pool_look bc i = None" "i = hex_Encode C b" "tx_look view bc0 b = None"
      "tx_look view bc b \<noteq> None" using col by (auto simp: collected_def)
    show "pool_look bc' i = None" by (rule map_le_None [OF r(3) b(1)])
    show "\<exists>b. i = hex_Encode C b \<and> tx_look view bc0 b = None \<and> tx_look view bc' b \<noteq> None"
      using b map_le_not_None [OF r(2) b(4)] by blast
  qed (rule grow)
  show ?thesis
  proof (cases "s = Done")
    case True
    then obtain k where k: "ID tx = Some k" "tx_look view bc k = None" "tx_look view bc' k \<noteq> None"
      "pool_look bc' (tx_key C tx) = None" using r(5) by blast
    have key: "tx_key C tx = hex_Encode C k" by (simp add: tx_key_def k(1))
    have "tx_key C tx \<notin> set ids"
    proof
      assume "tx_key C tx \<in> set ids"
      then obtain b where "hex_Encode C k = hex_Encode C b" "tx_look view bc b \<noteq> None"
        using col unfolding collected_def key by blast
      with k(2) show False by (simp add: law_hex_inject [OF C])
    qed
    moreover have "tx_look view bc0 k = None"
      using col k(2) map_le_None [of _ "tx_look view bc" k] by (simp add: collected_def)
    ultimately show ?thesis using keep k key True by (auto simp: collected_def)
  qed (simp add: keep)
qed

lemma process_txs_collected:
  assumes "process_txs X C txs ids bc = (bc', ids', r)" "store_good X view stored bc"
    "crypto_laws C" "collected C view bc0 bc ids"
  shows "collected C view bc0 bc' ids'"
  using assms
proof (induction txs arbitrary: ids bc)
  case (Cons tx txs)
  obtain b s where b: "process_tx X C tx bc = (b, s)" by (cases "process_tx X C tx bc")
  note col = process_tx_collected [OF b Cons.prems(2,3,4)] and rec = process_tx_records [OF b Cons.prems(2)]
  from Cons.IH [OF _ rec(1) Cons.prems(3) col] Cons.prems(1) b col show ?case
    by (cases s) auto
qed simp

lemma process_txs_no_panic:
  assumes "process_txs X C txs ids bc = (bc', ids', r)" "store_good X view stored bc"
  shows "r \<noteq> Panic"
  using assms
proof (induction txs arbitrary: ids bc)
  case (Cons tx txs)
  obtain b s where b: "process_tx X C tx bc = (b, s)" by (cases "process_tx X C tx bc")
  note rec = process_tx_records [OF b Cons.prems(2)]
  from Cons.IH [OF _ rec(1)] Cons.prems(1) b rec(4) show ?case by (cases s) auto
qed auto

section \<open>Properties\<close>

text \<open>
  C1. Executing the mempool neither creates nor destroys money. If no pending transaction
  pays its own sender and the balances sum up to less than 2^64, then processing does not panic,
  no account appears or disappears, and the sum of all balances has not grown, whatever storage
  call failed; where processing returns without an error, the sum is exactly what it was.
\<close>

theorem mempool_processing_conserves_money:
  assumes "store_good X view stored bc" "finite (dom (acc_look view bc))"
    "total_balance view bc < 2 ^ 64" "bcMempool bc = Some mp"
    "\<forall>k tx. fmlookup (transactions mp) k = Some tx \<longrightarrow> From tx \<noteq> To tx"
    "ProcessMempoolTransactions X C ks bc = (bc', ids, r)"
  shows "r \<noteq> Panic \<and> dom (acc_look view bc') = dom (acc_look view bc)
    \<and> total_balance view bc' \<le> total_balance view bc
    \<and> (r = Ok () \<longrightarrow> total_balance view bc' = total_balance view bc)"
proof -
  from assms(4,6) have p: "process_txs X C (GetAllTransactions ks mp) [] bc = (bc', ids, r)"
    by (simp add: ProcessMempoolTransactions_def)
  let ?A = "dom (acc_look view bc)" and ?n = "total_balance view bc"
  let ?P = "\<lambda>b. solvent X view stored ?A ?n b \<and> (r = Ok () \<longrightarrow> total_balance view b = ?n)"
  have "?P bc'"
  proof (rule process_txs_inv [OF p])
    show "?P bc" using assms(1-3) by (simp add: solvent_def)
  next
    fix tx b b' s
    assume "tx \<in> set (GetAllTransactions ks mp)" and P: "?P b" and st: "process_tx X C tx b = (b', s)"
      and s: "r = Ok () \<longrightarrow> s = Skipped \<or> s = Done"
    then have ne: "From tx \<noteq> To tx" using pool_look_all assms(5) by blast
    show "?P b'" using process_tx_solvent [OF st _ ne] P s by auto
  qed
  with process_txs_no_panic [OF p assms(1)] show ?thesis by (simp add: solvent_def)
qed

lemma mempool_processing_conserves_money_witness:
  "case ProcessMempoolTransactions ref_store ref_crypto [tx_key ref_crypto (demo_tx ''0xa'' ''0xb'' 300)]
       (demo_pending (demo_tx ''0xa'' ''0xb'' 300)) of
     (bc', ids, r) \<Rightarrow> r = Ok () \<and> total_balance map_of bc' = 1050"
proof -
  define tx where "tx = demo_tx ''0xa'' ''0xb'' 300"
  obtain bc' ids r where p:
    "ProcessMempoolTransactions ref_store ref_crypto [tx_key ref_crypto tx] (demo_pending tx) = (bc', ids, r)"
    by (cases "ProcessMempoolTransactions ref_store ref_crypto [tx_key ref_crypto tx] (demo_pending tx)")
  obtain L where L: "exec tx (ledger_of map_of (demo_pending tx)) = (L, Executed)"
    by (simp add: exec_def ledger_of_def tx_def)
  have r: "r = Ok ()" using demo_process(2) [OF p L] by simp
  have small: "total_balance map_of (demo_pending tx) < 2 ^ 64" unfolding demo_total by simp
  have ne: "\<forall>k tx'. fmlookup (transactions \<lparr>transactions = fmupd (tx_key ref_crypto tx) tx fmempty\<rparr>) k = Some tx'
      \<longrightarrow> From tx' \<noteq> To tx'" by (simp add: tx_def)
  have "total_balance map_of bc' = total_balance map_of (demo_pending tx)"
    using mempool_processing_conserves_money [OF demo_pending_good demo_finite small demo_pool ne p] r
    by simp
  with p r show ?thesis unfolding tx_def demo_total by simp
qed


lemma GetTransactionByID_source:
  assumes "tx_good X view stored bc" "hex_Decode C txID = Inr k" "tx_look view bc k = None"
    "GetTransactionByID X C net txID bc = Ok (Some tx)"
  shows "pool_look bc txID = Some tx \<or> bcP2P bc \<and> net = P2PResponse (Some tx)"
proof -
  have "GetTransactionFromTrie X (Some k) bc \<noteq> Ok t" for t
    using GetTransactionFromTrie_Ok [of X view k bc t] assms(1,3) by (auto simp: tx_good_def store_trie)
  with assms(2,4) show ?thesis
    by (auto simp: GetTransactionByID_def pool_look_def GetTransaction_Ok
        split: option.splits outcome.splits if_splits p2p_outcome.splits)
qed

lemma process_id_pool:
  assumes "process_id X C net txID bc = (bc', s)" "store_good X view stored bc"
  shows "pool_look bc' \<subseteq>\<^sub>m pool_look bc" "bcP2P bc' = bcP2P bc"
proof -
  have "pool_look bc' \<subseteq>\<^sub>m pool_look bc \<and> bcP2P bc' = bcP2P bc"
    using assms by (cases rule: process_id_cases) (auto simp: pool_look_drop frame_simps)
  then show "pool_look bc' \<subseteq>\<^sub>m pool_look bc" "bcP2P bc' = bcP2P bc" by blast+
qed

text \<open>
  C11. The same for the IDs of a block proposed by another node. Transactions come from the
  mempool or from the network; if neither holds a transaction that pays its own sender, the
  sum of all balances never grows, and is unchanged where all IDs have been processed.
\<close>

theorem ids_processing_conserves_money:
  assumes "store_good X view stored bc" "finite (dom (acc_look view bc))"
    "total_balance view bc < 2 ^ 64"
    "\<forall>k tx. pool_look bc k = Some tx \<longrightarrow> From tx \<noteq> To tx"
    "\<forall>i tx. net i = P2PResponse (Some tx) \<longrightarrow> From tx \<noteq> To tx"
    "ProcessTransactionsByIDs X C net ids bc = (bc', r)"
  shows "dom (acc_look view bc') = dom (acc_look view bc)
    \<and> total_balance view bc' \<le> total_balance view bc
    \<and> (r = Ok () \<longrightarrow> total_balance view bc' = total_balance view bc)"
proof -
  from assms(6) have p: "process_ids X C net 0 (elems ids) bc = (bc', r)"
    by (simp add: ProcessTransactionsByIDs_def)
  let ?A = "dom (acc_look view bc)" and ?n = "total_balance view bc"
  let ?P = "\<lambda>b. solvent X view stored ?A ?n b \<and> (r = Ok () \<longrightarrow> total_balance view b = ?n)
    \<and> pool_look b \<subseteq>\<^sub>m pool_look bc"
  have "?P bc'"
  proof (rule process_ids_inv [OF p])
    show "?P bc" using assms(1-3) by (simp add: solvent_def)
  next
    fix txID j b b' s
    assume P: "?P b" and st: "process_id X C (net j) txID b = (b', s)"
      and s: "r = Ok () \<longrightarrow> s = Skipped \<or> s = Done"
    then have good: "store_good X view stored b" by (simp add: solvent_def)
    have ne: "From tx \<noteq> To tx" if "hex_Decode C txID = Inr k" "tx_look view b k = None"
      "GetTransactionByID X C (net j) txID b = Ok (Some tx)" for tx k
      using GetTransactionByID_source [OF store_goodD(2) [OF good] that] P assms(4,5)
      by (metis domI map_le_def)
    show "?P b'"
      using process_id_solvent [OF st _ ne] P s process_id_pool [OF st good] map_le_trans by auto
  qed
  then show ?thesis by (simp add: solvent_def)
qed

lemma ids_processing_conserves_money_witness:
  "case ProcessTransactionsByIDs ref_store ref_crypto (\<lambda>_. P2PTimeout) (Some [''0x78''])
       (demo_pending (demo_tx ''0xa'' ''0xb'' 300)) of
     (bc', r) \<Rightarrow> dom (acc_look map_of bc') = {''0xa'', ''0xb''} \<and> total_balance map_of bc' \<le> 1050"
proof -
  define tx where "tx = demo_tx ''0xa'' ''0xb'' 300"
  obtain bc' r where p: "ProcessTransactionsByIDs ref_store ref_crypto (\<lambda>_. P2PTimeout) (Some [''0x78''])
      (demo_pending tx) = (bc', r)"
    by (cases "ProcessTransactionsByIDs ref_store ref_crypto (\<lambda>_. P2PTimeout) (Some [''0x78'']) (demo_pending tx)")
  have small: "total_balance map_of (demo_pending tx) < 2 ^ 64" unfolding demo_total by simp
  have ne: "\<forall>k tx'. pool_look (demo_pending tx) k = Some tx' \<longrightarrow> From tx' \<noteq> To tx'"
    by (simp add: pool_look_def demo_pool tx_def)
  have "dom (acc_look map_of bc') = dom (acc_look map_of (demo_pending tx))
      \<and> total_balance map_of bc' \<le> total_balance map_of (demo_pending tx)"
    using ids_processing_conserves_money [OF demo_pending_good demo_finite small ne _ p] by simp
  with p show ?thesis unfolding tx_def demo_total by auto
qed

text \<open>
  C33. A transfer to oneself creates money. When a new transaction whose sender is its receiver
  is executed, the account ends with its old balance plus the amount, because the credited copy
  of the account, read before the debit, is written last; the total grows by the amount (as long
  as that fits 64 bits) and the nonce is what it was.
\<close>

theorem self_transfer_creates_money:
  assumes "store_good X view stored bc" "finite (dom (acc_look view bc))"
    "acc_look view bc a = Some acc" "From tx = a" "To tx = a"
    "unat (Balance acc) + unat (Amount tx) < 2 ^ 64"
    "process_tx X C tx bc = (bc', Done)"
  shows "total_balance view bc' = total_balance view bc + unat (Amount tx)
    \<and> acc_look view bc' = (acc_look view bc)(a \<mapsto> acc\<lparr>Balance := Balance acc + Amount tx\<rparr>)"
  using assms(7,1)
proof (cases rule: process_tx_cases)
  case same
  then show ?thesis by auto
next
  case (moved f t k)
  then have ft: "acc_look view bc (From tx) = Some f" "acc_look view bc (To tx) = Some t"
    by (simp_all add: new_and_payable_def)
  with assms(3-5) have eq: "f = acc" "t = acc" by auto
  from moved(4) have bc': "bc' = drop_tx (tx_key C tx) (record_state X tx f t bc)" by auto
  have look: "acc_look view bc' = (acc_look view bc)(a \<mapsto> credited tx acc)"
    using settle_look(2,3) [OF assms(1) ft] assms(4,5) eq by (simp add: bc')
  have "unat (Balance (credited tx acc)) = unat (Balance acc) + unat (Amount tx)"
    using assms(6) by (simp add: unat_add_small)
  then have "total_balance view bc' = total_balance view bc + unat (Amount tx)"
    using total_balance_upd [OF assms(2,3), of "credited tx acc"] assms(3)
    by (simp add: total_balance_def look insert_absorb domI)
  with look show ?thesis by simp
qed

lemma self_transfer_creates_money_witness:
  "case process_tx ref_store ref_crypto (demo_tx ''0xa'' ''0xa'' 1000) (demo_pending (demo_tx ''0xa'' ''0xa'' 1000)) of
     (bc', s) \<Rightarrow> s = Done \<and> total_balance map_of bc' = 2050"
proof -
  define tx where "tx = demo_tx ''0xa'' ''0xa'' 1000"
  obtain bc' s where p: "process_tx ref_store ref_crypto tx (demo_pending tx) = (bc', s)"
    by (cases "process_tx ref_store ref_crypto tx (demo_pending tx)")
  obtain L where L: "exec tx (ledger_of map_of (demo_pending tx)) = (L, Executed)"
    by (simp add: exec_def ledger_of_def tx_def)
  with process_tx_refines_exec [OF ref_reliable demo_pending_good p] have s: "s = Done"
    by (cases s) auto
  have "total_balance map_of bc' = total_balance map_of (demo_pending tx) + unat (Amount tx)"
    using self_transfer_creates_money [OF demo_pending_good demo_finite, of tx "''0xa''" alice tx ref_crypto bc']
      p s by (simp add: tx_def)
  with p s show ?thesis unfolding tx_def demo_total by simp
qed


text \<open>
  C2. Each transaction is executed once. The IDs that processing the mempool returns are
  distinct, none of them was recorded before, each is recorded afterwards, and none is left in
  the mempool; what was recorded before still is. This holds with an error too.
\<close>

theorem mempool_processing_executes_once:
  assumes "store_good X view stored bc" "crypto_laws C"
    "ProcessMempoolTransactions X C ks bc = (bc', ids, r)"
  shows "distinct ids \<and> tx_look view bc \<subseteq>\<^sub>m tx_look view bc'
    \<and> (\<forall>i \<in> set ids. pool_look bc' i = None
        \<and> (\<exists>b. i = hex_Encode C b \<and> tx_look view bc b = None \<and> tx_look view bc' b \<noteq> None))"
proof (cases "bcMempool bc")
  case None
  with assms(3) show ?thesis by (simp add: ProcessMempoolTransactions_def)
next
  case (Some mp)
  then have "process_txs X C (GetAllTransactions ks mp) [] bc = (bc', ids, r)"
    using assms(3) by (simp add: ProcessMempoolTransactions_def)
  from process_txs_collected [OF this assms(1,2), of bc] show ?thesis
    by (simp add: collected_def)
qed

lemma mempool_processing_executes_once_witness:
  "case ProcessMempoolTransactions ref_store ref_crypto [tx_key ref_crypto (demo_tx ''0xa'' ''0xb'' 300)]
       (demo_pending (demo_tx ''0xa'' ''0xb'' 300)) of
     (bc', ids, r) \<Rightarrow> length ids = 1 \<and> pool_look bc' (hd ids) = None \<and> r = Ok ()"
proof -
  define tx where "tx = demo_tx ''0xa'' ''0xb'' 300"
  obtain bc' ids r where p:
    "ProcessMempoolTransactions ref_store ref_crypto [tx_key ref_crypto tx] (demo_pending tx) = (bc', ids, r)"
    by (cases "ProcessMempoolTransactions ref_store ref_crypto [tx_key ref_crypto tx] (demo_pending tx)")
  obtain L where L: "exec tx (ledger_of map_of (demo_pending tx)) = (L, Executed)"
    by (simp add: exec_def ledger_of_def tx_def)
  have "ids = [tx_key ref_crypto tx]" "r = Ok ()" using demo_process(2,3) [OF p L] by simp_all
  moreover have "\<forall>i \<in> set ids. pool_look bc' i = None"
    using mempool_processing_executes_once [OF demo_pending_good ref_crypto_laws p] by blast
  ultimately show ?thesis using p by (simp add: tx_def)
qed

text \<open>
  C8. Processing refines its specification. Where no storage call fails, processing the
  mempool in any order \<open>ks\<close> changes the maps of accounts and transactions exactly as
  executing the same list on the abstract ledger does, returns the IDs of the transactions
  executed there, and an error exactly when one is rejected.
\<close>

theorem mempool_processing_refines_ledger:
  assumes "reliable X stored" "store_good X view stored bc" "bcMempool bc = Some mp"
    "ProcessMempoolTransactions X C ks bc = (bc', ids, r)"
  shows "exec_all (GetAllTransactions ks mp) (ledger_of view bc)
      = (ledger_of view bc', fst (snd (exec_all (GetAllTransactions ks mp) (ledger_of view bc))), r = Ok ())
    \<and> ids = map (tx_key C) (fst (snd (exec_all (GetAllTransactions ks mp) (ledger_of view bc))))
    \<and> store_good X view stored bc'"
proof -
  from assms(3,4) have "process_txs X C (GetAllTransactions ks mp) [] bc = (bc', ids, r)"
    by (simp add: ProcessMempoolTransactions_def)
  from process_txs_refines_exec_all [OF assms(1,2) this] show ?thesis by auto
qed

lemma mempool_processing_refines_ledger_witness:
  "case ProcessMempoolTransactions ref_store ref_crypto [tx_key ref_crypto (demo_tx ''0xa'' ''0xc'' 300)]
       (demo_pending (demo_tx ''0xa'' ''0xc'' 300)) of
     (bc', ids, r) \<Rightarrow> ids = [] \<and> r \<noteq> Ok () \<and> acc_look map_of bc' = [''0xa'' \<mapsto> alice, ''0xb'' \<mapsto> bob]"
proof -
  define tx where "tx = demo_tx ''0xa'' ''0xc'' 300"
  obtain bc' ids r where p:
    "ProcessMempoolTransactions ref_store ref_crypto [tx_key ref_crypto tx] (demo_pending tx) = (bc', ids, r)"
    by (cases "ProcessMempoolTransactions ref_store ref_crypto [tx_key ref_crypto tx] (demo_pending tx)")
  have e: "exec_all (GetAllTransactions [tx_key ref_crypto tx] \<lparr>transactions = fmupd (tx_key ref_crypto tx) tx fmempty\<rparr>)
      (ledger_of map_of (demo_pending tx)) = (ledger_of map_of (demo_pending tx), [], False)"
    by (simp add: exec_def ledger_of_def tx_def GetAllTransactions_def List.map_filter_def)
  from mempool_processing_refines_ledger [OF ref_reliable demo_pending_good demo_pool p] e
  have "ledger_of map_of bc' = ledger_of map_of (demo_pending tx)" "ids = []" "r \<noteq> Ok ()" by auto
  then show ?thesis using p by (simp add: tx_def ledger_of_def)
qed

text \<open>
  Replay does nothing. A transaction whose ID is recorded is skipped by both loops,
  whatever its other fields say, and the state stays as it is (the only other outcome is an
  error of the trie read, also without an effect).
\<close>

lemma recorded_transaction_is_inert:
  assumes "store_good X view stored bc" "ID tx = Some k" "hex_Decode C txID = Inr k"
    "tx_look view bc k \<noteq> None"
  shows "fst (process_tx X C tx bc) = bc \<and> fst (process_id X C net txID bc) = bc
    \<and> (snd (process_tx X C tx bc) = Skipped \<or> (\<exists>e. snd (process_tx X C tx bc) = Stopped (Wrap MsgExists e)))
    \<and> snd (process_id X C net txID bc) = snd (process_tx X C tx bc)"
proof (cases "IsTransactionExist X (Some k) bc")
  case (Ok b)
  with IsTransactionExist_Ok [OF store_goodD(2) [OF assms(1)]] assms(4) have "b" by simp
  with Ok assms(2,3) show ?thesis by (simp add: process_tx_def process_id_def Let_def)
qed (use assms in \<open>simp_all add: process_tx_def process_id_def Let_def\<close>)

lemma demo_recorded:
  "store_good ref_store map_of ref_stored (fst (SaveTransactionToTrie ref_store (demo_tx a b n) demo_accounts))"
  "tx_look map_of (fst (SaveTransactionToTrie ref_store (demo_tx a b n) demo_accounts)) ''x'' \<noteq> None"
  using store_good_save_tx [OF demo_accounts_good] txs.look_save [OF store_goodD(2) [OF demo_accounts_good]]
  by simp_all

lemma recorded_transaction_is_inert_witness:
  "fst (process_tx ref_store ref_crypto (demo_tx ''0xb'' ''0xa'' 1)
     (fst (SaveTransactionToTrie ref_store (demo_tx ''0xa'' ''0xb'' 300) demo_accounts)))
   = fst (SaveTransactionToTrie ref_store (demo_tx ''0xa'' ''0xb'' 300) demo_accounts)"
proof -
  from recorded_transaction_is_inert [OF demo_recorded(1) _ demo_hex(1) demo_recorded(2)] show ?thesis by simp
qed

text \<open>An error of the network while a block is executed is a nil dereference.\<close>

lemma network_error_panics:
  assumes "IsTransactionExist X (Some k) bc = Ok False" "hex_Decode C txID = Inr k"
    "pool_look bc txID = None" "bcMempool bc \<noteq> None" "bcP2P bc"
    "\<forall>t. GetTransactionFromTrie X (Some k) bc \<noteq> Ok t"
    "net 0 = P2PError e"
  shows "ProcessTransactionsByIDs X C net (Some (txID # txIDs)) bc = (bc, Panic)"
proof -
  from assms(4) obtain mp where mp: "bcMempool bc = Some mp" by auto
  have "GetTransactionByID X C (net 0) txID bc = Ok None"
    using assms(2,3,5-7) mp GetTransactionFromTrie_no_Panic [of X "Some k" bc]
    by (auto simp: GetTransactionByID_def pool_look_def GetTransaction_def split: option.splits outcome.splits)
  with assms(1,2) show ?thesis by (simp add: ProcessTransactionsByIDs_def process_id_def)
qed

text \<open>
  C34. A transaction from the network is executed as it comes. Where no storage call fails,
  an unknown ID is asked for, and the answer is executed if its sender can pay: neither its
  signature nor its ID (which may be another one than the one asked for) is looked at.
\<close>

theorem network_transaction_is_not_verified:
  assumes "reliable X stored" "store_good X view stored bc" "hex_Decode C txID = Inr k"
    "tx_look view bc k = None" "pool_look bc txID = None" "bcMempool bc \<noteq> None" "bcP2P bc"
    "net 0 = P2PResponse (Some tx)" "acc_look view bc (From tx) = Some f"
    "acc_look view bc (To tx) = Some t" "Amount tx \<le> Balance f"
    "ProcessTransactionsByIDs X C net (Some [txID]) bc = (bc', r)"
  shows "r = Ok () \<and> acc_look view bc' = (acc_look view bc)
     (From tx \<mapsto> f\<lparr>Balance := Balance f - Amount tx, Nonce := Nonce f + 1\<rparr>,
      To tx \<mapsto> t\<lparr>Balance := Balance t + Amount tx\<rparr>)
   \<and> tx_look view bc' (elems (ID tx)) = Some (san_Transaction tx)"
proof -
  from assms(6) obtain mp where mp: "bcMempool bc = Some mp" by auto
  have "GetTransactionFromTrie X (Some k) bc \<noteq> Ok t'" for t'
    using GetTransactionFromTrie_Ok [of X view k bc t'] assms(2,4) by (auto simp: store_good_def tx_good_def store_trie)
  then have "GetTransactionByID X C (net 0) txID bc = Ok (Some tx)"
    using assms(3,5,7,8) mp GetTransactionFromTrie_no_Panic [of X "Some k" bc]
    by (auto simp: GetTransactionByID_def pool_look_def GetTransaction_def split: option.splits outcome.splits)
  moreover have "IsTransactionExist X (Some k) bc = Ok False"
    using IsTransactionExist_reliable [OF assms(1) store_goodD(2) [OF assms(2)], of k] assms(4) by simp
  moreover have "GetAccountFromTrie X (From tx) bc = Ok f" "GetAccountFromTrie X (To tx) bc = Ok t"
    using account_read_reliable [OF assms(1,2)] assms(9,10) by blast+
  ultimately have "bc' = record_state X tx f t bc" "r = Ok ()"
    using assms(3,11,12) settle_reliable [OF assms(1,2,9,10)]
    by (auto simp: ProcessTransactionsByIDs_def process_id_def leD)
  with settle_look [OF assms(2,9,10)] show ?thesis by (simp add: IncrementNonce_def)
qed

lemma network_transaction_is_not_verified_witness:
  "case ProcessTransactionsByIDs ref_store ref_crypto (\<lambda>_. P2PResponse (Some (demo_tx ''0xa'' ''0xb'' 1000)))
       (Some [''0x79'']) (demo_accounts\<lparr>bcP2P := True\<rparr>) of
     (bc', r) \<Rightarrow> r = Ok () \<and> map_option Balance (acc_look map_of bc' ''0xb'') = Some 1050"
proof -
  let ?bc = "demo_accounts\<lparr>bcP2P := True\<rparr>"
  let ?net = "\<lambda>_::nat. P2PResponse (Some (demo_tx ''0xa'' ''0xb'' 1000))"
  have frame: "acc_look map_of ?bc = [''0xa'' \<mapsto> alice, ''0xb'' \<mapsto> bob]" "tx_look map_of ?bc = Map.empty"
    using acc_look_cong [of ?bc demo_accounts map_of] tx_look_cong [of ?bc demo_accounts map_of]
    by (simp_all add: demo_accounts_look)
  have good: "store_good ref_store map_of ref_stored ?bc"
    using acc_good_cong [of ?bc demo_accounts ref_store map_of ref_stored]
      tx_good_cong [of ?bc demo_accounts ref_store map_of ref_stored] demo_accounts_good
    by (simp add: store_good_def)
  have pool: "bcMempool ?bc = Some NewMempool"
    by (simp add: demo_accounts_def frame_simps demo_empty_def)
  obtain bc' r where p: "ProcessTransactionsByIDs ref_store ref_crypto ?net (Some [''0x79'']) ?bc = (bc', r)"
    by (cases "ProcessTransactionsByIDs ref_store ref_crypto ?net (Some [''0x79'']) ?bc")
  from network_transaction_is_not_verified [OF ref_reliable good demo_hex(2) _ _ _ _ refl _ _ _ p, of alice bob]
  show ?thesis using p pool by (simp add: frame pool_look_def NewMempool_def)
qed

end
