(* ===== verification/Chain.thy ===== *)
theory Chain
  imports Blocks Processing_Props
begin

text \<open>
  The protocol of chain.go on top of the stores: who may propose the next block
  (\<open>CheckProposalCondition\<close>), proposing one (\<open>ProposeNewBlock\<close>) and accepting one from
  another node (\<open>HandleNewBlock\<close>). The invariant \<open>chain_inv\<close> says that the chain has no
  gaps up to the current block and that the last known block is not behind it.
\<close>

section \<open>Operations\<close>

fun find_node :: "int \<Rightarrow> Node list \<Rightarrow> Node outcome" where
  "find_node index [] = Err (Fail (MsgNodeNotFound index))"
| "find_node index (node # nodes) = (if NodeIndex node = index then Ok node else find_node index nodes)"

definition GetNodeConfigByIndex :: "int \<Rightarrow> ('db, 'tr) Blockchain \<Rightarrow> Node outcome" where
  "GetNodeConfigByIndex index bc = find_node index (Nodes (bcConfig bc))"

definition SetP2PNetwork :: "bool \<Rightarrow> ('db, 'tr) Blockchain \<Rightarrow> ('db, 'tr) Blockchain" where
  "SetP2PNetwork p2p bc = bc\<lparr>bcP2P := p2p\<rparr>"

text \<open>\<open>uint64(bc.Config.Index)\<close> wraps, and so does the subtraction.\<close>

definition my_turn :: "uint64 \<Rightarrow> int \<Rightarrow> bool" where
  "my_turn current index \<longleftrightarrow> (current + 1 - word_of_int index) mod 3 = 0"

definition CheckProposalCondition :: "('db, 'tr, 'nd, 'tdb) store_ext \<Rightarrow> ('db, 'tr) Blockchain \<Rightarrow> bool" where
  "CheckProposalCondition X bc =
     (case GetLastBlock X bc of
        Ok lastBlock \<Rightarrow>
          (case GetCurrentBlock X bc of
             Ok currentBlock \<Rightarrow>
               if Index currentBlock < Index lastBlock then False
               else my_turn (Index currentBlock) (ConfigIndex (bcConfig bc))
           | _ \<Rightarrow> False)
      | _ \<Rightarrow> False)"

definition new_block :: "Block \<Rightarrow> uint64 \<Rightarrow> string \<Rightarrow> string list \<Rightarrow> Block" where
  "new_block currentBlock now signature processedTxs =
     \<lparr>Header = zero_BlockHeader\<lparr>
        Version := Version (Header currentBlock),
        PreviousBlockHeader := MerkleRoot (Header currentBlock),
        MerkleRoot := block_key (Index currentBlock + 1),
        Time := now,
        Signature := signature\<rparr>,
      Index = Index currentBlock + 1,
      Txns = Some processedTxs\<rparr>"

definition ProposeNewBlock ::
    "('db, 'tr, 'nd, 'tdb) store_ext \<Rightarrow> ('sk, 'pk) crypto_ext \<Rightarrow> uint64 \<Rightarrow> string list
      \<Rightarrow> ('db, 'tr) Blockchain \<Rightarrow> ('db, 'tr) Blockchain \<times> Block outcome" where
  "ProposeNewBlock X C now ks bc =
     (case GetCurrentBlock X bc of
        Err e \<Rightarrow> (bc, Err (Wrap MsgGet e))
      | Panic \<Rightarrow> (bc, Panic)
      | Ok currentBlock \<Rightarrow>
          if \<not> CheckProposalCondition X bc then (bc, Err (Fail MsgMayNotPropose))
          else case ProcessMempoolTransactions X C ks bc of
            (bc1, _, Err e) \<Rightarrow> (bc1, Err (Wrap MsgProcess e))
          | (bc1, _, Panic) \<Rightarrow> (bc1, Panic)
          | (bc1, processedTxs, Ok _) \<Rightarrow>
              (case SignMerkleRoot C (PrivateKeyHex (bcConfig bc1)) (block_key (Index currentBlock + 1)) of
                 Err e \<Rightarrow> (bc1, Err (Wrap MsgSign e))
               | Panic \<Rightarrow> (bc1, Panic)
               | Ok signature \<Rightarrow>
                   let newBlock = new_block currentBlock now signature processedTxs in
                   (case SaveBlockToTrie X newBlock bc1 of
                      (bc2, Err e) \<Rightarrow> (bc2, Err (Wrap MsgSaveBlock e))
                    | (bc2, Panic) \<Rightarrow> (bc2, Panic)
                    | (bc2, Ok _) \<Rightarrow> (bc2, Ok newBlock))))"

text \<open>
  \<open>existingBlock, _ := bc.GetBlockFromTrie(...)\<close>: with an error the block is the zero
  value. The result of \<open>VerifySignature\<close> is dropped, only its error counts.
\<close>

definition existing_signature ::
    "('db, 'tr, 'nd, 'tdb) store_ext \<Rightarrow> uint64 \<Rightarrow> ('db, 'tr) Blockchain \<Rightarrow> string outcome" where
  "existing_signature X i bc =
     (case GetBlockFromTrie X (block_key i) bc of
        Ok b \<Rightarrow> Ok (Signature (Header b))
      | Err _ \<Rightarrow> Ok (Signature (Header zero_Block))
      | Panic \<Rightarrow> Panic)"

definition HandleNewBlock ::
    "('db, 'tr, 'nd, 'tdb) store_ext \<Rightarrow> ('sk, 'pk) crypto_ext \<Rightarrow> (nat \<Rightarrow> p2p_outcome) \<Rightarrow> Block
      \<Rightarrow> ('db, 'tr) Blockchain \<Rightarrow> ('db, 'tr) Blockchain \<times> unit outcome" where
  "HandleNewBlock X C net newBlock bc =
     (if Index newBlock = 0 then (bc, Ok ())
      else case existing_signature X (Index newBlock) bc of
        Panic \<Rightarrow> (bc, Panic)
      | Err e \<Rightarrow> (bc, Err e)
      | Ok old \<Rightarrow>
          if old \<noteq> [] then (bc, Err (Fail (MsgBlockExists (Index newBlock) old)))
          else case GetNodeConfigByIndex (uint (Index newBlock mod 3) + 1) bc of
            Err e \<Rightarrow> (bc, Err (Wrap MsgGet e))
          | Panic \<Rightarrow> (bc, Panic)
          | Ok node \<Rightarrow>
              (case VerifySignature C (''0x04'' @ NodePublicKey node) (block_key (Index newBlock))
                      (Signature (Header newBlock)) of
                 Err e \<Rightarrow> (bc, Err (Wrap MsgVerify e))
               | Panic \<Rightarrow> (bc, Panic)
               | Ok _ \<Rightarrow>
                   (case ProcessTransactionsByIDs X C net (Txns newBlock) bc of
                      (bc1, Err e) \<Rightarrow> (bc1, Err (Wrap MsgProcess e))
                    | (bc1, Panic) \<Rightarrow> (bc1, Panic)
                    | (bc1, Ok _) \<Rightarrow>
                        (case SaveBlockToTrie X newBlock bc1 of
                           (bc2, Err e) \<Rightarrow> (bc2, Err (Wrap MsgSaveBlock e))
                         | (bc2, r) \<Rightarrow> (bc2, r)))))"

section \<open>Frames\<close>

text \<open>What executing transactions leaves alone: the block trie, the configuration, the pointers.\<close>

definition same_chain ::
    "('db, 'tr, 'nd, 'tdb) store_ext \<Rightarrow> ('db, 'tr) Blockchain \<Rightarrow> ('db, 'tr) Blockchain \<Rightarrow> bool" where
  "same_chain X b bc \<longleftrightarrow> tr b = tr bc \<and> bcConfig b = bcConfig bc \<and> bcP2P b = bcP2P bc
     \<and> db_Get X (db b) CURRENT_BLOCK = db_Get X (db bc) CURRENT_BLOCK
     \<and> db_Get X (db b) LAST_BLOCK = db_Get X (db bc) LAST_BLOCK
     \<and> db_Get X (db b) ROOT_HASH = db_Get X (db bc) ROOT_HASH"

lemma same_chain_refl [simp]: "same_chain X bc bc"
  by (simp add: same_chain_def)

lemma same_chain_trans: "same_chain X a b \<Longrightarrow> same_chain X b c \<Longrightarrow> same_chain X a c"
  by (simp add: same_chain_def)

lemma same_chain_drop [simp]: "same_chain X (drop_tx k b) bc \<longleftrightarrow> same_chain X b bc"
  by (simp add: same_chain_def)

lemma same_chain_saves:
  assumes "key_laws X"
  shows "same_chain X (fst (SaveAccountToTrie X a bc)) bc"
    "same_chain X (fst (SaveTransactionToTrie X tx bc)) bc"
  using SaveAccountToTrie_keys [OF assms] SaveTransactionToTrie_keys [OF assms]
  by (simp_all add: same_chain_def frame_simps)

lemma settle_states:
  "fst (settle X tx f t bc) \<in> {debit_state X tx f bc, credit_state X tx f t bc, record_state X tx f t bc}"
  by (auto simp: settle_def Let_def split: prod.splits outcome.splits)

lemma same_chain_settle:
  assumes "key_laws X" "settle X tx f t bc = (b, r)"
  shows "same_chain X b bc"
  using settle_states [of X tx f t bc] assms(2) same_chain_saves [OF assms(1)] same_chain_trans
  by auto blast+

lemma same_chain_process_tx:
  assumes "key_laws X" "process_tx X C tx bc = (b, s)"
  shows "same_chain X b bc"
  using assms(2) same_chain_settle [OF assms(1)]
  by (auto simp: process_tx_def Let_def split: outcome.splits if_splits prod.splits settlement.splits)

lemma same_chain_process_id:
  assumes "key_laws X" "process_id X C net txID bc = (b, s)"
  shows "same_chain X b bc"
  using assms(2) same_chain_settle [OF assms(1)]
  by (auto simp: process_id_def split: sum.splits outcome.splits option.splits if_splits prod.splits
      settlement.splits)

lemma same_chain_mempool:
  assumes "key_laws X" "ProcessMempoolTransactions X C ks bc = (b, ids, r)"
  shows "same_chain X b bc"
proof (cases "bcMempool bc")
  case None
  with assms(2) show ?thesis by (simp add: ProcessMempoolTransactions_def)
next
  case (Some mp)
  with assms(2) have "process_txs X C (GetAllTransactions ks mp) [] bc = (b, ids, r)"
    by (simp add: ProcessMempoolTransactions_def)
  then show ?thesis
    by (rule process_txs_inv) (auto intro: same_chain_trans same_chain_process_tx [OF assms(1)])
qed

lemma same_chain_ids:
  assumes "key_laws X" "ProcessTransactionsByIDs X C net ids bc = (b, r)"
  shows "same_chain X b bc"
proof -
  from assms(2) have "process_ids X C net 0 (elems ids) bc = (b, r)"
    by (simp add: ProcessTransactionsByIDs_def)
  then show ?thesis
    by (rule process_ids_inv) (auto intro: same_chain_trans same_chain_process_id [OF assms(1)])
qed

lemma same_chain_reads:
  assumes "same_chain X b bc"
  shows "GetCurrentBlock X b = GetCurrentBlock X bc" "GetLastBlock X b = GetLastBlock X bc"
    "blk_look view b = blk_look view bc" "blk_good X view stored b = blk_good X view stored bc"
  using assms blk_look_cong [of b bc view]
  by (simp_all add: same_chain_def GetCurrentBlock_def GetLastBlock_def blk_good_def)


section \<open>Saving a block\<close>

lemma SaveCurrentBlock_Ok:
  assumes "key_laws X" "SaveCurrentBlock X b bc = (bc', Ok u)"
  shows "GetCurrentBlock X bc' = Ok (san_Block b)" "GetLastBlock X bc' = GetLastBlock X bc"
    "tr bc' = tr bc"
  using assms(2) law_put [OF assms(1)] law_put_other [OF assms(1)]
  by (auto simp: SaveCurrentBlock_def GetCurrentBlock_def GetLastBlock_def codec_simps split: sum.splits)

lemma SaveLastBlock_Ok:
  assumes "key_laws X" "SaveLastBlock X b bc = (bc', Ok u)"
  shows "GetLastBlock X bc' = Ok (san_Block b)" "GetCurrentBlock X bc' = GetCurrentBlock X bc"
    "tr bc' = tr bc"
  using assms(2) law_put [OF assms(1)] law_put_other [OF assms(1)]
  by (auto simp: SaveLastBlock_def GetCurrentBlock_def GetLastBlock_def codec_simps split: sum.splits)

lemma Save_pointer_frame [frame_simps]:
  "tr (fst (SaveCurrentBlock X b bc)) = tr bc" "tr (fst (SaveLastBlock X b bc)) = tr bc"
  "bcConfig (fst (SaveCurrentBlock X b bc)) = bcConfig bc" "bcConfig (fst (SaveLastBlock X b bc)) = bcConfig bc"
  "accTrie (fst (SaveCurrentBlock X b bc)) = accTrie bc" "accTrie (fst (SaveLastBlock X b bc)) = accTrie bc"
  "txTrie (fst (SaveCurrentBlock X b bc)) = txTrie bc" "txTrie (fst (SaveLastBlock X b bc)) = txTrie bc"
  "bcMempool (fst (SaveCurrentBlock X b bc)) = bcMempool bc" "bcMempool (fst (SaveLastBlock X b bc)) = bcMempool bc"
  by (simp_all add: SaveCurrentBlock_def SaveLastBlock_def split: sum.splits)

lemma Save_pointer_no_panic [simp]:
  "snd (SaveCurrentBlock X b bc) \<noteq> Panic" "snd (SaveLastBlock X b bc) \<noteq> Panic"
  by (simp_all add: SaveCurrentBlock_def SaveLastBlock_def split: sum.splits)

text \<open>What a block must satisfy to be saved, and where the pointers are afterwards.\<close>

lemma move_pointers_Ok:
  assumes "key_laws X" "move_pointers X b bc = (bc', Ok u)"
  shows "Index b \<noteq> 0 \<Longrightarrow> \<exists>c l. GetCurrentBlock X bc = Ok c \<and> GetLastBlock X bc = Ok l
      \<and> Index b = Index c + 1 \<and> GetLastBlock X bc' = Ok (if Index b > Index l then san_Block b else l)"
    "Index b = 0 \<Longrightarrow> GetLastBlock X bc' = Ok (san_Block b)"
    "GetCurrentBlock X bc' = Ok (san_Block b)" "tr bc' = tr bc"
  using assms(2) SaveCurrentBlock_Ok [OF assms(1)] SaveLastBlock_Ok [OF assms(1)]
  by (auto simp: move_pointers_def word_gt_0 split: outcome.splits if_splits prod.splits)

lemma SaveBlockToTrie_Ok:
  assumes "key_laws X" "SaveBlockToTrie X b bc = (bc', Ok u)"
  obtains bc1 where "move_pointers X b bc = (bc1, Ok ())" "store_block X b bc1 = (bc', Ok u)"
    "GetCurrentBlock X bc' = GetCurrentBlock X bc1" "GetLastBlock X bc' = GetLastBlock X bc1"
proof -
  from assms(2) obtain bc1 where 1: "move_pointers X b bc = (bc1, Ok ())" "store_block X b bc1 = (bc', Ok u)"
    by (auto simp: SaveBlockToTrie_def split: prod.splits outcome.splits)
  from store_block_keys [OF assms(1), of _ b bc1] 1(2)
  have "GetCurrentBlock X bc' = GetCurrentBlock X bc1" "GetLastBlock X bc' = GetLastBlock X bc1"
    by (simp_all add: GetCurrentBlock_def GetLastBlock_def)
  with 1 that show thesis by blast
qed

section \<open>The chain invariant\<close>

definition chain_inv ::
    "('db, 'tr, 'nd, 'tdb) store_ext \<Rightarrow> ('tr \<Rightarrow> bytes \<Rightarrow> bytes option)
      \<Rightarrow> ('db \<Rightarrow> bytes \<Rightarrow> (bytes \<Rightarrow> bytes option) \<Rightarrow> bool) \<Rightarrow> ('db, 'tr) Blockchain \<Rightarrow> bool" where
  "chain_inv X view stored bc \<longleftrightarrow> blk_good X view stored bc
     \<and> (\<exists>c l. GetCurrentBlock X bc = Ok c \<and> GetLastBlock X bc = Ok l \<and> Index c \<le> Index l
          \<and> blk_look view bc (block_key (Index c)) = Some c
          \<and> (\<forall>i \<le> Index c. blk_look view bc (block_key i) \<noteq> None))"

lemma blk_goodD: "blk_good X view stored bc \<Longrightarrow> store_laws X view stored"
  by (simp add: blk_good_def)

lemma chain_inv_cong:
  assumes "same_chain X b bc"
  shows "chain_inv X view stored b \<longleftrightarrow> chain_inv X view stored bc"
  by (simp only: chain_inv_def same_chain_reads [OF assms])

lemma store_block_good:
  assumes "blk_good X view stored bc"
  shows "blk_good X view stored (fst (store_block X b bc))"
proof -
  have "blk_look view (fst (store_block X b bc)) = (blk_look view bc)(block_key (Index b) \<mapsto> san_Block b)"
    by (rule blks.look_save [OF assms])
  with assms show ?thesis by (auto simp: blk_good_def frame_simps)
qed

text \<open>The indices up to a successor.\<close>

lemma le_succ_cases:
  fixes c :: uint64
  assumes "i \<le> c + 1" "c + 1 \<noteq> 0"
  shows "i \<le> c \<or> i = c + 1"
  using assms unat_plus_one_eq [of "c + 1" c] by (auto simp: word_le_nat_alt word_unat_eq_iff)

lemma SaveBlockToTrie_inv:
  assumes good: "blk_good X view stored bc" and inv: "Index b \<noteq> 0 \<Longrightarrow> chain_inv X view stored bc"
    and save: "SaveBlockToTrie X b bc = (bc', Ok u)"
  shows "chain_inv X view stored bc' \<and> GetCurrentBlock X bc' = Ok (san_Block b)
    \<and> blk_look view bc' = (blk_look view bc)(block_key (Index b) \<mapsto> san_Block b)
    \<and> (Index b = 0 \<or> (\<exists>c. GetCurrentBlock X bc = Ok c \<and> Index b = Index c + 1))"
proof -
  note keys = store_key [OF blk_goodD [OF good]]
  from SaveBlockToTrie_Ok [OF keys save] obtain bc1 where bc1: "move_pointers X b bc = (bc1, Ok ())"
    "store_block X b bc1 = (bc', Ok u)" "GetCurrentBlock X bc' = GetCurrentBlock X bc1"
    "GetLastBlock X bc' = GetLastBlock X bc1" by blast
  note mv = move_pointers_Ok [OF keys bc1(1)]
  have look1: "blk_look view bc1 = blk_look view bc" by (rule blk_look_cong [OF mv(4)])
  with mv(4) good have good1: "blk_good X view stored bc1" by (simp add: blk_good_def)
  have look: "blk_look view bc' = (blk_look view bc)(block_key (Index b) \<mapsto> san_Block b)"
    using blks.look_save [OF good1, of b] bc1(2) look1 by simp
  have good': "blk_good X view stored bc'" using store_block_good [OF good1, of b] bc1(2) by simp
  have cur: "GetCurrentBlock X bc' = Ok (san_Block b)" using bc1(3) mv(3) by simp
  show ?thesis
  proof (cases "Index b = 0")
    case True
    have "GetLastBlock X bc' = Ok (san_Block b)" using mv(2) [OF True] bc1(4) by simp
    with True good' cur look show ?thesis by (simp add: chain_inv_def)
  next
    case False
    then obtain c l where cl: "GetCurrentBlock X bc = Ok c" "GetLastBlock X bc = Ok l"
      "Index b = Index c + 1" "GetLastBlock X bc' = Ok (if Index b > Index l then san_Block b else l)"
      using mv(1) bc1(4) by auto
    from inv [OF False] cl(1) have old: "\<forall>i \<le> Index c. blk_look view bc (block_key i) \<noteq> None"
      by (auto simp: chain_inv_def)
    have "blk_look view bc' (block_key i) \<noteq> None" if "i \<le> Index b" for i
      using le_succ_cases [of i "Index c"] that old cl(3) False by (auto simp: look)
    with good' cur cl look show ?thesis by (auto simp: chain_inv_def)
  qed
qed


text \<open>An index that does not follow the current one is refused before anything is written.\<close>

lemma SaveBlockToTrie_bad_index:
  assumes "GetCurrentBlock X bc = Ok c" "GetLastBlock X bc = Ok l" "Index b \<noteq> 0" "Index b \<noteq> Index c + 1"
  shows "SaveBlockToTrie X b bc = (bc, Err (Fail (MsgBadBlockIndex (Index b))))"
  using assms by (simp add: SaveBlockToTrie_def move_pointers_def word_gt_0)

lemma SaveBlockToTrie_no_panic:
  assumes "blk_good X view stored bc"
  shows "snd (SaveBlockToTrie X b bc) \<noteq> Panic"
proof -
  obtain bc1 r where mv: "move_pointers X b bc = (bc1, r)" by (cases "move_pointers X b bc")
  then have "r \<noteq> Panic"
    by (auto simp: move_pointers_def GetCurrentBlock_def GetLastBlock_def SaveCurrentBlock_def
        SaveLastBlock_def split: outcome.splits sum.splits option.splits if_splits prod.splits)
  moreover have "snd (store_block X b bc1) \<noteq> Panic" if "r = Ok u" for u
    using move_pointers_Ok(4) [OF store_key [OF blk_goodD [OF assms]]] mv that assms
    by (simp add: store_block_Panic blk_good_def)
  ultimately show ?thesis using mv by (cases r) (auto simp: SaveBlockToTrie_def)
qed

text \<open>Where no storage call fails, every block that follows is saved.\<close>

lemma store_block_reliable:
  assumes "reliable X stored" "store_laws X view stored" "tr bc \<noteq> None"
  shows "snd (store_block X b bc) = Ok ()"
proof -
  obtain t where t: "tr bc = Some t" using assms(3) by auto
  let ?t1 = "trie_Update X (db bc) t (block_key (Index b)) (marshal_Block b)"
  obtain d t2 r where c: "commit_nodes X (db bc) ?t1 = (d, t2, Inr r)"
    using commit_nodes_reliable [OF assms(1)] by blast
  obtain t' where r: "RestoreTrieFromRootHash X d r = Inr t'"
    using restore_reliable [OF assms(1) commit_nodes_stored [OF store_node [OF assms(2)] c]] by blast
  obtain d' where "db_Put X d ROOT_HASH r = Inr d'"
    using rel_put [OF assms(1)] db_keys_member by blast
  with t c r show ?thesis by (simp add: store_block_def)
qed

lemma SaveBlockToTrie_reliable:
  assumes rel: "reliable X stored" and good: "blk_good X view stored bc"
    and ix: "Index b = 0 \<or> (\<exists>c l. GetCurrentBlock X bc = Ok c \<and> GetLastBlock X bc = Ok l \<and> Index b = Index c + 1)"
  shows "snd (SaveBlockToTrie X b bc) = Ok ()"
proof -
  have put: "\<exists>d'. db_Put X d k v = Inr d'" if "k \<in> set db_keys" for d k v
    by (rule rel_put [OF rel that])
  have sc: "snd (SaveCurrentBlock X b s) = Ok ()" and sl: "snd (SaveLastBlock X b s) = Ok ()"
    for s :: "('a, 'b) Blockchain"
    using put [of CURRENT_BLOCK "db s" "marshal_Block b"] put [of LAST_BLOCK "db s" "marshal_Block b"]
    by (auto simp: SaveCurrentBlock_def SaveLastBlock_def)
  have mv: "snd (move_pointers X b bc) = Ok ()"
    using ix sc [of bc] sl [of "fst (SaveCurrentBlock X b bc)"]
    by (auto simp: move_pointers_def word_gt_0 split: prod.splits)
  obtain bc1 where bc1: "move_pointers X b bc = (bc1, Ok ())"
    using mv by (cases "move_pointers X b bc") auto
  have "tr bc1 = tr bc" by (rule move_pointers_Ok(4) [OF store_key [OF blk_goodD [OF good]] bc1])
  then have "snd (store_block X b bc1) = Ok ()"
    using store_block_reliable [OF rel blk_goodD [OF good], of bc1 b] good by (simp add: blk_good_def)
  with bc1 show ?thesis by (simp add: SaveBlockToTrie_def)
qed

lemma SaveBlockToTrie_frame [frame_simps]:
  "accTrie (fst (SaveBlockToTrie X b bc)) = accTrie bc" "txTrie (fst (SaveBlockToTrie X b bc)) = txTrie bc"
  "bcConfig (fst (SaveBlockToTrie X b bc)) = bcConfig bc" "bcMempool (fst (SaveBlockToTrie X b bc)) = bcMempool bc"
proof -
  have 1: "accTrie (fst (move_pointers X b bc)) = accTrie bc" "txTrie (fst (move_pointers X b bc)) = txTrie bc"
    "bcConfig (fst (move_pointers X b bc)) = bcConfig bc" "bcMempool (fst (move_pointers X b bc)) = bcMempool bc"
    by (auto simp: move_pointers_def SaveCurrentBlock_def SaveLastBlock_def
        split: outcome.splits prod.splits sum.splits)
  obtain bc1 r where bc1: "move_pointers X b bc = (bc1, r)" by (cases "move_pointers X b bc")
  show "accTrie (fst (SaveBlockToTrie X b bc)) = accTrie bc" "txTrie (fst (SaveBlockToTrie X b bc)) = txTrie bc"
    "bcConfig (fst (SaveBlockToTrie X b bc)) = bcConfig bc" "bcMempool (fst (SaveBlockToTrie X b bc)) = bcMempool bc"
    using 1 bc1 by (cases r; simp add: SaveBlockToTrie_def frame_simps)+
qed

section \<open>A concrete chain\<close>

definition demo_genesis :: "(ref_db, ref_trie) Blockchain" where
  "demo_genesis = fst (SaveBlockToTrie ref_store (GetGenesisBlock 0) demo_accounts)"

lemma genesis_san [simp]: "san_Block (GetGenesisBlock now) = GetGenesisBlock now"
  by (simp add: san_Block_def san_header_def GetGenesisBlock_def zero_BlockHeader_def to_valid_ascii ascii_def)

lemma genesis_index [simp]: "Index (GetGenesisBlock now) = 0" "Signature (Header (GetGenesisBlock now)) = []"
  by (simp_all add: GetGenesisBlock_def zero_BlockHeader_def)

lemma demo_blk_good: "blk_good ref_store map_of ref_stored demo_accounts"
  by (simp add: blk_good_def ref_store_laws demo_accounts_def frame_simps demo_empty_def blk_look_def)

lemma demo_genesis_inv:
  "chain_inv ref_store map_of ref_stored demo_genesis"
  "GetCurrentBlock ref_store demo_genesis = Ok (GetGenesisBlock 0)"
  "GetLastBlock ref_store demo_genesis = Ok (GetGenesisBlock 0)"
  "blk_look map_of demo_genesis = [block_key 0 \<mapsto> GetGenesisBlock 0]"
proof -
  have "snd (SaveBlockToTrie ref_store (GetGenesisBlock 0) demo_accounts) = Ok ()"
    by (rule SaveBlockToTrie_reliable [OF ref_reliable demo_blk_good]) simp
  then have s: "SaveBlockToTrie ref_store (GetGenesisBlock 0) demo_accounts = (demo_genesis, Ok ())"
    by (cases "SaveBlockToTrie ref_store (GetGenesisBlock 0) demo_accounts") (simp add: demo_genesis_def)
  have 0: "blk_look map_of demo_accounts = Map.empty"
    by (simp add: demo_accounts_def frame_simps demo_empty_def blk_look_def fun_eq_iff)
  from SaveBlockToTrie_inv [OF demo_blk_good _ s] 0
  show "chain_inv ref_store map_of ref_stored demo_genesis"
    "GetCurrentBlock ref_store demo_genesis = Ok (GetGenesisBlock 0)"
    "blk_look map_of demo_genesis = [block_key 0 \<mapsto> GetGenesisBlock 0]" by simp_all
  from SaveBlockToTrie_Ok [OF ref_key_laws s] obtain bc1 where
    "move_pointers ref_store (GetGenesisBlock 0) demo_accounts = (bc1, Ok ())"
    "GetLastBlock ref_store demo_genesis = GetLastBlock ref_store bc1" by blast
  with move_pointers_Ok(2) [OF ref_key_laws this(1)]
  show "GetLastBlock ref_store demo_genesis = Ok (GetGenesisBlock 0)" by simp
qed

lemma demo_genesis_frame [simp]:
  "accTrie demo_genesis = accTrie demo_accounts" "txTrie demo_genesis = txTrie demo_accounts"
  "bcConfig demo_genesis = zero_Config" "bcMempool demo_genesis = Some NewMempool"
  by (simp_all add: demo_genesis_def frame_simps demo_accounts_def demo_empty_def)

lemma demo_genesis_look [simp]:
  "acc_look map_of demo_genesis = [''0xa'' \<mapsto> alice, ''0xb'' \<mapsto> bob]"
  "tx_look map_of demo_genesis = Map.empty"
  using acc_look_cong [of demo_genesis demo_accounts map_of] tx_look_cong [of demo_genesis demo_accounts map_of]
  by (simp_all add: demo_accounts_look)

lemma demo_genesis_good: "store_good ref_store map_of ref_stored demo_genesis"
  using acc_good_cong [of demo_genesis demo_accounts ref_store map_of ref_stored]
    tx_good_cong [of demo_genesis demo_accounts ref_store map_of ref_stored] demo_accounts_good
  by (simp add: store_good_def)


text \<open>A node of the demo network: its configuration, and the keys of nodes 1 to 3.\<close>

definition demo_sk :: "char \<Rightarrow> bytes" where
  "demo_sk c = char_of (4::nat) # replicate 64 c"

definition demo_pub :: "char \<Rightarrow> string" where
  "demo_pub c = hex_digits (replicate 64 c)"

definition demo_config :: "int \<Rightarrow> bytes \<Rightarrow> Config" where
  "demo_config i key = \<lparr>Nodes =
       [\<lparr>NodePublicKey = demo_pub CHR ''p'', URL = [], NodeIndex = 1, ApiUrl = []\<rparr>,
        \<lparr>NodePublicKey = demo_pub CHR ''q'', URL = [], NodeIndex = 2, ApiUrl = []\<rparr>,
        \<lparr>NodePublicKey = demo_pub CHR ''r'', URL = [], NodeIndex = 3, ApiUrl = []\<rparr>],
     PrivateKeyHex = key, ConfigIndex = i\<rparr>"

definition demo_node :: "int \<Rightarrow> bytes \<Rightarrow> (ref_db, ref_trie) Blockchain" where
  "demo_node i key = demo_genesis\<lparr>bcConfig := demo_config i key\<rparr>"

lemma demo_pub_hex: "''0x04'' @ demo_pub c = hex_Encode ref_crypto (demo_sk c)"
  by (simp add: demo_pub_def demo_sk_def ref_crypto_def hex_char_def)
    (simp add: char_of_def bit_0)

lemma demo_pub_decode: "hex_Decode ref_crypto (''0x04'' @ demo_pub c) = Inr (demo_sk c)"
  unfolding demo_pub_hex by (rule law_hex [OF ref_crypto_laws])

lemma ref_key_demo [simp]: "ref_key (demo_sk c) = Inr (demo_sk c)"
  by (simp add: ref_key_def demo_sk_def)

lemma config_reads [simp]:
  "GetCurrentBlock X (bc\<lparr>bcConfig := cfg\<rparr>) = GetCurrentBlock X bc"
  "GetLastBlock X (bc\<lparr>bcConfig := cfg\<rparr>) = GetLastBlock X bc"
  "blk_look view (bc\<lparr>bcConfig := cfg\<rparr>) = blk_look view bc"
  "acc_look view (bc\<lparr>bcConfig := cfg\<rparr>) = acc_look view bc"
  "tx_look view (bc\<lparr>bcConfig := cfg\<rparr>) = tx_look view bc"
  "blk_good X view stored (bc\<lparr>bcConfig := cfg\<rparr>) = blk_good X view stored bc"
  "acc_good X view stored (bc\<lparr>bcConfig := cfg\<rparr>) = acc_good X view stored bc"
  "tx_good X view stored (bc\<lparr>bcConfig := cfg\<rparr>) = tx_good X view stored bc"
proof -
  let ?b = "bc\<lparr>bcConfig := cfg\<rparr>"
  show b: "blk_look view ?b = blk_look view bc" by (rule blk_look_cong) simp
  show "acc_look view ?b = acc_look view bc" by (rule acc_look_cong) simp
  show "tx_look view ?b = tx_look view bc" by (rule tx_look_cong) simp
  show "acc_good X view stored ?b = acc_good X view stored bc" by (rule acc_good_cong) simp
  show "tx_good X view stored ?b = tx_good X view stored bc" by (rule tx_good_cong) simp
  show "blk_good X view stored ?b = blk_good X view stored bc" using b by (simp add: blk_good_def)
qed (simp_all add: GetCurrentBlock_def GetLastBlock_def)

lemma demo_node_facts:
  "chain_inv ref_store map_of ref_stored (demo_node i key)"
  "store_good ref_store map_of ref_stored (demo_node i key)"
  "GetCurrentBlock ref_store (demo_node i key) = Ok (GetGenesisBlock 0)"
  "GetLastBlock ref_store (demo_node i key) = Ok (GetGenesisBlock 0)"
  "blk_look map_of (demo_node i key) = [block_key 0 \<mapsto> GetGenesisBlock 0]"
  "acc_look map_of (demo_node i key) = [''0xa'' \<mapsto> alice, ''0xb'' \<mapsto> bob]"
  "tx_look map_of (demo_node i key) = Map.empty"
  "bcConfig (demo_node i key) = demo_config i key" "bcMempool (demo_node i key) = Some NewMempool"
  using demo_genesis_inv demo_genesis_good
  by (simp_all add: demo_node_def chain_inv_def store_good_def)

end
