(* ===== verification/Chain_Props.thy ===== *)
theory Chain_Props
  imports Chain
begin

text \<open>
  The properties of the protocol: the chain grows by one block at a time and has no gaps,
  who may propose which block, and what acceptance checks and does not check.
\<close>

section \<open>The schedule\<close>

lemma my_turn_uint:
  "my_turn c i \<longleftrightarrow> ((uint (c + 1) - i) mod 2 ^ 64) mod 3 = 0"
proof -
  have "(c + 1 - word_of_int i) mod 3 = 0 \<longleftrightarrow> uint ((c + 1 - word_of_int i) mod 3) = 0"
    by (simp add: uint_0_iff)
  also have "uint ((c + 1 - word_of_int i) mod 3) = uint (c + 1 - word_of_int i) mod 3"
    by (simp add: uint_mod)
  also have "uint (c + 1 - word_of_int i :: uint64) = (uint (c + 1) - i) mod 2 ^ 64"
    by (simp add: uint_word_ariths uint_word_of_int mod_diff_right_eq)
  finally show ?thesis by (simp add: my_turn_def)
qed

text \<open>
  C17. The proposal schedule. For the next block \<open>n\<close> (the current index plus one, without
  overflow) and a node index from 1 to 3, the node may propose \<open>n\<close> exactly when
  \<open>n\<close> and its index agree modulo 3, but where \<open>n\<close> is smaller than the index the
  unsigned subtraction wraps around and the condition is off by one.
\<close>

theorem proposal_schedule:
  assumes "1 \<le> i" "i \<le> 3"
  shows "my_turn c i \<longleftrightarrow>
    (if i \<le> uint (c + 1) then uint (c + 1) mod 3 = i mod 3 else (uint (c + 1) + 1) mod 3 = i mod 3)"
proof -
  have n: "0 \<le> uint (c + 1)" "uint (c + 1) < 2 ^ 64" using uint_lt2p [of "c + 1"] by simp_all
  show ?thesis
  proof (cases "i \<le> uint (c + 1)")
    case True
    then have "(uint (c + 1) - i) mod 2 ^ 64 = uint (c + 1) - i"
      using n assms by (intro mod_pos_pos_trivial) linarith+
    with True show ?thesis by (simp add: my_turn_uint mod_eq_dvd_iff mod_eq_0_iff_dvd)
  next
    case False
    have "(uint (c + 1) - i) mod 2 ^ 64 = (uint (c + 1) - i + 2 ^ 64) mod 2 ^ 64" by simp
    also have "\<dots> = uint (c + 1) - i + 2 ^ 64"
    proof (rule mod_pos_pos_trivial)
      have "(3::int) \<le> 2 ^ 64" by simp
      then show "0 \<le> uint (c + 1) - i + 2 ^ 64" using n assms by linarith
      show "uint (c + 1) - i + 2 ^ 64 < 2 ^ 64" using False by linarith
    qed
    finally have "(uint (c + 1) - i) mod 2 ^ 64 = uint (c + 1) - i + 2 ^ 64" .
    moreover have "(m - i + 2 ^ 64) mod 3 = 0 \<longleftrightarrow> (m + 1) mod 3 = i mod 3" for m :: int
    proof -
      have "(m - i + 2 ^ 64) mod 3 = (m + 1 - i) mod 3" by (simp; presburger)
      moreover have "(m + 1 - i) mod 3 = 0 \<longleftrightarrow> (m + 1) mod 3 = i mod 3"
        by (simp add: mod_eq_dvd_iff mod_eq_0_iff_dvd)
      ultimately show ?thesis by (simp only:)
    qed
    ultimately show ?thesis using False by (simp add: my_turn_uint)
  qed
qed

lemma proposal_schedule_witness: "my_turn 0 1 \<and> my_turn 0 2 \<and> \<not> my_turn 0 3 \<and> my_turn 3 1"
  using proposal_schedule [of 1 0] proposal_schedule [of 2 0] proposal_schedule [of 3 0]
    proposal_schedule [of 1 3] by simp


section \<open>Growth of the chain\<close>

text \<open>
  C9. Saving a block extends the chain. A block after the genesis block is saved only if
  its index follows the current one; it becomes the current block, every other block stays as
  it is, and the chain still has no gaps.
\<close>

theorem save_block_extends_chain:
  assumes "chain_inv X view stored bc" "SaveBlockToTrie X b bc = (bc', Ok u)" "Index b \<noteq> 0"
  shows "chain_inv X view stored bc'
    \<and> (\<exists>c. GetCurrentBlock X bc = Ok c \<and> Index b = Index c + 1)
    \<and> GetCurrentBlock X bc' = Ok (san_Block b)
    \<and> blk_look view bc' = (blk_look view bc)(block_key (Index b) \<mapsto> san_Block b)"
proof -
  have "blk_good X view stored bc" using assms(1) by (simp add: chain_inv_def)
  from SaveBlockToTrie_inv [OF this _ assms(2)] assms(1,3) show ?thesis by blast
qed

definition demo_block :: "uint64 \<Rightarrow> string \<Rightarrow> Block" where
  "demo_block i sig = \<lparr>Header = zero_BlockHeader\<lparr>Signature := sig\<rparr>, Index = i, Txns = Some []\<rparr>"

lemma demo_block_simps [simp]:
  "Index (demo_block i sig) = i" "Signature (Header (demo_block i sig)) = sig" "Txns (demo_block i sig) = Some []"
  "ascii sig \<Longrightarrow> san_Block (demo_block i sig) = demo_block i sig"
  by (simp_all add: demo_block_def zero_BlockHeader_def san_Block_def san_header_def to_valid_ascii)

lemma demo_save:
  assumes "chain_inv ref_store map_of ref_stored bc" "GetCurrentBlock ref_store bc = Ok c"
    "Index b = Index c + 1"
  obtains bc' where "SaveBlockToTrie ref_store b bc = (bc', Ok ())"
proof -
  from assms have "snd (SaveBlockToTrie ref_store b bc) = Ok ()"
    by (intro SaveBlockToTrie_reliable [OF ref_reliable]) (auto simp: chain_inv_def)
  with that show thesis by (cases "SaveBlockToTrie ref_store b bc") simp
qed

lemma save_block_extends_chain_witness:
  "case SaveBlockToTrie ref_store (demo_block 1 ''sig'') demo_genesis of
     (bc', r) \<Rightarrow> r = Ok () \<and> GetCurrentBlock ref_store bc' = Ok (demo_block 1 ''sig'')"
proof -
  obtain bc' where s: "SaveBlockToTrie ref_store (demo_block 1 ''sig'') demo_genesis = (bc', Ok ())"
    using demo_save [OF demo_genesis_inv(1,2), of "demo_block 1 ''sig''"] by auto
  from save_block_extends_chain [OF demo_genesis_inv(1) s] s show ?thesis by (simp add: ascii_def)
qed

text \<open>What \<open>ProposeNewBlock\<close> does when it gets as far as saving.\<close>

lemma ProposeNewBlock_cases:
  assumes "ProposeNewBlock X C now ks bc = (bc', r)" "key_laws X"
  obtains (early) "same_chain X bc' bc" "\<forall>b. r \<noteq> Ok b" "\<forall>e. r \<noteq> Err (Wrap MsgSaveBlock e)"
  | (saved) c bc1 ids sig u where "GetCurrentBlock X bc = Ok c" "CheckProposalCondition X bc"
      "same_chain X bc1 bc" "ProcessMempoolTransactions X C ks bc = (bc1, ids, Ok ())"
      "SignMerkleRoot C (PrivateKeyHex (bcConfig bc)) (block_key (Index c + 1)) = Ok sig"
      "SaveBlockToTrie X (new_block c now sig ids) bc1 = (bc', u)"
      "u = Ok () \<and> r = Ok (new_block c now sig ids) \<or> u = Panic \<and> r = Panic
        \<or> (\<exists>e. u = Err e \<and> r = Err (Wrap MsgSaveBlock e))"
proof (cases "\<exists>c bc1 ids sig. GetCurrentBlock X bc = Ok c \<and> CheckProposalCondition X bc
    \<and> ProcessMempoolTransactions X C ks bc = (bc1, ids, Ok ())
    \<and> SignMerkleRoot C (PrivateKeyHex (bcConfig bc1)) (block_key (Index c + 1)) = Ok sig")
  case True
  then obtain c bc1 ids sig where h: "GetCurrentBlock X bc = Ok c" "CheckProposalCondition X bc"
    "ProcessMempoolTransactions X C ks bc = (bc1, ids, Ok ())"
    "SignMerkleRoot C (PrivateKeyHex (bcConfig bc1)) (block_key (Index c + 1)) = Ok sig" by blast
  have same: "same_chain X bc1 bc" by (rule same_chain_mempool [OF assms(2) h(3)])
  obtain b2 u where u: "SaveBlockToTrie X (new_block c now sig ids) bc1 = (b2, u)"
    by (cases "SaveBlockToTrie X (new_block c now sig ids) bc1")
  from assms(1) h u have "bc' = b2" "u = Ok () \<and> r = Ok (new_block c now sig ids) \<or> u = Panic \<and> r = Panic
      \<or> (\<exists>e. u = Err e \<and> r = Err (Wrap MsgSaveBlock e))"
    by (cases u; simp add: ProposeNewBlock_def Let_def)+
  with saved [OF h(1,2) same h(3)] h(4) u same show thesis by (simp add: same_chain_def)
next
  case False
  obtain bc1 ids q where p: "ProcessMempoolTransactions X C ks bc = (bc1, ids, q)"
    by (cases "ProcessMempoolTransactions X C ks bc")
  have same: "same_chain X bc1 bc" by (rule same_chain_mempool [OF assms(2) p])
  from assms(1) p False same have "same_chain X bc' bc \<and> (\<forall>b. r \<noteq> Ok b) \<and> (\<forall>e. r \<noteq> Err (Wrap MsgSaveBlock e))"
    by (auto simp: ProposeNewBlock_def Let_def split: outcome.splits if_splits)
  with early show thesis by blast
qed

text \<open>
  C5. Proposing extends the chain. A proposed block has the index after the current one,
  names the current block's Merkle root as its predecessor, carries a signature that the
  proposer's public key verifies, lists the IDs that processing the mempool returned, and
  is the current block afterwards; the chain has no gaps. Every other outcome but a failed
  save leaves the chain without gaps too.
\<close>

theorem propose_extends_chain:
  assumes "chain_inv X view stored bc" "crypto_laws C" "ProposeNewBlock X C now ks bc = (bc', r)"
  shows "(\<forall>b. r = Ok b \<longrightarrow>
      (\<exists>c sk. GetCurrentBlock X bc = Ok c \<and> Index b = Index c + 1
        \<and> PreviousBlockHeader (Header b) = MerkleRoot (Header c)
        \<and> Txns b = Some (fst (snd (ProcessMempoolTransactions X C ks bc)))
        \<and> HexToECDSA C (PrivateKeyHex (bcConfig bc)) = Inr sk
        \<and> VerifySignature C (hex_Encode C (FromECDSAPub C (PublicOf C sk))) (block_key (Index b))
            (Signature (Header b)) = Ok True
        \<and> GetCurrentBlock X bc' = Ok (san_Block b)))
    \<and> ((\<forall>e. r \<noteq> Err (Wrap MsgSaveBlock e)) \<longrightarrow> chain_inv X view stored bc')"
proof -
  have good: "blk_good X view stored bc" using assms(1) by (simp add: chain_inv_def)
  note keys = store_key [OF blk_goodD [OF good]]
  from assms(3) keys show ?thesis
  proof (cases rule: ProposeNewBlock_cases)
    case early
    then show ?thesis using assms(1) by (simp add: chain_inv_cong)
  next
    case (saved c bc1 ids sig u)
    have inv1: "chain_inv X view stored bc1" using assms(1) saved(3) by (simp add: chain_inv_cong)
    then have good1: "blk_good X view stored bc1" by (simp add: chain_inv_def)
    have np: "u \<noteq> Panic" using SaveBlockToTrie_no_panic [OF good1] saved(6) by (metis snd_conv)
    show ?thesis
    proof (cases u)
      case (Ok v)
      then have r: "r = Ok (new_block c now sig ids)" using saved(7) by auto
      from saved(5) obtain sk s where sk: "HexToECDSA C (PrivateKeyHex (bcConfig bc)) = Inr sk"
        "Sign C (Keccak256Hash C (block_key (Index c + 1))) sk = Inr s" "sig = hex_Encode C s"
        by (auto simp: SignMerkleRoot_Ok)
      have "VerifySignature C (hex_Encode C (FromECDSAPub C (PublicOf C sk))) (block_key (Index c + 1)) sig = Ok True"
        using sk law_hex [OF assms(2)] law_public [OF assms(2) sk(1)] law_recover [OF assms(2) sk(2)]
        by (simp add: VerifySignature_Ok)
      moreover have "chain_inv X view stored bc'" "GetCurrentBlock X bc' = Ok (san_Block (new_block c now sig ids))"
        using SaveBlockToTrie_inv [OF good1 inv1] saved(6) Ok by auto
      ultimately show ?thesis
        using r sk(1) saved(1,4) by (auto simp: new_block_def zero_BlockHeader_def)
    next
      case (Err e)
      then show ?thesis using saved(7) by auto
    next
      case Panic
      then show ?thesis using np by simp
    qed
  qed
qed


lemma propose_extends_chain_witness:
  "case ProposeNewBlock ref_store ref_crypto 9 [] (demo_node 1 (demo_sk CHR ''p'')) of
     (bc', r) \<Rightarrow> \<exists>b. r = Ok b \<and> Index b = 1 \<and> GetCurrentBlock ref_store bc' = Ok (san_Block b)"
proof -
  let ?bc = "demo_node 1 (demo_sk CHR ''p'')"
  obtain bc' r where p: "ProposeNewBlock ref_store ref_crypto 9 [] ?bc = (bc', r)"
    by (cases "ProposeNewBlock ref_store ref_crypto 9 [] ?bc")
  have turn: "my_turn 0 1" by (simp add: my_turn_def)
  have proc: "ProcessMempoolTransactions ref_store ref_crypto [] ?bc = (?bc, [], Ok ())"
    by (simp add: ProcessMempoolTransactions_def demo_node_facts GetAllTransactions_def List.map_filter_def)
  have sign: "\<exists>sig. SignMerkleRoot ref_crypto (demo_sk CHR ''p'') m = Ok sig" for m
    by (simp add: SignMerkleRoot_def ref_crypto_def)
  then obtain sig where sig: "SignMerkleRoot ref_crypto (demo_sk CHR ''p'') (block_key 1) = Ok sig" by blast
  obtain bc2 where save: "SaveBlockToTrie ref_store (new_block (GetGenesisBlock 0) 9 sig []) ?bc = (bc2, Ok ())"
    using demo_save [OF demo_node_facts(1,3), of "new_block (GetGenesisBlock 0) 9 sig []"]
    by (auto simp: new_block_def)
  have "r = Ok (new_block (GetGenesisBlock 0) 9 sig [])"
    using p turn proc sig save by (simp add: ProposeNewBlock_def CheckProposalCondition_def demo_node_facts demo_config_def)
  with propose_extends_chain [OF demo_node_facts(1) ref_crypto_laws p] p show ?thesis
    by (auto simp: demo_node_facts)
qed

section \<open>Accepting a block\<close>

lemma HandleNewBlock_cases:
  assumes "HandleNewBlock X C net b bc = (bc', r)" "key_laws X"
  obtains (early) "same_chain X bc' bc" "r = Ok () \<Longrightarrow> Index b = 0 \<and> bc' = bc"
      "\<forall>e. r \<noteq> Err (Wrap MsgSaveBlock e)"
  | (saved) node v bc1 u where "Index b \<noteq> 0" "existing_signature X (Index b) bc = Ok []"
      "GetNodeConfigByIndex (uint (Index b mod 3) + 1) bc = Ok node"
      "VerifySignature C (''0x04'' @ NodePublicKey node) (block_key (Index b)) (Signature (Header b)) = Ok v"
      "ProcessTransactionsByIDs X C net (Txns b) bc = (bc1, Ok ())" "same_chain X bc1 bc"
      "SaveBlockToTrie X b bc1 = (bc', u)"
      "u = Ok () \<and> r = Ok () \<or> u = Panic \<and> r = Panic \<or> (\<exists>e. u = Err e \<and> r = Err (Wrap MsgSaveBlock e))"
proof (cases "\<exists>node v bc1. Index b \<noteq> 0 \<and> existing_signature X (Index b) bc = Ok []
    \<and> GetNodeConfigByIndex (uint (Index b mod 3) + 1) bc = Ok node
    \<and> VerifySignature C (''0x04'' @ NodePublicKey node) (block_key (Index b)) (Signature (Header b)) = Ok v
    \<and> ProcessTransactionsByIDs X C net (Txns b) bc = (bc1, Ok ())")
  case True
  then obtain node v bc1 where h: "Index b \<noteq> 0" "existing_signature X (Index b) bc = Ok []"
    "GetNodeConfigByIndex (uint (Index b mod 3) + 1) bc = Ok node"
    "VerifySignature C (''0x04'' @ NodePublicKey node) (block_key (Index b)) (Signature (Header b)) = Ok v"
    "ProcessTransactionsByIDs X C net (Txns b) bc = (bc1, Ok ())" by blast
  obtain b2 u where u: "SaveBlockToTrie X b bc1 = (b2, u)" by (cases "SaveBlockToTrie X b bc1")
  from assms(1) h u have "bc' = b2"
    "u = Ok () \<and> r = Ok () \<or> u = Panic \<and> r = Panic \<or> (\<exists>e. u = Err e \<and> r = Err (Wrap MsgSaveBlock e))"
    by (cases u; simp add: HandleNewBlock_def)+
  with saved [OF h same_chain_ids [OF assms(2) h(5)]] u show thesis by simp
next
  case False
  obtain bc1 q where p: "ProcessTransactionsByIDs X C net (Txns b) bc = (bc1, q)"
    by (cases "ProcessTransactionsByIDs X C net (Txns b) bc")
  have same: "same_chain X bc1 bc" by (rule same_chain_ids [OF assms(2) p])
  have ex: "existing_signature X i bc \<noteq> Err e" for i e
    by (simp add: existing_signature_def split: outcome.splits)
  from assms(1) p False same ex have "same_chain X bc' bc \<and> (r = Ok () \<longrightarrow> Index b = 0 \<and> bc' = bc)
      \<and> (\<forall>e. r \<noteq> Err (Wrap MsgSaveBlock e))"
    by (auto simp: HandleNewBlock_def split: outcome.splits if_splits)
  with early show thesis by blast
qed

text \<open>
  C4. Accepting a block extends the chain. A block that is accepted (other than one with
  index 0, which is ignored) follows the current block, replaces no signed block, and is the
  current block afterwards; the chain has no gaps. Every other outcome but a failed save
  leaves the chain without gaps too, and keeps every block.
\<close>

theorem accept_extends_chain:
  assumes "chain_inv X view stored bc" "HandleNewBlock X C net b bc = (bc', r)"
  shows "(r = Ok () \<and> Index b \<noteq> 0 \<longrightarrow>
       (\<exists>c. GetCurrentBlock X bc = Ok c \<and> Index b = Index c + 1)
       \<and> existing_signature X (Index b) bc = Ok []
       \<and> GetCurrentBlock X bc' = Ok (san_Block b)
       \<and> blk_look view bc' = (blk_look view bc)(block_key (Index b) \<mapsto> san_Block b))
    \<and> (r = Ok () \<and> Index b = 0 \<longrightarrow> bc' = bc)
    \<and> ((\<forall>e. r \<noteq> Err (Wrap MsgSaveBlock e)) \<longrightarrow> chain_inv X view stored bc')"
proof -
  have good: "blk_good X view stored bc" using assms(1) by (simp add: chain_inv_def)
  from assms(2) store_key [OF blk_goodD [OF good]] show ?thesis
  proof (cases rule: HandleNewBlock_cases)
    case early
    then show ?thesis using assms(1) by (auto simp: chain_inv_cong)
  next
    case (saved node v bc1 u)
    have inv1: "chain_inv X view stored bc1" using assms(1) saved(6) by (simp add: chain_inv_cong)
    then have good1: "blk_good X view stored bc1" by (simp add: chain_inv_def)
    have np: "u \<noteq> Panic" using SaveBlockToTrie_no_panic [OF good1] saved(7) by (metis snd_conv)
    show ?thesis
    proof (cases u)
      case (Ok w)
      have s: "SaveBlockToTrie X b bc1 = (bc', Ok w)" using saved(7) Ok by simp
      from SaveBlockToTrie_inv [OF good1 inv1 s] saved(1,2,6,8) Ok same_chain_reads [OF saved(6)]
      show ?thesis by auto
    next
      case (Err e)
      then show ?thesis using saved(8) by auto
    qed (use np in simp)
  qed
qed

text \<open>A block that follows the current one, has no transactions and any decodable signature.\<close>

lemma handle_accepts:
  assumes rel: "reliable X stored" and inv: "chain_inv X view stored bc" and cur: "GetCurrentBlock X bc = Ok c"
    and ix: "Index b = Index c + 1" "Index b \<noteq> 0" and none: "blk_look view bc (block_key (Index b)) = None"
    and node: "GetNodeConfigByIndex (uint (Index b mod 3) + 1) bc = Ok node"
    and ver: "VerifySignature C (''0x04'' @ NodePublicKey node) (block_key (Index b)) (Signature (Header b)) = Ok v"
    and proc: "ProcessTransactionsByIDs X C net (Txns b) bc = (bc1, Ok ())"
  shows "\<exists>bc'. HandleNewBlock X C net b bc = (bc', Ok ())"
proof -
  have good: "blk_good X view stored bc" using inv by (simp add: chain_inv_def)
  note keys = store_key [OF blk_goodD [OF good]]
  have ex: "existing_signature X (Index b) bc = Ok []"
  proof -
    have "GetBlockFromTrie X (block_key (Index b)) bc \<noteq> Ok b'" for b'
      using blks.look_get [OF good] none by fastforce
    moreover have "GetBlockFromTrie X (block_key (Index b)) bc \<noteq> Panic" by (rule blks.get_no_panic [OF good])
    ultimately show ?thesis
      by (simp add: existing_signature_def zero_Block_def zero_BlockHeader_def split: outcome.splits)
  qed
  have same: "same_chain X bc1 bc" by (rule same_chain_ids [OF keys proc])
  have "chain_inv X view stored bc1" using inv same by (simp add: chain_inv_cong)
  then have "snd (SaveBlockToTrie X b bc1) = Ok ()"
    using cur ix same_chain_reads [OF same] by (intro SaveBlockToTrie_reliable [OF rel]) (auto simp: chain_inv_def)
  then obtain bc' where "SaveBlockToTrie X b bc1 = (bc', Ok ())" by (cases "SaveBlockToTrie X b bc1") simp
  with ix ex node ver proc show ?thesis by (simp add: HandleNewBlock_def)
qed

lemma demo_find_node: "GetNodeConfigByIndex 2 (demo_node i key) = Ok
    \<lparr>NodePublicKey = demo_pub CHR ''q'', URL = [], NodeIndex = 2, ApiUrl = []\<rparr>"
  by (simp add: GetNodeConfigByIndex_def demo_node_facts demo_config_def)

lemma demo_verify:
  assumes "SignMerkleRoot ref_crypto (demo_sk c) m = Ok sig"
  shows "VerifySignature ref_crypto (''0x04'' @ demo_pub d) m sig = Ok (demo_sk d = demo_sk c)"
proof -
  from assms obtain sk s where sk: "HexToECDSA ref_crypto (demo_sk c) = Inr sk"
    "Sign ref_crypto (Keccak256Hash ref_crypto m) sk = Inr s" "sig = hex_Encode ref_crypto s"
    by (auto simp: SignMerkleRoot_Ok)
  have ids: "HexToECDSA ref_crypto = ref_key" "FromECDSAPub ref_crypto k = k" "PublicOf ref_crypto k = k"
    "UnmarshalPubkey ref_crypto = ref_key" for k by (simp_all add: ref_crypto_def)
  with sk(1) have skc: "sk = demo_sk c" by simp
  show ?thesis
    unfolding VerifySignature_Ok
    using sk(3) law_hex [OF ref_crypto_laws] demo_pub_decode law_recover [OF ref_crypto_laws sk(2)]
    by (auto simp: ids skc)
qed

lemma demo_sign: "\<exists>sig. SignMerkleRoot ref_crypto (demo_sk c) m = Ok sig"
  by (simp add: SignMerkleRoot_def ref_crypto_def)

lemma demo_keys_differ: "demo_sk CHR ''q'' \<noteq> demo_sk CHR ''p''"
  by (simp add: demo_sk_def)

lemma accept_extends_chain_witness:
  "\<exists>sig. case HandleNewBlock ref_store ref_crypto (\<lambda>_. P2PTimeout) (demo_block 1 sig) (demo_node 2 []) of
     (bc', r) \<Rightarrow> r = Ok () \<and> GetCurrentBlock ref_store bc' = Ok (san_Block (demo_block 1 sig))"
proof -
  obtain sig where sig: "SignMerkleRoot ref_crypto (demo_sk CHR ''q'') (block_key 1) = Ok sig"
    using demo_sign by blast
  have one: "uint ((1::uint64) mod 3) + 1 = 2" by simp
  have "\<exists>bc'. HandleNewBlock ref_store ref_crypto (\<lambda>_. P2PTimeout) (demo_block 1 sig) (demo_node 2 []) = (bc', Ok ())"
    by (rule handle_accepts [OF ref_reliable demo_node_facts(1,3)])
      (use demo_verify [OF sig] in \<open>auto simp: demo_node_facts one demo_find_node ProcessTransactionsByIDs_def\<close>)
  then obtain bc' where h: "HandleNewBlock ref_store ref_crypto (\<lambda>_. P2PTimeout) (demo_block 1 sig) (demo_node 2 [])
      = (bc', Ok ())" by blast
  from accept_extends_chain [OF demo_node_facts(1) h]
  have "GetCurrentBlock ref_store bc' = Ok (san_Block (demo_block 1 sig))" by auto
  with h have "case HandleNewBlock ref_store ref_crypto (\<lambda>_. P2PTimeout) (demo_block 1 sig) (demo_node 2 []) of
     (bc', r) \<Rightarrow> r = Ok () \<and> GetCurrentBlock ref_store bc' = Ok (san_Block (demo_block 1 sig))" by simp
  then show ?thesis by (rule exI)
qed




text \<open>
  C30. Anybody's signature is accepted. Whatever key a block was signed with, a block that
  follows the current one and has no transactions is accepted and becomes the current block (on a
  store without failures, where the checked node is configured with a decodable key): the
  boolean result of \<open>VerifySignature\<close> is dropped.
\<close>

theorem foreign_signature_is_accepted:
  assumes "reliable X stored" "chain_inv X view stored bc" "crypto_laws C"
    "GetCurrentBlock X bc = Ok c" "Index b = Index c + 1" "Index b \<noteq> 0"
    "blk_look view bc (block_key (Index b)) = None" "elems (Txns b) = []"
    "GetNodeConfigByIndex (uint (Index b mod 3) + 1) bc = Ok node"
    "hex_Decode C (''0x04'' @ NodePublicKey node) = Inr pkb" "UnmarshalPubkey C pkb = Inr pk"
    "SignMerkleRoot C anyKey (block_key (Index b)) = Ok (Signature (Header b))"
    "HandleNewBlock X C net b bc = (bc', r)"
  shows "r = Ok () \<and> GetCurrentBlock X bc' = Ok (san_Block b)"
proof -
  obtain sk sig where sk: "Sign C (Keccak256Hash C (block_key (Index b))) sk = Inr sig"
    "Signature (Header b) = hex_Encode C sig" using assms(12) by (auto simp: SignMerkleRoot_Ok)
  have "\<exists>v. VerifySignature C (''0x04'' @ NodePublicKey node) (block_key (Index b)) (Signature (Header b)) = Ok v"
    using sk law_hex [OF assms(3)] law_recover [OF assms(3) sk(1)] assms(10,11) by (simp add: VerifySignature_Ok)
  then obtain v where v:
    "VerifySignature C (''0x04'' @ NodePublicKey node) (block_key (Index b)) (Signature (Header b)) = Ok v" by blast
  have "ProcessTransactionsByIDs X C net (Txns b) bc = (bc, Ok ())"
    using assms(8) by (simp add: ProcessTransactionsByIDs_def)
  from handle_accepts [OF assms(1,2,4,5,6,7,9) v this] assms(13) have r: "r = Ok ()" by auto
  have good: "blk_good X view stored bc" using assms(2) by (simp add: chain_inv_def)
  from assms(13) store_key [OF blk_goodD [OF good]] show ?thesis
  proof (cases rule: HandleNewBlock_cases)
    case early
    then show ?thesis using r assms(6) by simp
  next
    case (saved node' v' bc1 u)
    have inv1: "chain_inv X view stored bc1" using assms(2) saved(6) by (simp add: chain_inv_cong)
    then have good1: "blk_good X view stored bc1" by (simp add: chain_inv_def)
    have "u = Ok ()" using saved(8) r by auto
    with SaveBlockToTrie_inv [OF good1 inv1] saved(7) r show ?thesis by simp
  qed
qed

lemma foreign_signature_is_accepted_witness:
  "\<exists>sig. SignMerkleRoot ref_crypto (demo_sk CHR ''p'') (block_key 1) = Ok sig
     \<and> VerifySignature ref_crypto (''0x04'' @ demo_pub CHR ''q'') (block_key 1) sig = Ok False
     \<and> snd (HandleNewBlock ref_store ref_crypto (\<lambda>_. P2PTimeout) (demo_block 1 sig) (demo_node 2 [])) = Ok ()"
proof -
  obtain sig where sig: "SignMerkleRoot ref_crypto (demo_sk CHR ''p'') (block_key 1) = Ok sig"
    using demo_sign by blast
  obtain bc' r where h: "HandleNewBlock ref_store ref_crypto (\<lambda>_. P2PTimeout) (demo_block 1 sig) (demo_node 2 []) = (bc', r)"
    by (cases "HandleNewBlock ref_store ref_crypto (\<lambda>_. P2PTimeout) (demo_block 1 sig) (demo_node 2 [])")
  have key: "UnmarshalPubkey ref_crypto (demo_sk c) = Inr (demo_sk c)" for c
    by (simp add: ref_crypto_def)
  have one: "uint ((1::uint64) mod 3) + 1 = 2" by simp
  have "r = Ok ()"
    using foreign_signature_is_accepted [OF ref_reliable demo_node_facts(1) ref_crypto_laws demo_node_facts(3)
        _ _ _ _ _ _ _ _ h, of _ "demo_sk CHR ''q''" "demo_sk CHR ''q''" "demo_sk CHR ''p''"]
      sig key demo_pub_decode
    by (simp add: demo_node_facts demo_find_node)
  with h sig demo_verify [OF sig] demo_keys_differ show ?thesis by auto
qed

text \<open>
  A signed block is never replaced by another node's. If the block of the index can be
  read and has a signature, the new block is refused and nothing changes: no transaction is
  executed and nothing is written.
\<close>

lemma duplicate_block_is_refused:
  assumes "reliable X stored" "chain_inv X view stored bc" "Index b \<noteq> 0"
    "blk_look view bc (block_key (Index b)) = Some old" "Signature (Header old) \<noteq> []"
  shows "HandleNewBlock X C net b bc = (bc, Err (Fail (MsgBlockExists (Index b) (Signature (Header old)))))"
proof -
  have good: "blk_good X view stored bc" using assms(2) by (simp add: chain_inv_def)
  obtain t where t: "tr bc = Some t" using good by (auto simp: blk_good_def)
  then have "trie_Get X (db bc) t (block_key (Index b)) = Inr (view t (block_key (Index b)))"
    using rel_get [OF assms(1), of "db bc" t "block_key (Index b)"]
      law_get [OF store_trie [OF blk_goodD [OF good]], of "db bc" t "block_key (Index b)"] by auto
  with t assms(4) have "GetBlockFromTrie X (block_key (Index b)) bc = Ok old"
    by (auto simp: GetBlockFromTrie_def blk_look_def split: option.splits Option.bind_splits)
  with assms(3,5) show ?thesis by (simp add: HandleNewBlock_def existing_signature_def)
qed

lemma duplicate_block_is_refused_witness:
  "\<exists>bc. SaveBlockToTrie ref_store (demo_block 1 ''sig'') demo_genesis = (bc, Ok ())
     \<and> HandleNewBlock ref_store ref_crypto (\<lambda>_. P2PTimeout) (demo_block 1 ''other'') bc
        = (bc, Err (Fail (MsgBlockExists 1 ''sig'')))"
proof -
  obtain bc where s: "SaveBlockToTrie ref_store (demo_block 1 ''sig'') demo_genesis = (bc, Ok ())"
    using demo_save [OF demo_genesis_inv(1,2), of "demo_block 1 ''sig''"] by auto
  have good: "blk_good ref_store map_of ref_stored demo_genesis"
    using demo_genesis_inv(1) by (simp add: chain_inv_def)
  from SaveBlockToTrie_inv [OF good demo_genesis_inv(1) s]
  have inv: "chain_inv ref_store map_of ref_stored bc"
    and look: "blk_look map_of bc (block_key 1) = Some (demo_block 1 ''sig'')"
    by (simp_all add: ascii_def)
  from duplicate_block_is_refused [OF ref_reliable inv, of "demo_block 1 ''other''" "demo_block 1 ''sig''"
      ref_crypto "\<lambda>_. P2PTimeout"] look s
  show ?thesis by auto
qed

text \<open>
  C31. The index is checked after the transactions have been executed. A block whose index
  does not follow the current one is refused, but what its transactions did to accounts and
  records stays.
\<close>

theorem refused_block_has_been_executed:
  assumes "chain_inv X view stored bc" "GetCurrentBlock X bc = Ok c"
    "Index b \<noteq> 0" "Index b \<noteq> Index c + 1" "existing_signature X (Index b) bc = Ok []"
    "GetNodeConfigByIndex (uint (Index b mod 3) + 1) bc = Ok node"
    "VerifySignature C (''0x04'' @ NodePublicKey node) (block_key (Index b)) (Signature (Header b)) = Ok v"
    "ProcessTransactionsByIDs X C net (Txns b) bc = (bc1, Ok ())"
  shows "HandleNewBlock X C net b bc = (bc1, Err (Wrap MsgSaveBlock (Fail (MsgBadBlockIndex (Index b)))))"
proof -
  have good: "blk_good X view stored bc" using assms(1) by (simp add: chain_inv_def)
  have same: "same_chain X bc1 bc"
    by (rule same_chain_ids [OF store_key [OF blk_goodD [OF good]] assms(8)])
  obtain l where "GetLastBlock X bc = Ok l" using assms(1) by (auto simp: chain_inv_def)
  then have "SaveBlockToTrie X b bc1 = (bc1, Err (Fail (MsgBadBlockIndex (Index b))))"
    using assms(2-4) same_chain_reads [OF same] by (intro SaveBlockToTrie_bad_index) auto
  with assms show ?thesis by (simp add: HandleNewBlock_def)
qed


lemma refused_block_has_been_executed_witness:
  "\<exists>sig bc1. HandleNewBlock ref_store ref_crypto (\<lambda>_. P2PResponse (Some (demo_tx ''0xa'' ''0xb'' 1000)))
       ((demo_block 4 sig)\<lparr>Txns := Some [''0x79'']\<rparr>) ((demo_node 2 [])\<lparr>bcP2P := True\<rparr>)
     = (bc1, Err (Wrap MsgSaveBlock (Fail (MsgBadBlockIndex 4))))
     \<and> map_option Balance (acc_look map_of bc1 ''0xa'') = Some 0"
proof -
  let ?net = "\<lambda>_::nat. P2PResponse (Some (demo_tx ''0xa'' ''0xb'' 1000))"
  let ?bc = "(demo_node 2 [])\<lparr>bcP2P := True\<rparr>"
  obtain sig where sig: "SignMerkleRoot ref_crypto (demo_sk CHR ''p'') (block_key 4) = Ok sig"
    using demo_sign by blast
  let ?b = "(demo_block 4 sig)\<lparr>Txns := Some [''0x79'']\<rparr>"
  have reads: "GetCurrentBlock ref_store ?bc = Ok (GetGenesisBlock 0)" "GetLastBlock ref_store ?bc = Ok (GetGenesisBlock 0)"
    using demo_node_facts(3,4) [of 2 "[]"] by (simp_all add: GetCurrentBlock_def GetLastBlock_def)
  have looks: "blk_look map_of ?bc = [block_key 0 \<mapsto> GetGenesisBlock 0]"
    "acc_look map_of ?bc = [''0xa'' \<mapsto> alice, ''0xb'' \<mapsto> bob]" "tx_look map_of ?bc = Map.empty"
    using blk_look_cong [of ?bc "demo_node 2 []" map_of] acc_look_cong [of ?bc "demo_node 2 []" map_of]
      tx_look_cong [of ?bc "demo_node 2 []" map_of] by (simp_all add: demo_node_facts)
  have good: "store_good ref_store map_of ref_stored ?bc"
    using acc_good_cong [of ?bc "demo_node 2 []" ref_store map_of ref_stored]
      tx_good_cong [of ?bc "demo_node 2 []" ref_store map_of ref_stored] demo_node_facts(2) [of 2 "[]"]
    by (simp add: store_good_def)
  have inv: "chain_inv ref_store map_of ref_stored ?bc"
    using demo_node_facts(1) [of 2 "[]"] reads looks
    by (simp add: chain_inv_def blk_good_def demo_node_facts)
  have pool: "bcMempool ?bc = Some NewMempool" by (simp add: demo_node_facts)
  obtain bc1 r where p: "ProcessTransactionsByIDs ref_store ref_crypto ?net (Some [''0x79'']) ?bc = (bc1, r)"
    by (cases "ProcessTransactionsByIDs ref_store ref_crypto ?net (Some [''0x79'']) ?bc")
  have h: "hex_Decode ref_crypto ''0x79'' = Inr ''y''" by simp
  have run: "process_id ref_store ref_crypto (?net 0) ''0x79'' ?bc = (bc1, Done) \<and> r = Ok ()
      \<and> bc1 = record_state ref_store (demo_tx ''0xa'' ''0xb'' 1000) alice bob ?bc"
  proof -
    have "IsTransactionExist ref_store (Some ''y'') ?bc = Ok False"
      using IsTransactionExist_reliable [OF ref_reliable store_goodD(2) [OF good], of "''y''"] looks by simp
    moreover have "GetTransactionFromTrie ref_store (Some ''y'') ?bc \<noteq> Ok t" for t
      using GetTransactionFromTrie_Ok [OF store_trie [OF ref_store_laws], of "''y''" ?bc t] looks by auto
    then have "GetTransactionByID ref_store ref_crypto (?net 0) ''0x79'' ?bc = Ok (Some (demo_tx ''0xa'' ''0xb'' 1000))"
      using GetTransactionFromTrie_no_Panic [of ref_store "Some ''y''" ?bc] pool
      by (auto simp: GetTransactionByID_def GetTransaction_def NewMempool_def split: outcome.splits)
    moreover have "GetAccountFromTrie ref_store ''0xa'' ?bc = Ok alice" "GetAccountFromTrie ref_store ''0xb'' ?bc = Ok bob"
      using account_read_reliable [OF ref_reliable good] looks by simp_all
    moreover have "settle ref_store (demo_tx ''0xa'' ''0xb'' 1000) alice bob ?bc
        = (record_state ref_store (demo_tx ''0xa'' ''0xb'' 1000) alice bob ?bc, Settled)"
      using settle_reliable [OF ref_reliable good] looks by simp
    ultimately show ?thesis using p by (simp add: process_id_def ProcessTransactionsByIDs_def)
  qed
  have ok: "ProcessTransactionsByIDs ref_store ref_crypto ?net (Txns ?b) ?bc = (bc1, Ok ())"
    using p run by simp
  have two: "uint ((4::uint64) mod 3) + 1 = 2" by simp
  have node: "GetNodeConfigByIndex (uint (Index ?b mod 3) + 1) ?bc = Ok
      \<lparr>NodePublicKey = demo_pub CHR ''q'', URL = [], NodeIndex = 2, ApiUrl = []\<rparr>"
    by (simp add: two GetNodeConfigByIndex_def demo_node_facts demo_config_def)
  have ex: "existing_signature ref_store (Index ?b) ?bc = Ok []"
  proof -
    have bg: "blk_good ref_store map_of ref_stored ?bc" using inv by (simp add: chain_inv_def)
    have "GetBlockFromTrie ref_store (block_key 4) ?bc \<noteq> Ok b'" for b'
      using blks.look_get [OF bg, of "block_key 4" b'] looks by auto
    with blks.get_no_panic [OF bg] show ?thesis
      by (simp add: existing_signature_def zero_Block_def zero_BlockHeader_def split: outcome.splits)
  qed
  have "HandleNewBlock ref_store ref_crypto ?net ?b ?bc
      = (bc1, Err (Wrap MsgSaveBlock (Fail (MsgBadBlockIndex (Index ?b)))))"
    by (rule refused_block_has_been_executed [OF inv reads(1) _ _ ex node _ ok])
      (use demo_verify [OF sig] in simp_all)
  moreover have "acc_look map_of bc1 ''0xa'' = Some (debited (demo_tx ''0xa'' ''0xb'' 1000) alice)"
    using settle_look(2,3) [OF good, of "demo_tx ''0xa'' ''0xb'' 1000" alice bob] run looks by simp
  ultimately show ?thesis by (auto simp: IncrementNonce_def intro!: exI [of _ sig])
qed


text \<open>
  C32. Saving a block is not atomic. If the write of \<open>LAST_BLOCK\<close> fails after that of
  \<open>CURRENT_BLOCK\<close>, the current block is one that the block trie does not have: the chain has a
  gap, and saving the same block again is refused.
\<close>

theorem save_block_is_not_atomic:
  assumes "chain_inv X view stored bc" "GetCurrentBlock X bc = Ok c" "GetLastBlock X bc = Ok l"
    "Index b = Index c + 1" "Index l < Index b" "blk_look view bc (block_key (Index b)) = None"
    "db_Put X (db bc) CURRENT_BLOCK (marshal_Block b) = Inr d"
    "db_Put X d LAST_BLOCK (marshal_Block b) = Inl e"
    "SaveBlockToTrie X b bc = (bc', r)"
  shows "r = Err (Wrap MsgSaveBlock (Wrap MsgPut e)) \<and> \<not> chain_inv X view stored bc'
    \<and> SaveBlockToTrie X b bc' = (bc', Err (Fail (MsgBadBlockIndex (Index b))))"
proof -
  have good: "blk_good X view stored bc" using assms(1) by (simp add: chain_inv_def)
  note keys = store_key [OF blk_goodD [OF good]]
  have pos: "Index b > 0" using assms(5) by (metis word_gt_0 word_not_simps(1))
  have s: "SaveCurrentBlock X b bc = (bc\<lparr>db := d\<rparr>, Ok ())" using assms(7) by (simp add: SaveCurrentBlock_def)
  then have bc': "bc' = bc\<lparr>db := d\<rparr>" "r = Err (Wrap MsgSaveBlock (Wrap MsgPut e))"
    using assms pos by (auto simp: SaveBlockToTrie_def move_pointers_def SaveLastBlock_def)
  from SaveCurrentBlock_Ok [OF keys s] assms(3) have reads: "GetCurrentBlock X bc' = Ok (san_Block b)"
    "GetLastBlock X bc' = Ok l" by (simp_all add: bc')
  have "blk_look view bc' = blk_look view bc" by (rule blk_look_cong) (simp add: bc')
  with assms(6) reads have "\<not> chain_inv X view stored bc'" by (auto simp: chain_inv_def)
  moreover have "SaveBlockToTrie X b bc' = (bc', Err (Fail (MsgBadBlockIndex (Index b))))"
    by (rule SaveBlockToTrie_bad_index [OF reads]) (use pos in auto)
  ultimately show ?thesis using bc'(2) by simp
qed

definition disk_full :: "(ref_db, ref_trie, ref_trie, ref_trie) store_ext" where
  "disk_full = ref_store\<lparr>db_Put := (\<lambda>d k v. if k = LAST_BLOCK then Inl (External ''disk full'') else db_Put ref_store d k v)\<rparr>"

lemma disk_full_laws: "store_laws disk_full map_of ref_stored"
proof -
  have sel: "db_Get disk_full = db_Get ref_store" "trie_New disk_full = trie_New ref_store"
    "trie_Get disk_full = trie_Get ref_store" "trie_Update disk_full = trie_Update ref_store"
    "trie_Commit disk_full = trie_Commit ref_store" "triedb_Update disk_full = triedb_Update ref_store"
    "triedb_Commit disk_full = triedb_Commit ref_store" "BytesToHash disk_full = BytesToHash ref_store"
    by (simp_all add: disk_full_def)
  have put: "db_Put disk_full d k v = Inr d' \<Longrightarrow> db_Put ref_store d k v = Inr d'" for d k v d'
    by (simp add: disk_full_def split: if_splits)
  have "trie_laws disk_full map_of" using ref_trie_laws by (simp add: trie_laws_def sel)
  moreover have "node_laws disk_full map_of ref_stored"
    using ref_node_laws unfolding node_laws_def sel
    by (elim conjE, intro conjI) (assumption | (intro allI impI, drule put, blast))+
  moreover have "key_laws disk_full" using ref_key_laws unfolding key_laws_def sel
    by (elim conjE, intro conjI) (assumption | (intro allI impI, drule put, blast))+
  ultimately show ?thesis by (simp add: store_laws_def)
qed

lemma save_block_is_not_atomic_witness:
  "case SaveBlockToTrie disk_full (demo_block 1 ''sig'') demo_genesis of
     (bc', r) \<Rightarrow> (\<exists>e. r = Err e) \<and> SaveBlockToTrie disk_full (demo_block 1 ''sig'') bc'
        = (bc', Err (Fail (MsgBadBlockIndex 1)))"
proof -
  have sel: "db_Get disk_full = db_Get ref_store" by (simp add: disk_full_def)
  have reads: "GetCurrentBlock disk_full demo_genesis = Ok (GetGenesisBlock 0)"
    "GetLastBlock disk_full demo_genesis = Ok (GetGenesisBlock 0)"
    using demo_genesis_inv(2,3) by (simp_all add: GetCurrentBlock_def GetLastBlock_def sel)
  have inv: "chain_inv disk_full map_of ref_stored demo_genesis"
    using demo_genesis_inv(1,4) reads by (simp add: chain_inv_def blk_good_def disk_full_laws)
  obtain d where d: "db_Put ref_store (db demo_genesis) CURRENT_BLOCK (marshal_Block (demo_block 1 ''sig'')) = Inr d"
    using rel_put [OF ref_reliable, of CURRENT_BLOCK] by fastforce
  obtain bc' r where s: "SaveBlockToTrie disk_full (demo_block 1 ''sig'') demo_genesis = (bc', r)"
    by (cases "SaveBlockToTrie disk_full (demo_block 1 ''sig'') demo_genesis")
  have "r = Err (Wrap MsgSaveBlock (Wrap MsgPut (External ''disk full''))) \<and> \<not> chain_inv disk_full map_of ref_stored bc'
    \<and> SaveBlockToTrie disk_full (demo_block 1 ''sig'') bc'
        = (bc', Err (Fail (MsgBadBlockIndex (Index (demo_block 1 ''sig'')))))"
    by (rule save_block_is_not_atomic [OF inv reads _ _ _ _ _ s, where d = d])
      (use d in \<open>simp_all add: demo_genesis_inv(4) disk_full_def\<close>)
  with s show ?thesis by simp
qed

end
