(* ===== verification/Core_Props.thy ===== *)
theory Core_Props
  imports Processing_Props
begin

text \<open>
  The properties of the parts below the chain: encoding, signing, the mempool, the stores of
  accounts and transactions, creating a transaction.
\<close>

section \<open>Encoding and signing\<close>

text \<open>
  C15. What is stored is read back. Decoding the JSON of a block, an account or a transaction
  gives the struct with its strings repaired to valid UTF-8 and everything else unchanged
  (a nil slice stays nil), and storing what was read back changes nothing more.
\<close>

theorem stored_structs_read_back:
  "unmarshal_Block (marshal_Block b) = Some (san_Block b)
   \<and> unmarshal_Account (marshal_Account a) = Some (san_Account a)
   \<and> unmarshal_Transaction (marshal_Transaction t) = Some (san_Transaction t)
   \<and> san_Block (san_Block b) = san_Block b \<and> san_Account (san_Account a) = san_Account a
   \<and> san_Transaction (san_Transaction t) = san_Transaction t"
  by (simp add: codec_simps)

text \<open>
  C39. The transaction ID does not identify the payment. The hashed fields are joined
  without a separator: moving a digit from the timestamp to the amount, or the end of the
  sender's address to the receiver's, gives another transaction with the same ID, whatever the
  hash function.
\<close>

theorem transaction_id_is_ambiguous:
  "Hash C (t\<lparr>Amount := 1, Timestamp := 23\<rparr>) = Hash C (t\<lparr>Amount := 12, Timestamp := 3\<rparr>)
   \<and> Hash C (t\<lparr>From := a @ x, To := b\<rparr>) = Hash C (t\<lparr>From := a, To := x @ b\<rparr>)"
proof -
  have "FormatUint 1 @ FormatUint 23 = FormatUint 12 @ FormatUint 3"
    by (simp add: FormatUint_def dec.simps digit_char_def)
  then have "From t @ To t @ FormatUint 1 @ FormatUint 23 = From t @ To t @ FormatUint 12 @ FormatUint 3"
    by simp
  then show ?thesis by (simp add: Hash_def)
qed

text \<open>
  C12. A new transaction verifies under its signer's key and no other. The signature of a
  transaction made by \<open>NewTransaction\<close> is checked true against the public key of the
  private key, and false against every other one; it stays valid under any other ID.
\<close>

theorem new_transaction_verifies:
  assumes "crypto_laws C" "NewTransaction C oob now from to amount key = Ok tx"
    "HexToECDSA C key = Inr sk"
  shows "VerifyTransactionSignature C (tx\<lparr>ID := i\<rparr>) (hex_Encode C b)
      = Ok (b = FromECDSAPub C (PublicOf C sk))"
proof -
  from NewTransaction_Ok(6) [OF assms(2)] assms(3) obtain sig where
    sig: "Sign C (Keccak256Hash C (tx_message tx)) sk = Inr sig" "TxSignature tx = hex_Encode C sig"
    by (auto simp: SignTransaction_Ok)
  show ?thesis
    unfolding VerifyTransactionSignature_Ok
    using sig law_hex [OF assms(1)] law_recover [OF assms(1) sig(1)] by simp
qed

lemma demo_new_tx:
  "\<exists>tx. NewTransaction ref_crypto (\<lambda>_. 0) 7 ''0xa'' ''0xb'' 3 (replicate 65 CHR ''k'') = Ok tx"
  by (simp add: NewTransaction_def SignTransaction_def ref_crypto_def ref_key_def Let_def)

lemma new_transaction_verifies_witness:
  "\<exists>tx. NewTransaction ref_crypto (\<lambda>_. 0) 7 ''0xa'' ''0xb'' 3 (replicate 65 CHR ''k'') = Ok tx
     \<and> VerifyTransactionSignature ref_crypto tx (hex_Encode ref_crypto (replicate 65 CHR ''k'')) = Ok True
     \<and> VerifyTransactionSignature ref_crypto tx (hex_Encode ref_crypto (replicate 65 CHR ''l'')) = Ok False"
proof -
  obtain tx where tx: "NewTransaction ref_crypto (\<lambda>_. 0) 7 ''0xa'' ''0xb'' 3 (replicate 65 CHR ''k'') = Ok tx"
    using demo_new_tx by blast
  have key: "HexToECDSA ref_crypto (replicate 65 CHR ''k'') = Inr (replicate 65 CHR ''k'')"
    "FromECDSAPub ref_crypto (PublicOf ref_crypto k) = k" for k
    by (simp_all add: ref_crypto_def ref_key_def)
  have "VerifyTransactionSignature ref_crypto (tx\<lparr>ID := ID tx\<rparr>) (hex_Encode ref_crypto b)
      = Ok (b = replicate 65 CHR ''k'')" for b
    using new_transaction_verifies [OF ref_crypto_laws tx key(1), where i = "ID tx"] by (simp add: key(2))
  with tx show ?thesis by simp
qed

text \<open>
  C13. A block signature verifies under its signer's key and no other. For a signature made
  by \<open>SignMerkleRoot\<close>, \<open>VerifySignature\<close> of the same message returns true for the signer's
  public key and false for every other decodable one.
\<close>

theorem block_signature_verifies:
  assumes "crypto_laws C" "HexToECDSA C key = Inr sk" "SignMerkleRoot C key m = Ok sig"
    "UnmarshalPubkey C b = Inr pk"
  shows "VerifySignature C (hex_Encode C b) m sig = Ok (b = FromECDSAPub C (PublicOf C sk))"
proof -
  from assms(2,3) obtain s where s: "Sign C (Keccak256Hash C m) sk = Inr s" "sig = hex_Encode C s"
    by (auto simp: SignMerkleRoot_Ok)
  show ?thesis
    unfolding VerifySignature_Ok
    using s law_hex [OF assms(1)] law_recover [OF assms(1) s(1)] law_pubkey [OF assms(1,4)] assms(4) by auto
qed

lemma block_signature_verifies_witness:
  "\<exists>sig. SignMerkleRoot ref_crypto (replicate 65 CHR ''k'') ''block_1'' = Ok sig
     \<and> VerifySignature ref_crypto (hex_Encode ref_crypto (replicate 65 CHR ''k'')) ''block_1'' sig = Ok True
     \<and> VerifySignature ref_crypto (hex_Encode ref_crypto (replicate 65 CHR ''l'')) ''block_1'' sig = Ok False"
proof -
  have key: "HexToECDSA ref_crypto (replicate 65 c) = Inr (replicate 65 c)"
    "UnmarshalPubkey ref_crypto (replicate 65 c) = Inr (replicate 65 c)"
    "FromECDSAPub ref_crypto (PublicOf ref_crypto k) = k" for k c
    by (simp_all add: ref_crypto_def ref_key_def)
  obtain sig where sig: "SignMerkleRoot ref_crypto (replicate 65 CHR ''k'') ''block_1'' = Ok sig"
    by (simp add: SignMerkleRoot_def ref_crypto_def ref_key_def)
  have "VerifySignature ref_crypto (hex_Encode ref_crypto (replicate 65 c)) ''block_1'' sig
      = Ok (replicate 65 c = replicate 65 CHR ''k'')" for c
    using block_signature_verifies [OF ref_crypto_laws key(1) sig key(2)] by (simp add: key(3))
  with sig show ?thesis by simp
qed

section \<open>The mempool\<close>

text \<open>
  C16. The mempool never loses or overwrites a transaction. Adding succeeds exactly when the ID
  is new, then the transaction is found under its ID, every other entry is what it was and the
  size grows by one; adding a known ID fails and changes nothing; removing an ID removes that
  entry only; and each entry stays under the hexadecimal form of its own ID.
\<close>

theorem mempool_keeps_transactions:
  "(snd (AddTransaction C tx mp) = Ok () \<longleftrightarrow> GetTransaction (tx_key C tx) mp = Err (Fail (MsgNotInMempool (tx_key C tx))))
   \<and> (snd (AddTransaction C tx mp) = Ok () \<longrightarrow>
        GetTransaction k (fst (AddTransaction C tx mp))
          = (if k = tx_key C tx then Ok tx else GetTransaction k mp)
        \<and> GetSize (fst (AddTransaction C tx mp)) = Suc (GetSize mp))
   \<and> (snd (AddTransaction C tx mp) \<noteq> Ok () \<longrightarrow> fst (AddTransaction C tx mp) = mp)
   \<and> GetTransaction k (RemoveTransaction j mp)
      = (if k = j then Err (Fail (MsgNotInMempool k)) else GetTransaction k mp)
   \<and> (well_keyed C mp \<longrightarrow> well_keyed C (fst (AddTransaction C tx mp)) \<and> well_keyed C (RemoveTransaction j mp))"
proof -
  have get: "GetTransaction k' mp' = (case fmlookup (transactions mp') k' of
      None \<Rightarrow> Err (Fail (MsgNotInMempool k')) | Some t \<Rightarrow> Ok t)" for k' mp'
    by (simp add: GetTransaction_def)
  show ?thesis
    using well_keyed_steps [of C mp] pool.add_new [of mp C tx]
      pool.add_dup [of mp C tx]
    by (cases "fmlookup (transactions mp) (tx_key C tx)")
      (auto simp: get pool.add_ok_iff pool.lookup_remove)
qed

lemma mempool_keeps_transactions_witness:
  "snd (AddTransaction ref_crypto (demo_tx ''0xa'' ''0xb'' 1) NewMempool) = Ok ()
   \<and> GetSize (fst (AddTransaction ref_crypto (demo_tx ''0xa'' ''0xb'' 1) NewMempool)) = 1"
proof -
  have "snd (AddTransaction ref_crypto (demo_tx ''0xa'' ''0xb'' 1) NewMempool) = Ok ()"
    by (simp add: AddTransaction_def NewMempool_def Let_def)
  moreover have "GetSize NewMempool = 0" by (simp add: GetSize_def NewMempool_def)
  ultimately show ?thesis
    using mempool_keeps_transactions [of ref_crypto "demo_tx ''0xa'' ''0xb'' 1" NewMempool] by simp
qed


section \<open>Creating a transaction\<close>

text \<open>Every pending transaction can be printed: no signature is shorter than 64 characters.\<close>

definition printable :: "('db, 'tr) Blockchain \<Rightarrow> bool" where
  "printable bc \<longleftrightarrow> (\<forall>k tx. pool_look bc k = Some tx \<longrightarrow> 64 \<le> length (TxSignature tx))"

lemma PrintMempool_Ok_iff:
  "PrintMempool mp = Ok () \<longleftrightarrow> (\<forall>k tx. fmlookup (transactions mp) k = Some tx \<longrightarrow> 64 \<le> length (TxSignature tx))"
  by (auto simp: PrintMempool_def fmpred_iff)

lemma PrintMempool_cases: "PrintMempool mp = Ok () \<or> PrintMempool mp = Panic"
  by (simp add: PrintMempool_def)

lemma AddTransaction_lookup:
  "fmlookup (transactions (fst (AddTransaction C tx mp))) =
     (if fmlookup (transactions mp) (tx_key C tx) = None
      then (fmlookup (transactions mp))(tx_key C tx \<mapsto> tx) else fmlookup (transactions mp))"
  by (auto simp: AddTransaction_def Let_def fun_eq_iff)

text \<open>What a verified transaction does to the mempool.\<close>

lemma add_verified_printable:
  assumes "crypto_laws C" "printable bc" "bcMempool bc = Some mp"
    "VerifyTransactionSignature C tx pk = Ok True"
  shows "PrintMempool (fst (AddTransaction C tx mp)) = Ok ()"
    "printable (bc\<lparr>bcMempool := Some (fst (AddTransaction C tx mp))\<rparr>)"
  using assms verified_signature_length [OF assms(1,4)]
  by (auto simp: PrintMempool_Ok_iff AddTransaction_lookup printable_def pool_look_def split: if_splits)

text \<open>What the creation of a transaction does, branch by branch.\<close>

lemma create_effect:
  assumes "crypto_laws C" "accTrie bc \<noteq> None" "bcMempool bc = Some mp" "printable bc"
    "CreateAndAddTransaction X C oob now from to amount key bc = (bc', sent, r)"
  shows "r \<noteq> Panic \<and> printable bc'
    \<and> ((\<exists>e. r = Err e) \<longrightarrow> bc' = bc \<and> sent = [])
    \<and> (\<forall>tx. r = Ok tx \<longrightarrow>
        From tx = from \<and> To tx = to \<and> Amount tx = f64_to_uint64 oob amount \<and> Timestamp tx = now
        \<and> (\<exists>a. GetAccountFromTrie X from bc = Ok a
              \<and> VerifyTransactionSignature C tx (PublicKey a) = Ok True)
        \<and> pool_look bc (tx_key C tx) = None
        \<and> bc' = bc\<lparr>bcMempool := Some (fst (AddTransaction C tx mp))\<rparr>
        \<and> sent = (if bcP2P bc then [tx] else []))"
proof (cases "\<exists>tx a. NewTransaction C oob now from to amount key = Ok tx
    \<and> GetAccountFromTrie X from bc = Ok a \<and> VerifyTransactionSignature C tx (PublicKey a) = Ok True")
  case True
  then obtain tx a where tx: "NewTransaction C oob now from to amount key = Ok tx"
    "GetAccountFromTrie X from bc = Ok a" "VerifyTransactionSignature C tx (PublicKey a) = Ok True" by blast
  note pr = add_verified_printable [OF assms(1,4,3) tx(3)]
  show ?thesis
  proof (cases "fmlookup (transactions mp) (tx_key C tx)")
    case None
    then have add: "AddTransaction C tx mp = (fst (AddTransaction C tx mp), Ok ())"
      by (simp add: AddTransaction_def Let_def)
    with assms(3,5) tx pr(1) have "bc' = bc\<lparr>bcMempool := Some (fst (AddTransaction C tx mp))\<rparr>"
      "sent = (if bcP2P bc then [tx] else [])" "r = Ok tx"
      by (auto simp: CreateAndAddTransaction_def Let_def split: prod.splits)
    with tx pr(2) NewTransaction_Ok [OF tx(1)] None assms(3) show ?thesis by (simp add: pool_look_def)
  next
    case (Some old)
    then have "AddTransaction C tx mp = (mp, Err (Fail (MsgInMempool (tx_key C tx))))"
      by (simp add: AddTransaction_def Let_def)
    with assms(3-5) tx show ?thesis by (auto simp: CreateAndAddTransaction_def)
  qed
next
  case False
  have "NewTransaction C oob now from to amount key \<noteq> Panic"
    by (simp add: NewTransaction_def Let_def split: outcome.splits)
  with False assms(2-5) GetAccountFromTrie_Panic [of X "from" bc] show ?thesis
    by (auto simp: CreateAndAddTransaction_def split: outcome.splits if_splits)
qed


text \<open>
  C10. Creating a transaction. On success the transaction has the sender, the receiver, the
  amount without its fraction and the time of the request, the sender's account exists and
  its public key verifies the signature, the ID was not pending; the transaction is added to the
  mempool under its ID, nothing else changes, and it is handed to the network, if there is one.
  Otherwise nothing changes and nothing is sent. The call does not panic.
\<close>

theorem create_transaction_correct:
  assumes "crypto_laws C" "accTrie bc \<noteq> None" "bcMempool bc = Some mp" "printable bc"
    "CreateAndAddTransaction X C oob now from to amount key bc = (bc', sent, r)"
  shows "r \<noteq> Panic \<and> printable bc'
    \<and> ((\<exists>e. r = Err e) \<longrightarrow> bc' = bc \<and> sent = [])
    \<and> (\<forall>tx. r = Ok tx \<longrightarrow>
        From tx = from \<and> To tx = to \<and> Amount tx = f64_to_uint64 oob amount \<and> Timestamp tx = now
        \<and> (\<exists>a. GetAccountFromTrie X from bc = Ok a
              \<and> VerifyTransactionSignature C tx (PublicKey a) = Ok True)
        \<and> pool_look bc (tx_key C tx) = None
        \<and> bc' = bc\<lparr>bcMempool := Some (fst (AddTransaction C tx mp))\<rparr>
        \<and> sent = (if bcP2P bc then [tx] else []))"
  by (rule create_effect [OF assms])

definition demo_key :: bytes where
  "demo_key = replicate 65 CHR ''k''"

definition carol :: Account where
  "carol = \<lparr>Address = ''0xc'', Balance = 5, PublicKey = hex_Encode ref_crypto demo_key, Nonce = 0\<rparr>"

definition demo_signer :: "(ref_db, ref_trie) Blockchain" where
  "demo_signer = fst (SaveAccountToTrie ref_store carol demo_accounts)"

lemma san_carol: "san_Account carol = carol"
  unfolding san_Account_id using law_hex_ascii [OF ref_crypto_laws law_hex [OF ref_crypto_laws]]
  by (simp add: carol_def to_valid_ascii)

lemma demo_signer_facts:
  "store_good ref_store map_of ref_stored demo_signer" "acc_look map_of demo_signer ''0xc'' = Some carol"
  "bcMempool demo_signer = Some NewMempool" "accTrie demo_signer \<noteq> None" "printable demo_signer"
  "GetAccountFromTrie ref_store ''0xc'' demo_signer = Ok carol"
proof -
  show good: "store_good ref_store map_of ref_stored demo_signer"
    unfolding demo_signer_def by (rule store_good_save_acc [OF demo_accounts_good san_carol])
  show look: "acc_look map_of demo_signer ''0xc'' = Some carol"
    using acc.look_save [OF store_goodD(1) [OF demo_accounts_good], of carol] san_carol
    by (simp add: demo_signer_def carol_def)
  show pool: "bcMempool demo_signer = Some NewMempool"
    by (simp add: demo_signer_def frame_simps demo_accounts_def demo_empty_def)
  show "accTrie demo_signer \<noteq> None" using store_goodD(4) [OF good] .
  show "printable demo_signer" by (simp add: printable_def pool_look_def pool NewMempool_def)
  show "GetAccountFromTrie ref_store ''0xc'' demo_signer = Ok carol"
    using account_read_reliable [OF ref_reliable good] look by blast
qed

lemma carol_signs:
  "\<exists>tx. NewTransaction ref_crypto (\<lambda>_. 0) 7 ''0xc'' ''0xb'' amount demo_key = Ok tx
     \<and> VerifyTransactionSignature ref_crypto tx (PublicKey carol) = Ok True"
proof -
  obtain tx where tx: "NewTransaction ref_crypto (\<lambda>_. 0) 7 ''0xc'' ''0xb'' amount demo_key = Ok tx"
    by (simp add: NewTransaction_def SignTransaction_def ref_crypto_def ref_key_def Let_def demo_key_def)
  have ver: "VerifyTransactionSignature ref_crypto tx (PublicKey carol) = Ok True"
  proof -
    from NewTransaction_Ok(6) [OF tx] obtain sk sig where
      s: "HexToECDSA ref_crypto demo_key = Inr sk" "Sign ref_crypto (Keccak256Hash ref_crypto (tx_message tx)) sk = Inr sig"
        "TxSignature tx = hex_Encode ref_crypto sig" by (auto simp: SignTransaction_Ok)
    have "FromECDSAPub ref_crypto (PublicOf ref_crypto sk) = demo_key"
      using s(1) by (simp add: ref_crypto_def ref_key_def demo_key_def)
    then show ?thesis
      unfolding VerifyTransactionSignature_Ok
      using s(3) law_hex [OF ref_crypto_laws] law_recover [OF ref_crypto_laws s(2)] by (simp add: carol_def)
  qed
  with tx show ?thesis by blast
qed

lemma create_transaction_correct_witness:
  "case CreateAndAddTransaction ref_store ref_crypto (\<lambda>_. 0) 7 ''0xc'' ''0xb'' 3 demo_key demo_signer of
     (bc', sent, r) \<Rightarrow> sent = [] \<and> (\<exists>tx. r = Ok tx \<and> pool_look bc' (tx_key ref_crypto tx) = Some tx)"
proof -
  obtain bc' sent r where c:
    "CreateAndAddTransaction ref_store ref_crypto (\<lambda>_. 0) 7 ''0xc'' ''0xb'' 3 demo_key demo_signer = (bc', sent, r)"
    by (cases "CreateAndAddTransaction ref_store ref_crypto (\<lambda>_. 0) 7 ''0xc'' ''0xb'' 3 demo_key demo_signer")
  obtain tx where tx: "NewTransaction ref_crypto (\<lambda>_. 0) 7 ''0xc'' ''0xb'' 3 demo_key = Ok tx"
    and ver: "VerifyTransactionSignature ref_crypto tx (PublicKey carol) = Ok True" using carol_signs by blast
  note pm = add_verified_printable(1) [OF ref_crypto_laws demo_signer_facts(5,3) ver]
  have "AddTransaction ref_crypto tx NewMempool = (fst (AddTransaction ref_crypto tx NewMempool), Ok ())"
    by (simp add: AddTransaction_def NewMempool_def Let_def)
  with c tx ver pm demo_signer_facts(3,6) obtain t where t: "r = Ok t"
    by (auto simp: CreateAndAddTransaction_def Let_def split: prod.splits) metis
  from create_transaction_correct [OF ref_crypto_laws demo_signer_facts(4,3,5) c] t
  have "pool_look demo_signer (tx_key ref_crypto t) = None"
    "bc' = demo_signer\<lparr>bcMempool := Some (fst (AddTransaction ref_crypto t NewMempool))\<rparr>"
    "sent = (if bcP2P demo_signer then [t] else [])" by simp_all
  moreover have "\<not> bcP2P demo_signer"
    by (simp add: demo_signer_def frame_simps demo_accounts_def demo_empty_def)
  ultimately show ?thesis using c t by (simp add: pool_look_def AddTransaction_lookup NewMempool_def)
qed

section \<open>The stores\<close>

text \<open>
  C40. Opening a trie retries. The result of \<open>RestoreTrieFromRootHash\<close> is a trie exactly when
  one of at most four attempts opens it, and it is the one of the first attempt that does.
\<close>

theorem restore_takes_the_first_success:
  "RestoreTrieFromRootHash X d r = Inr t \<longleftrightarrow>
     (\<exists>j \<le> 3. trie_New X j d r = Inr t \<and> (\<forall>k < j. \<exists>e. trie_New X k d r = Inl e))"
  by (simp add: RestoreTrieFromRootHash_def restore_attempts_Inr)

lemma restore_takes_the_first_success_witness:
  "RestoreTrieFromRootHash (ref_store\<lparr>trie_New := (\<lambda>i d r. if i < 3 then Inl ErrNotFound else Inr [])\<rparr>) ([], []) [] = Inr []"
  by (rule restore_takes_the_first_success [THEN iffD2]) (rule exI [of _ 3], simp)

text \<open>
  C14. Accounts are stored and found. Saving an account, whatever it returns, changes the map
  of accounts at its address only; where no storage call fails, it succeeds, reading that
  address gives the account, and reading any other address gives what it gave before.
\<close>

theorem account_store_correct:
  assumes "acc_good X view stored bc" "san_Account a = a" "SaveAccountToTrie X a bc = (bc', r)"
  shows "acc_good X view stored bc' \<and> acc_look view bc' = (acc_look view bc)(Address a \<mapsto> a)
    \<and> r \<noteq> Panic
    \<and> (reliable X stored \<longrightarrow> r = Ok () \<and> GetAccountFromTrie X (Address a) bc' = Ok a
        \<and> (\<forall>k b. k \<noteq> Address a \<longrightarrow> GetAccountFromTrie X k bc' = Ok b \<longleftrightarrow> GetAccountFromTrie X k bc = Ok b))"
proof -
  have good': "acc_good X view stored bc'" and look: "acc_look view bc' = (acc_look view bc)(Address a \<mapsto> a)"
    and np: "r \<noteq> Panic"
    using acc.good_save [OF assms(1,2)] acc.look_save [OF assms(1), of a] acc.save_no_panic [OF assms(1), of a] assms(2,3)
    by simp_all
  have rel: "GetAccountFromTrie X k s = Ok b \<longleftrightarrow> acc_look view s k = Some b"
    if "reliable X stored" "acc_good X view stored s" for k b s
    using GetAccountFromTrie_reliable [OF that(1)] that(2) by (auto simp: acc_good_def)
  have "r = Ok ()" if "reliable X stored"
    using SaveAccountToTrie_reliable [OF that, of view bc a] assms(1,3) by (simp add: acc_good_def)
  with good' look np rel [OF _ good'] rel [OF _ assms(1)] show ?thesis by simp
qed

lemma account_store_correct_witness:
  "GetAccountFromTrie ref_store ''0xa'' (fst (SaveAccountToTrie ref_store (alice\<lparr>Balance := 1\<rparr>) demo_accounts))
     = Ok (alice\<lparr>Balance := 1\<rparr>)"
proof -
  have s: "SaveAccountToTrie ref_store (alice\<lparr>Balance := 1\<rparr>) demo_accounts
      = (fst (SaveAccountToTrie ref_store (alice\<lparr>Balance := 1\<rparr>) demo_accounts),
         snd (SaveAccountToTrie ref_store (alice\<lparr>Balance := 1\<rparr>) demo_accounts))" by simp
  from account_store_correct [OF store_goodD(1) [OF demo_accounts_good] _ s] ref_reliable show ?thesis by simp
qed

text \<open>
  Transactions are stored and found, also under an error of a later storage call: the map
  of transactions changes at the saved ID only, the accounts do not change, and
  \<open>IsTransactionExist\<close> answers true for the saved ID and as before for every other, where it
  answers.
\<close>

lemma transaction_store_correct:
  assumes "store_good X view stored bc" "SaveTransactionToTrie X tx bc = (bc', r)"
  shows "store_good X view stored bc' \<and> r \<noteq> Panic
    \<and> tx_look view bc' = (tx_look view bc)(elems (ID tx) \<mapsto> san_Transaction tx)
    \<and> acc_look view bc' = acc_look view bc
    \<and> (\<forall>k b. IsTransactionExist X (Some k) bc' = Ok b \<longrightarrow>
         b = (k = elems (ID tx) \<or> tx_look view bc k \<noteq> None))"
proof -
  note td = store_goodD(2) [OF assms(1)]
  have bc': "bc' = fst (SaveTransactionToTrie X tx bc)" "r = snd (SaveTransactionToTrie X tx bc)"
    using assms(2) by simp_all
  have good: "store_good X view stored bc'" using store_good_save_tx [OF assms(1)] by (simp add: bc')
  have look: "tx_look view bc' = (tx_look view bc)(elems (ID tx) \<mapsto> san_Transaction tx)"
    using txs.look_save [OF td] by (simp add: bc')
  have "b = (k = elems (ID tx) \<or> tx_look view bc k \<noteq> None)"
    if "IsTransactionExist X (Some k) bc' = Ok b" for k b
    using IsTransactionExist_Ok [OF store_goodD(2) [OF good] that] by (simp add: look)
  with good look txs.save_no_panic [OF td, of tx] show ?thesis
    by (simp add: bc' cross_frames)
qed

lemma transaction_store_correct_witness:
  "IsTransactionExist ref_store (Some ''x'') (fst (SaveTransactionToTrie ref_store (demo_tx ''0xa'' ''0xb'' 1) demo_accounts))
     = Ok True"
proof -
  let ?bc = "fst (SaveTransactionToTrie ref_store (demo_tx ''0xa'' ''0xb'' 1) demo_accounts)"
  have s: "SaveTransactionToTrie ref_store (demo_tx ''0xa'' ''0xb'' 1) demo_accounts
      = (?bc, snd (SaveTransactionToTrie ref_store (demo_tx ''0xa'' ''0xb'' 1) demo_accounts))" by simp
  note c = transaction_store_correct [OF demo_accounts_good s]
  then have good: "store_good ref_store map_of ref_stored ?bc" by blast
  obtain b where b: "IsTransactionExist ref_store (Some ''x'') ?bc = Ok b"
    using IsTransactionExist_reliable [OF ref_reliable store_goodD(2) [OF good]] by blast
  with c have "b = (''x'' = elems (ID (demo_tx ''0xa'' ''0xb'' 1)) \<or> tx_look map_of demo_accounts ''x'' \<noteq> None)"
    by blast
  with b show ?thesis by simp
qed


text \<open>The states \<open>TransferBalance\<close> can end in.\<close>

lemma TransferBalance_distinct:
  assumes "TransferBalance X False f t amount bc = (bc', r)" "\<not> Balance f < amount"
  defines "b1 \<equiv> fst (SaveAccountToTrie X (f\<lparr>Balance := Balance f - amount\<rparr>) bc)"
  shows "bc' = b1 \<and> r \<noteq> Ok () \<or> bc' = fst (SaveAccountToTrie X (t\<lparr>Balance := Balance t + amount\<rparr>) b1)"
  using assms(1,2) unfolding b1_def
  by (simp add: TransferBalance_def Let_def split: prod.splits outcome.splits) auto

lemma TransferBalance_same:
  assumes "TransferBalance X True f t amount bc = (bc', r)" "\<not> Balance f < amount"
  shows "bc' = fst (SaveAccountToTrie X f bc) \<or> bc' = fst (SaveAccountToTrie X f (fst (SaveAccountToTrie X f bc)))"
proof -
  have "f\<lparr>Balance := Balance f - amount, Balance := Balance f - amount + amount\<rparr> = f" by simp
  with assms show ?thesis
    by (simp add: TransferBalance_def Let_def split: prod.splits outcome.splits)
qed

text \<open>Saving an account again changes nothing.\<close>

lemma save_again:
  assumes "acc_good X view stored bc" "acc_look view bc (Address f) = Some f"
  shows "acc_look view (fst (SaveAccountToTrie X f bc)) = acc_look view bc"
    "acc_good X view stored (fst (SaveAccountToTrie X f bc))"
proof -
  have "san_Account f = f" using assms by (simp add: acc_good_def)
  then show "acc_look view (fst (SaveAccountToTrie X f bc)) = acc_look view bc"
    "acc_good X view stored (fst (SaveAccountToTrie X f bc))"
    using acc.look_save [OF assms(1), of f] acc.good_save [OF assms(1)] assms(2) by (simp_all add: fun_upd_idem)
qed

text \<open>The totals after the debit and after the credit.\<close>

lemma debit_credit_totals:
  assumes gd: "acc_good X view stored bc" and fin: "finite (dom (acc_look view bc))"
    and small: "total_balance view bc < 2 ^ 64"
    and f: "acc_look view bc (Address f) = Some f" and t: "acc_look view bc (Address t) = Some t"
    and ne: "Address f \<noteq> Address t" and le: "amount \<le> Balance f"
  defines "b1 \<equiv> fst (SaveAccountToTrie X (f\<lparr>Balance := Balance f - amount\<rparr>) bc)"
  defines "b2 \<equiv> fst (SaveAccountToTrie X (t\<lparr>Balance := Balance t + amount\<rparr>) b1)"
  shows "total_balance view b1 \<le> total_balance view bc" "total_balance view b2 = total_balance view bc"
proof -
  let ?f = "f\<lparr>Balance := Balance f - amount\<rparr>" and ?t = "t\<lparr>Balance := Balance t + amount\<rparr>"
  let ?A = "dom (acc_look view bc)"
  have "san_Account f = f" "san_Account t = t" using gd f t by (simp_all add: acc_good_def)
  then have san: "san_Account ?f = ?f" "san_Account ?t = ?t" by simp_all
  have b1: "acc_good X view stored b1" unfolding b1_def by (rule acc.good_save [OF gd san(1)])
  have d: "unat (Balance ?f) + unat amount = unat (Balance f)"
    using le by (simp add: unat_sub word_le_nat_alt)
  have "unat (Balance t) + unat amount < 2 ^ 64"
    using balances_le_total [OF fin f t ne] small le by (simp add: word_le_nat_alt)
  then have c: "unat (Balance ?t) = unat (Balance t) + unat amount" by (simp add: unat_add_small)
  have look1: "acc_look view b1 = (acc_look view bc)(Address f \<mapsto> ?f)"
    unfolding b1_def using acc.look_save [OF gd, of ?f] san(1) by simp
  have look2: "acc_look view b2 = (acc_look view b1)(Address t \<mapsto> ?t)"
    unfolding b2_def using acc.look_save [OF b1, of ?t] san(2) by simp
  have dom: "dom (acc_look view b1) = ?A" "dom (acc_look view b2) = ?A"
    using f t by (auto simp: look1 look2)
  have "acc.funds view ?A b1 + unat amount = acc.funds view ?A bc"
    unfolding b1_def by (rule acc.debit_funds [OF gd, where w = f]) (use f san d fin in auto)
  then show "total_balance view b1 \<le> total_balance view bc"
    using total_balance_same_dom [OF dom(1)] total_balance_funds [of view bc] by simp
  have "acc.funds view ?A b2 = acc.funds view ?A bc"
    unfolding b2_def b1_def
    by (rule acc.transfer_funds [OF gd, where ?v0.0 = f and ?w0.0 = t and a = "unat amount"])
      (use f t san d c ne fin in auto)
  then show "total_balance view b2 = total_balance view bc"
    using total_balance_same_dom [OF dom(2)] total_balance_funds [of view bc] by simp
qed

text \<open>
  \<open>TransferBalance\<close> keeps the total. It refuses an amount above the sender's balance
  and then changes nothing; between two stored accounts it never raises the total of all
  balances, and on success leaves it exactly as it was; called with one account as sender
  and receiver, it leaves the balance of that account as it was.
\<close>

lemma transfer_balance_conserves_money:
  assumes "store_good X view stored bc" "finite (dom (acc_look view bc))" "total_balance view bc < 2 ^ 64"
    "acc_look view bc (Address f) = Some f" "acc_look view bc (Address t) = Some t"
    "same = (Address f = Address t)"
    "TransferBalance X same f t amount bc = (bc', r)"
  shows "(Balance f < amount \<longrightarrow> bc' = bc \<and> r = Err (Fail MsgInsufficientBalance))
    \<and> total_balance view bc' \<le> total_balance view bc
    \<and> (r = Ok () \<longrightarrow> total_balance view bc' = total_balance view bc)
    \<and> (same \<longrightarrow> acc_look view bc' = acc_look view bc)"
proof (cases "Balance f < amount")
  case True
  then show ?thesis using assms(7) by (auto simp: TransferBalance_def)
next
  case le: False
  note gd = store_goodD(1) [OF assms(1)]
  show ?thesis
  proof (cases same)
    case True
    note b1 = save_again [OF gd assms(4)]
    have "acc_look view (fst (SaveAccountToTrie X f (fst (SaveAccountToTrie X f bc)))) = acc_look view bc"
      using save_again(1) [OF b1(2)] b1(1) assms(4) by simp
    with b1(1) have "acc_look view bc' = acc_look view bc"
      using TransferBalance_same [of X f t amount bc bc' r] assms(7) True le by auto
    with le show ?thesis by (simp add: total_balance_def)
  next
    case False
    then have "Address f \<noteq> Address t" "amount \<le> Balance f" using assms(6) le by auto
    note tot = debit_credit_totals [OF gd assms(2-5) this]
    from TransferBalance_distinct [OF _ le, of X t bc bc' r] assms(7) False tot le show ?thesis by auto
  qed
qed

lemma transfer_balance_conserves_money_witness:
  "total_balance map_of (fst (TransferBalance ref_store False alice bob 100 demo_accounts)) \<le> 1050"
proof -
  have t: "TransferBalance ref_store False alice bob 100 demo_accounts
      = (fst (TransferBalance ref_store False alice bob 100 demo_accounts),
         snd (TransferBalance ref_store False alice bob 100 demo_accounts))" by simp
  have tot: "total_balance map_of demo_accounts = 1050"
    by (simp add: total_balance_def demo_accounts_look)
  show ?thesis
    using transfer_balance_conserves_money [OF demo_accounts_good _ _ _ _ _ t] tot
    by (simp add: demo_accounts_look)
qed

lemma init_account_look:
  assumes "reliable X stored" "crypto_laws C" "acc_good X view stored bc"
    "init_account X C n pk bc = (bc', r)"
  shows "acc_good X view stored bc' \<and> r \<noteq> Panic
    \<and> (\<forall>k a. acc_look view bc k = Some a \<longrightarrow> acc_look view bc' k = Some a)
    \<and> (\<forall>k a. acc_look view bc' k = Some a \<longrightarrow> acc_look view bc k = None \<longrightarrow> Balance a = 1000 \<and> Nonce a = 0)
    \<and> (r = Ok () \<longrightarrow> (\<exists>a. NewAccountFromPublicKey C pk 1000 = Ok a \<and> acc_look view bc' (Address a) \<noteq> None))"
proof (cases "NewAccountFromPublicKey C pk 1000")
  case (Ok a)
  have a: "san_Account a = a" "Balance a = 1000" "Nonce a = 0"
    using NewAccountFromPublicKey_san [OF assms(2) Ok] Ok by (auto simp: NewAccountFromPublicKey_Ok)
  have read: "GetAccountFromTrie X (Address a) bc = Ok b \<longleftrightarrow> acc_look view bc (Address a) = Some b" for b
    using GetAccountFromTrie_reliable [OF assms(1)] assms(3) by (auto simp: acc_good_def)
  show ?thesis
  proof (cases "acc_look view bc (Address a)")
    case None
    then obtain e where "GetAccountFromTrie X (Address a) bc = Err e"
      using read acc.get_no_panic [OF assms(3)] by (cases "GetAccountFromTrie X (Address a) bc") auto
    with assms(4) Ok have s: "bc' = fst (SaveAccountToTrie X a bc)" "snd (SaveAccountToTrie X a bc) = Panic \<Longrightarrow> r = Panic"
      "snd (SaveAccountToTrie X a bc) \<noteq> Panic \<Longrightarrow> r \<noteq> Panic"
      by (auto simp: init_account_def split: prod.splits outcome.splits)
    with acc.good_save [OF assms(3) a(1)] acc.look_save [OF assms(3), of a] acc.save_no_panic [OF assms(3), of a] a None Ok
    show ?thesis by auto
  next
    case (Some b)
    with read have "GetAccountFromTrie X (Address a) bc = Ok b" by simp
    with assms(3,4) Ok Some show ?thesis by (auto simp: init_account_def)
  qed
qed (use assms in \<open>auto simp: init_account_def NewAccountFromPublicKey_def split: sum.splits\<close>)


text \<open>What one of the three blocks may do to the map of accounts.\<close>

definition adds_test_accounts ::
    "(string \<Rightarrow> Account option) \<Rightarrow> (string \<Rightarrow> Account option) \<Rightarrow> bool" where
  "adds_test_accounts m n \<longleftrightarrow> m \<subseteq>\<^sub>m n
     \<and> (\<forall>k a. n k = Some a \<longrightarrow> m k = None \<longrightarrow> Balance a = 1000 \<and> Nonce a = 0)"

lemma adds_test_accounts_trans:
  "adds_test_accounts m n \<Longrightarrow> adds_test_accounts n p \<Longrightarrow> adds_test_accounts m p"
  unfolding adds_test_accounts_def map_le_def by (metis domIff not_Some_eq)

lemma init_account_step:
  assumes "reliable X stored" "crypto_laws C" "acc_good X view stored bc"
    "init_account X C n pk bc = (bc', r)"
  shows "acc_good X view stored bc'" "r \<noteq> Panic" "adds_test_accounts (acc_look view bc) (acc_look view bc')"
    "r = Ok () \<Longrightarrow> \<exists>a. NewAccountFromPublicKey C pk 1000 = Ok a \<and> acc_look view bc' (Address a) \<noteq> None"
  using init_account_look [OF assms] by (auto simp: adds_test_accounts_def map_le_def)

lemma init_account_exists:
  assumes "reliable X stored" "acc_good X view stored bc" "NewAccountFromPublicKey C pk 1000 = Ok a"
    "acc_look view bc (Address a) \<noteq> None"
  shows "init_account X C n pk bc = (bc, Ok ())"
proof -
  obtain b where "acc_look view bc (Address a) = Some b" using assms(4) by auto
  then have "GetAccountFromTrie X (Address a) bc = Ok b"
    using GetAccountFromTrie_reliable [OF assms(1)] assms(2) by (auto simp: acc_good_def)
  with assms(3) show ?thesis by (simp add: init_account_def)
qed

lemma init_accounts_run:
  assumes "init_account X C 1 pubKey1 bc = (b1, r1)" "init_account X C 2 pubKey2 b1 = (b2, r2)"
    "init_account X C 3 pubKey3 b2 = (b3, r3)"
  shows "InitializeTestAccounts X C bc
    = (if r1 \<noteq> Ok () then (b1, r1) else if r2 \<noteq> Ok () then (b2, r2) else (b3, r3))"
  unfolding InitializeTestAccounts_def assms(1) prod.case
  by (cases r1; cases r2; simp add: assms(2,3) del: One_nat_def)

lemma init_accounts_again:
  assumes "reliable X stored" "acc_good X view stored bc"
    "\<exists>a. NewAccountFromPublicKey C pubKey1 1000 = Ok a \<and> acc_look view bc (Address a) \<noteq> None"
    "\<exists>a. NewAccountFromPublicKey C pubKey2 1000 = Ok a \<and> acc_look view bc (Address a) \<noteq> None"
    "\<exists>a. NewAccountFromPublicKey C pubKey3 1000 = Ok a \<and> acc_look view bc (Address a) \<noteq> None"
  shows "InitializeTestAccounts X C bc = (bc, Ok ())"
proof -
  have "init_account X C n pk bc = (bc, Ok ())"
    if "\<exists>a. NewAccountFromPublicKey C pk 1000 = Ok a \<and> acc_look view bc (Address a) \<noteq> None" for n pk
    using init_account_exists [OF assms(1,2)] that by blast
  with assms(3-5) show ?thesis by (simp add: InitializeTestAccounts_def)
qed

lemma adds_keeps:
  "adds_test_accounts m n \<Longrightarrow> \<exists>a. P a \<and> m (Address a) \<noteq> None \<Longrightarrow> \<exists>a. P a \<and> n (Address a) \<noteq> None"
proof -
  assume le: "adds_test_accounts m n" and "\<exists>a. P a \<and> m (Address a) \<noteq> None"
  then obtain a where "P a" "m (Address a) \<noteq> None" by blast
  with map_le_not_None [of m n "Address a"] le show ?thesis unfolding adds_test_accounts_def by blast
qed

text \<open>
  C38. Initialising the test accounts touches no existing account. Where no storage call fails, an
  account that exists keeps its balance and nonce; an account that appears has a balance of
  1000 and nonce 0; and if the call succeeds, a second call succeeds and changes nothing.
\<close>

theorem test_accounts_are_added_once:
  assumes "reliable X stored" "crypto_laws C" "acc_good X view stored bc"
    "InitializeTestAccounts X C bc = (bc', r)"
  shows "acc_good X view stored bc' \<and> r \<noteq> Panic
    \<and> adds_test_accounts (acc_look view bc) (acc_look view bc')
    \<and> (r = Ok () \<longrightarrow> InitializeTestAccounts X C bc' = (bc', Ok ()))"
proof -
  obtain b1 r1 where 1: "init_account X C 1 pubKey1 bc = (b1, r1)" by (cases "init_account X C 1 pubKey1 bc")
  obtain b2 r2 where 2: "init_account X C 2 pubKey2 b1 = (b2, r2)" by (cases "init_account X C 2 pubKey2 b1")
  obtain b3 r3 where 3: "init_account X C 3 pubKey3 b2 = (b3, r3)" by (cases "init_account X C 3 pubKey3 b2")
  note s1 = init_account_step [OF assms(1,2,3) 1]
  note s2 = init_account_step [OF assms(1,2) s1(1) 2]
  note s3 = init_account_step [OF assms(1,2) s2(1) 3]
  note a2 = adds_test_accounts_trans [OF s1(3) s2(3)]
  note a3 = adds_test_accounts_trans [OF a2 s3(3)]
  note run = init_accounts_run [OF 1 2 3, unfolded assms(4)]
  show ?thesis
  proof (cases "r1 = Ok () \<and> r2 = Ok ()")
    case False
    then have "bc' = b1 \<and> r = r1 \<and> r \<noteq> Ok () \<or> bc' = b2 \<and> r = r2 \<and> r \<noteq> Ok ()"
      using run by (simp split: if_splits)
    then show ?thesis using s1(1-3) s2(1,2) a2 by blast
  next
    case True
    with run have bc': "bc' = b3" "r = r3" by simp_all
    have "InitializeTestAccounts X C b3 = (b3, Ok ())" if "r3 = Ok ()"
      by (rule init_accounts_again [OF assms(1) s3(1)
            adds_keeps [OF adds_test_accounts_trans [OF s2(3) s3(3)] s1(4)]
            adds_keeps [OF s3(3) s2(4)] s3(4)]) (use True that in simp_all)
    with s3(1,2) a3 bc' show ?thesis by blast
  qed
qed

lemma test_accounts_are_added_once_witness:
  "adds_test_accounts [''0xa'' \<mapsto> alice, ''0xb'' \<mapsto> bob]
     (acc_look map_of (fst (InitializeTestAccounts ref_store ref_crypto demo_accounts)))"
proof -
  have i: "InitializeTestAccounts ref_store ref_crypto demo_accounts
      = (fst (InitializeTestAccounts ref_store ref_crypto demo_accounts),
         snd (InitializeTestAccounts ref_store ref_crypto demo_accounts))" by simp
  from test_accounts_are_added_once [OF ref_reliable ref_crypto_laws store_goodD(1) [OF demo_accounts_good] i]
  show ?thesis by (simp add: demo_accounts_look)
qed

end
