(* ===== verification/Durability.thy ===== *)
theory Durability
  imports Chain_Props Core_Props
begin

text \<open>
  What is on disk. \<open>durable\<close> says that the roots under the three keys of the database open
  tries with the content of the handles in memory, so that a restart finds what the running
  node had. Where no storage call fails, every operation that writes keeps it.
\<close>

section \<open>Databases that grow\<close>

text \<open>The named keys outside \<open>K\<close> stay as they are, and no stored trie is lost.\<close>

definition db_grows ::
    "('db, 'tr, 'nd, 'tdb) store_ext \<Rightarrow> ('db \<Rightarrow> bytes \<Rightarrow> (bytes \<Rightarrow> bytes option) \<Rightarrow> bool)
      \<Rightarrow> bytes set \<Rightarrow> 'db \<Rightarrow> 'db \<Rightarrow> bool" where
  "db_grows X stored K d d' \<longleftrightarrow> (\<forall>k \<in> set db_keys - K. db_Get X d' k = db_Get X d k)
     \<and> (\<forall>r m. stored d r m \<longrightarrow> stored d' r m)"

lemma db_grows_refl [simp]: "db_grows X stored K d d"
  by (simp add: db_grows_def)

lemma db_grows_trans:
  "db_grows X stored K a b \<Longrightarrow> db_grows X stored K b c \<Longrightarrow> db_grows X stored K a c"
  by (simp add: db_grows_def)

lemma db_grows_put:
  assumes "store_laws X view stored" "db_Put X d k v = Inr d'" "k \<in> set db_keys" "k \<in> K"
  shows "db_grows X stored K d d'"
  using law_put_other [OF store_key [OF assms(1)] assms(2,3)] law_put_stored [OF store_node [OF assms(1)] assms(2,3)]
    assms(4) by (auto simp: db_grows_def)

lemma db_grows_commit:
  assumes "store_laws X view stored" "commit_nodes X d t = (d', t', r)"
  shows "db_grows X stored K d d'"
  using commit_nodes_keys [OF store_key [OF assms(1)] assms(2)] commit_nodes_keep [OF store_node [OF assms(1)] assms(2)]
  by (auto simp: db_grows_def)

lemma db_grows_commit_put:
  assumes "store_laws X view stored" "commit_nodes X d t = (d1, t1, r)" "db_Put X d1 k v = Inr d2"
    "k \<in> set db_keys"
  shows "db_grows X stored {k} d d2"
  by (rule db_grows_trans [OF db_grows_commit [OF assms(1,2)] db_grows_put [OF assms(1,3,4)]]) simp

lemma save_account_grows:
  assumes "store_laws X view stored"
  shows "db_grows X stored {ACC_ROOT_HASH} (db bc) (db (fst (SaveAccountToTrie X a bc)))"
  by (auto simp: SaveAccountToTrie_def Let_def split: option.splits prod.splits sum.splits
      intro: db_grows_commit [OF assms] db_grows_commit_put [OF assms])

lemma save_transaction_grows:
  assumes "store_laws X view stored"
  shows "db_grows X stored {TX_ROOT_HASH} (db bc) (db (fst (SaveTransactionToTrie X tx bc)))"
  by (auto simp: SaveTransactionToTrie_def Let_def split: option.splits prod.splits sum.splits
      intro: db_grows_commit [OF assms] db_grows_commit_put [OF assms])

lemma store_block_grows:
  assumes "store_laws X view stored"
  shows "db_grows X stored {ROOT_HASH} (db bc) (db (fst (store_block X b bc)))"
  by (auto simp: store_block_def Let_def split: option.splits prod.splits sum.splits
      intro: db_grows_commit [OF assms] db_grows_commit_put [OF assms])

lemma save_pointers_grow:
  assumes "store_laws X view stored"
  shows "db_grows X stored {CURRENT_BLOCK, LAST_BLOCK} (db bc) (db (fst (SaveCurrentBlock X b bc)))"
    "db_grows X stored {CURRENT_BLOCK, LAST_BLOCK} (db bc) (db (fst (SaveLastBlock X b bc)))"
  by (auto simp: SaveCurrentBlock_def SaveLastBlock_def split: sum.splits intro!: db_grows_put [OF assms])

lemma move_pointers_grow:
  assumes "store_laws X view stored"
  shows "db_grows X stored {CURRENT_BLOCK, LAST_BLOCK} (db bc) (db (fst (move_pointers X b bc)))"
proof -
  note g = save_pointers_grow [OF assms, of _ b]
  have c: "SaveCurrentBlock X b s = (s', r) \<Longrightarrow> db_grows X stored {CURRENT_BLOCK, LAST_BLOCK} (db s) (db s')"
    and l: "SaveLastBlock X b s = (s', r) \<Longrightarrow> db_grows X stored {CURRENT_BLOCK, LAST_BLOCK} (db s) (db s')"
    for s s' r using g [of s] by simp_all
  show ?thesis
    by (auto simp: move_pointers_def split: outcome.splits prod.splits dest!: c l intro: db_grows_trans)
qed

section \<open>What a restart finds\<close>

text \<open>The root under a key opens a trie with the content of the handle; without a root it is empty.\<close>

definition persisted ::
    "('db, 'tr, 'nd, 'tdb) store_ext \<Rightarrow> ('tr \<Rightarrow> bytes \<Rightarrow> bytes option)
      \<Rightarrow> ('db \<Rightarrow> bytes \<Rightarrow> (bytes \<Rightarrow> bytes option) \<Rightarrow> bool) \<Rightarrow> bytes \<Rightarrow> 'db \<Rightarrow> 'tr option \<Rightarrow> bool" where
  "persisted X view stored key d h \<longleftrightarrow>
     (\<exists>t. h = Some t \<and> (case db_Get X d key of
        Inr r \<Rightarrow> stored d r (view t)
      | Inl e \<Rightarrow> e = ErrNotFound \<and> view t = Map.empty))"

definition durable ::
    "('db, 'tr, 'nd, 'tdb) store_ext \<Rightarrow> ('tr \<Rightarrow> bytes \<Rightarrow> bytes option)
      \<Rightarrow> ('db \<Rightarrow> bytes \<Rightarrow> (bytes \<Rightarrow> bytes option) \<Rightarrow> bool) \<Rightarrow> ('db, 'tr) Blockchain \<Rightarrow> bool" where
  "durable X view stored bc \<longleftrightarrow>
     persisted X view stored ROOT_HASH (db bc) (tr bc)
   \<and> persisted X view stored TX_ROOT_HASH (db bc) (txTrie bc)
   \<and> persisted X view stored ACC_ROOT_HASH (db bc) (accTrie bc)"

lemma persisted_grows:
  assumes "persisted X view stored k d h" "db_grows X stored K d d'" "k \<in> set db_keys" "k \<notin> K"
  shows "persisted X view stored k d' h"
proof -
  have "db_Get X d' k = db_Get X d k" using assms by (simp add: db_grows_def)
  then show ?thesis using assms(1,2) by (auto simp: persisted_def db_grows_def split: sum.splits)
qed

text \<open>A write that returns without an error leaves the root of its own trie behind.\<close>

lemma save_account_persisted:
  assumes laws: "store_laws X view stored" and s: "SaveAccountToTrie X a bc = (bc', Ok u)"
  shows "persisted X view stored ACC_ROOT_HASH (db bc') (accTrie bc')"
proof -
  from s obtain t d t2 r d' t' where
    c: "commit_nodes X (db bc) t = (d, t2, Inr r)" and p: "db_Put X d ACC_ROOT_HASH r = Inr d'"
    and n: "RestoreTrieFromRootHash X d' r = Inr t'" "accTrie bc' = Some t'" "db bc' = d'"
    by (auto simp: SaveAccountToTrie_def Let_def split: option.splits prod.splits sum.splits)
  have "stored d' r (view t)"
    using commit_nodes_stored [OF store_node [OF laws] c] law_put_stored [OF store_node [OF laws] p] by simp
  with n restore_view [OF store_node [OF laws] this n(1)] law_put [OF store_key [OF laws] p]
  show ?thesis by (simp add: persisted_def)
qed

lemma save_transaction_persisted:
  assumes laws: "store_laws X view stored" and s: "SaveTransactionToTrie X tx bc = (bc', Ok u)"
  shows "persisted X view stored TX_ROOT_HASH (db bc') (txTrie bc')"
proof -
  from s obtain t d t2 r d' t' where
    c: "commit_nodes X (db bc) t = (d, t2, Inr r)" and p: "db_Put X d TX_ROOT_HASH r = Inr d'"
    and n: "RestoreTrieFromRootHash X d' r = Inr t'" "txTrie bc' = Some t'" "db bc' = d'"
    by (auto simp: SaveTransactionToTrie_def Let_def split: option.splits prod.splits sum.splits)
  have "stored d' r (view t)"
    using commit_nodes_stored [OF store_node [OF laws] c] law_put_stored [OF store_node [OF laws] p] by simp
  with n restore_view [OF store_node [OF laws] this n(1)] law_put [OF store_key [OF laws] p]
  show ?thesis by (simp add: persisted_def)
qed

lemma store_block_persisted:
  assumes laws: "store_laws X view stored" and s: "store_block X b bc = (bc', Ok u)"
  shows "persisted X view stored ROOT_HASH (db bc') (tr bc')"
proof -
  from s obtain t d t2 r d' t' where
    c: "commit_nodes X (db bc) t = (d, t2, Inr r)" and p: "db_Put X d ROOT_HASH r = Inr d'"
    and n: "RestoreTrieFromRootHash X d r = Inr t'" "tr bc' = Some t'" "db bc' = d'"
    by (auto simp: store_block_def Let_def split: option.splits prod.splits sum.splits)
  have st: "stored d r (view t)" by (rule commit_nodes_stored [OF store_node [OF laws] c])
  then have "stored d' r (view t)" using law_put_stored [OF store_node [OF laws] p] by simp
  with n restore_view [OF store_node [OF laws] st n(1)] law_put [OF store_key [OF laws] p]
  show ?thesis by (simp add: persisted_def)
qed

section \<open>Every write keeps it\<close>

lemma durable_drop [simp]: "durable X view stored (drop_tx k bc) = durable X view stored bc"
  by (simp add: durable_def)

lemma durable_save_account:
  assumes "reliable X stored" "store_laws X view stored" "durable X view stored bc"
  shows "durable X view stored (fst (SaveAccountToTrie X a bc))"
proof -
  have "accTrie bc \<noteq> None" using assms(3) by (auto simp: durable_def persisted_def)
  then have "snd (SaveAccountToTrie X a bc) = Ok ()" by (rule SaveAccountToTrie_reliable [OF assms(1,2)])
  then have "SaveAccountToTrie X a bc = (fst (SaveAccountToTrie X a bc), Ok ())" by (metis prod.collapse)
  from save_account_persisted [OF assms(2) this] persisted_grows [OF _ save_account_grows [OF assms(2)], of view _ bc _ a] assms(3)
  show ?thesis by (simp add: durable_def frame_simps)
qed

lemma durable_save_transaction:
  assumes "reliable X stored" "store_laws X view stored" "durable X view stored bc"
  shows "durable X view stored (fst (SaveTransactionToTrie X tx bc))"
proof -
  have "txTrie bc \<noteq> None" using assms(3) by (auto simp: durable_def persisted_def)
  then have "snd (SaveTransactionToTrie X tx bc) = Ok ()" by (rule SaveTransactionToTrie_reliable [OF assms(1,2)])
  then have "SaveTransactionToTrie X tx bc = (fst (SaveTransactionToTrie X tx bc), Ok ())" by (metis prod.collapse)
  from save_transaction_persisted [OF assms(2) this]
    persisted_grows [OF _ save_transaction_grows [OF assms(2)], of view _ bc _ tx] assms(3)
  show ?thesis by (simp add: durable_def frame_simps)
qed

lemma durable_grows:
  assumes "durable X view stored bc" "db_grows X stored {CURRENT_BLOCK, LAST_BLOCK} (db bc) (db bc')"
    "tr bc' = tr bc" "txTrie bc' = txTrie bc" "accTrie bc' = accTrie bc"
  shows "durable X view stored bc'"
  using assms persisted_grows [OF _ assms(2), of view] by (simp add: durable_def)

lemma move_pointers_frame:
  "tr (fst (move_pointers X b bc)) = tr bc" "txTrie (fst (move_pointers X b bc)) = txTrie bc"
  "accTrie (fst (move_pointers X b bc)) = accTrie bc"
  by (auto simp: move_pointers_def SaveCurrentBlock_def SaveLastBlock_def
      split: outcome.splits prod.splits sum.splits)

lemma durable_save_block:
  assumes "reliable X stored" "store_laws X view stored" "durable X view stored bc"
  shows "durable X view stored (fst (SaveBlockToTrie X b bc))"
proof -
  obtain bc1 r where mv: "move_pointers X b bc = (bc1, r)" by (cases "move_pointers X b bc")
  have d1: "durable X view stored bc1"
    using durable_grows [OF assms(3) move_pointers_grow [OF assms(2), of bc b]] move_pointers_frame [of X b bc] mv by simp
  then have "tr bc1 \<noteq> None" by (auto simp: durable_def persisted_def)
  then have "snd (store_block X b bc1) = Ok ()" by (rule store_block_reliable [OF assms(1,2)])
  then have "store_block X b bc1 = (fst (store_block X b bc1), Ok ())" by (metis prod.collapse)
  from store_block_persisted [OF assms(2) this]
    persisted_grows [OF _ store_block_grows [OF assms(2)], of view _ bc1 _ b] d1
  have "durable X view stored (fst (store_block X b bc1))" by (simp add: durable_def frame_simps)
  with d1 mv show ?thesis by (cases r) (simp_all add: SaveBlockToTrie_def)
qed


text \<open>So do the settlement and both loops.\<close>

lemma durable_settle:
  assumes "reliable X stored" "store_good X view stored bc" "durable X view stored bc"
    "new_and_payable view bc tx f t"
  shows "durable X view stored (debit_state X tx f bc)" "durable X view stored (credit_state X tx f t bc)"
    "durable X view stored (record_state X tx f t bc)"
  using durable_save_account [OF assms(1) store_goodD(3) [OF assms(2)]]
    durable_save_transaction [OF assms(1) store_goodD(3) [OF assms(2)]] assms(3) by blast+

lemma process_tx_durable:
  assumes "reliable X stored" "process_tx X C tx bc = (bc', s)" "store_good X view stored bc"
    "durable X view stored bc"
  shows "durable X view stored bc'"
  using assms(2,3)
proof (cases rule: process_tx_cases)
  case same
  then show ?thesis using assms(4) by auto
next
  case (moved f t k)
  then show ?thesis using durable_settle [OF assms(1,3,4) moved(1)] by auto
qed

lemma process_id_good:
  assumes "process_id X C net txID bc = (bc', s)" "store_good X view stored bc"
  shows "store_good X view stored bc'"
  using assms
proof (cases rule: process_id_cases)
  case same
  then show ?thesis using assms(2) by auto
next
  case (moved f t k tx)
  then have "acc_look view bc (From tx) = Some f" "acc_look view bc (To tx) = Some t"
    by (simp_all add: new_and_payable_def)
  from settle_look(7-9) [OF assms(2) this] moved(5) show ?thesis by auto
qed

lemma process_id_durable:
  assumes "reliable X stored" "process_id X C net txID bc = (bc', s)" "store_good X view stored bc"
    "durable X view stored bc"
  shows "durable X view stored bc'"
  using assms(2,3)
proof (cases rule: process_id_cases)
  case same
  then show ?thesis using assms(4) by auto
next
  case (moved f t k tx)
  then show ?thesis using durable_settle [OF assms(1,3,4) moved(1)] by auto
qed

lemma mempool_processing_durable:
  assumes "reliable X stored" "store_good X view stored bc" "durable X view stored bc"
    "ProcessMempoolTransactions X C ks bc = (bc', ids, r)"
  shows "store_good X view stored bc' \<and> durable X view stored bc' \<and> pool_look bc' \<subseteq>\<^sub>m pool_look bc"
proof (cases "bcMempool bc")
  case None
  with assms(2-4) show ?thesis by (simp add: ProcessMempoolTransactions_def)
next
  case (Some mp)
  then have "process_txs X C (GetAllTransactions ks mp) [] bc = (bc', ids, r)"
    using assms(4) by (simp add: ProcessMempoolTransactions_def)
  then show ?thesis
  proof (rule process_txs_inv)
    fix tx b b' s
    assume b: "store_good X view stored b \<and> durable X view stored b \<and> pool_look b \<subseteq>\<^sub>m pool_look bc"
      and st: "process_tx X C tx b = (b', s)"
    then show "store_good X view stored b' \<and> durable X view stored b' \<and> pool_look b' \<subseteq>\<^sub>m pool_look bc"
      using process_tx_records(1,3) [OF st] process_tx_durable [OF assms(1) st] map_le_trans by blast
  qed (use assms(2,3) in simp)
qed

lemma ids_processing_durable:
  assumes "reliable X stored" "store_good X view stored bc" "durable X view stored bc"
    "ProcessTransactionsByIDs X C net ids bc = (bc', r)"
  shows "store_good X view stored bc' \<and> durable X view stored bc' \<and> pool_look bc' \<subseteq>\<^sub>m pool_look bc"
proof -
  from assms(4) have "process_ids X C net 0 (elems ids) bc = (bc', r)"
    by (simp add: ProcessTransactionsByIDs_def)
  then show ?thesis
  proof (rule process_ids_inv)
    fix txID j b b' s
    assume b: "store_good X view stored b \<and> durable X view stored b \<and> pool_look b \<subseteq>\<^sub>m pool_look bc"
      and st: "process_id X C (net j) txID b = (b', s)"
    then show "store_good X view stored b' \<and> durable X view stored b' \<and> pool_look b' \<subseteq>\<^sub>m pool_look bc"
      using process_id_good [OF st] process_id_durable [OF assms(1) st] process_id_pool(1) [OF st] map_le_trans
      by blast
  qed (use assms(2,3) in simp)
qed

section \<open>The state of a healthy node\<close>

definition node_good ::
    "('db, 'tr, 'nd, 'tdb) store_ext \<Rightarrow> ('tr \<Rightarrow> bytes \<Rightarrow> bytes option)
      \<Rightarrow> ('db \<Rightarrow> bytes \<Rightarrow> (bytes \<Rightarrow> bytes option) \<Rightarrow> bool) \<Rightarrow> ('db, 'tr) Blockchain \<Rightarrow> bool" where
  "node_good X view stored bc \<longleftrightarrow> chain_inv X view stored bc \<and> store_good X view stored bc
     \<and> durable X view stored bc \<and> bcMempool bc \<noteq> None \<and> printable bc"

lemma node_goodD:
  assumes "node_good X view stored bc"
  shows "chain_inv X view stored bc" "store_good X view stored bc" "durable X view stored bc"
    "bcMempool bc \<noteq> None" "printable bc" "blk_good X view stored bc" "store_laws X view stored"
  using assms store_goodD(3) by (auto simp: node_good_def chain_inv_def)

lemma printable_le: "pool_look b \<subseteq>\<^sub>m pool_look bc \<Longrightarrow> printable bc \<Longrightarrow> printable b"
  unfolding printable_def map_le_def by (metis domI)

lemma SaveBlockToTrie_store_good:
  "store_good X view stored (fst (SaveBlockToTrie X b bc)) = store_good X view stored bc"
  using acc_good_cong [of "fst (SaveBlockToTrie X b bc)" bc X view stored]
    tx_good_cong [of "fst (SaveBlockToTrie X b bc)" bc X view stored]
  by (simp add: store_good_def SaveBlockToTrie_frame)

lemma pool_look_save_block [simp]: "pool_look (fst (SaveBlockToTrie X b bc)) = pool_look bc"
  by (simp add: pool_look_def fun_eq_iff SaveBlockToTrie_frame)

text \<open>The mempool field stays set.\<close>

lemma bcMempool_process_tx: "bcMempool (fst (process_tx X C tx bc)) = None \<longleftrightarrow> bcMempool bc = None"
proof -
  have s: "settle X tx f t bc = (b, r) \<Longrightarrow> bcMempool b = bcMempool bc" for f t b r
    using settle_states [of X tx f t bc] by (auto simp: frame_simps)
  show ?thesis
    by (auto simp: process_tx_def Let_def drop_tx_def s
        split: outcome.splits if_splits prod.splits settlement.splits)
qed

lemma bcMempool_process_id: "bcMempool (fst (process_id X C net k bc)) = None \<longleftrightarrow> bcMempool bc = None"
proof -
  have s: "settle X tx f t bc = (b, r) \<Longrightarrow> bcMempool b = bcMempool bc" for tx f t b r
    using settle_states [of X tx f t bc] by (auto simp: frame_simps)
  show ?thesis
    by (auto simp: process_id_def drop_tx_def s
        split: sum.splits option.splits outcome.splits if_splits prod.splits settlement.splits)
qed

lemma bcMempool_mempool:
  assumes "ProcessMempoolTransactions X C ks bc = (bc', ids, r)"
  shows "bcMempool bc' = None \<longleftrightarrow> bcMempool bc = None"
proof (cases "bcMempool bc")
  case None
  with assms show ?thesis by (simp add: ProcessMempoolTransactions_def)
next
  case (Some mp)
  then have "process_txs X C (GetAllTransactions ks mp) [] bc = (bc', ids, r)"
    using assms by (simp add: ProcessMempoolTransactions_def)
  then have "bcMempool bc' \<noteq> None"
  proof (rule process_txs_inv)
    fix tx b b' s
    assume "bcMempool b \<noteq> None" "process_tx X C tx b = (b', s)"
    then show "bcMempool b' \<noteq> None" using bcMempool_process_tx [of X C tx b] by simp
  qed (simp add: Some)
  with Some show ?thesis by simp
qed

lemma bcMempool_ids:
  assumes "ProcessTransactionsByIDs X C net ids bc = (bc', r)" "bcMempool bc \<noteq> None"
  shows "bcMempool bc' \<noteq> None"
proof -
  from assms(1) have "process_ids X C net 0 (elems ids) bc = (bc', r)"
    by (simp add: ProcessTransactionsByIDs_def)
  then show ?thesis
  proof (rule process_ids_inv)
    fix txID j b b' s
    assume "bcMempool b \<noteq> None" "process_id X C (net j) txID b = (b', s)"
    then show "bcMempool b' \<noteq> None" using bcMempool_process_id [of X C "net j" txID b] by simp
  qed (rule assms(2))
qed


text \<open>A save that fails only for its index leaves the state as it is.\<close>

lemma SaveBlockToTrie_cases_reliable:
  assumes "reliable X stored" "chain_inv X view stored bc" "SaveBlockToTrie X b bc = (bc', r)"
  shows "r = Ok () \<or> bc' = bc \<and> r = Err (Fail (MsgBadBlockIndex (Index b)))"
proof -
  obtain c l where cl: "GetCurrentBlock X bc = Ok c" "GetLastBlock X bc = Ok l" and good: "blk_good X view stored bc"
    using assms(2) by (auto simp: chain_inv_def)
  show ?thesis
  proof (cases "Index b = 0 \<or> Index b = Index c + 1")
    case True
    then have "snd (SaveBlockToTrie X b bc) = Ok ()"
      using SaveBlockToTrie_reliable [OF assms(1) good, of b] cl by auto
    with assms(3) show ?thesis by simp
  next
    case False
    with SaveBlockToTrie_bad_index [OF cl] assms(3) show ?thesis by simp
  qed
qed

lemma save_block_node_good:
  assumes "reliable X stored" "node_good X view stored bc" "SaveBlockToTrie X b bc = (bc', r)"
  shows "node_good X view stored bc'"
proof -
  note ng = node_goodD [OF assms(2)]
  from SaveBlockToTrie_cases_reliable [OF assms(1) ng(1) assms(3)] show ?thesis
  proof
    assume "r = Ok ()"
    with assms(3) have s: "SaveBlockToTrie X b bc = (bc', Ok ())" by simp
    then have bc': "bc' = fst (SaveBlockToTrie X b bc)" by simp
    have "chain_inv X view stored bc'" using SaveBlockToTrie_inv [OF ng(6) ng(1) s] by blast
    moreover have "store_good X view stored bc'" using ng(2) by (simp add: bc' SaveBlockToTrie_store_good)
    moreover have "durable X view stored bc'" unfolding bc' by (rule durable_save_block [OF assms(1) ng(7,3)])
    moreover have "bcMempool bc' \<noteq> None" using ng(4) by (simp add: bc' SaveBlockToTrie_frame)
    moreover have "printable bc'" using ng(5) by (simp add: bc' printable_def)
    ultimately show ?thesis by (simp add: node_good_def)
  qed (use assms(2) in simp)
qed

text \<open>Proposing and accepting keep a healthy node healthy, whatever they return.\<close>

lemma propose_node_good:
  assumes "reliable X stored" "node_good X view stored bc" "ProposeNewBlock X C now ks bc = (bc', r)"
  shows "node_good X view stored bc'"
proof -
  note ng = node_goodD [OF assms(2)]
  obtain b1 ids q where p: "ProcessMempoolTransactions X C ks bc = (b1, ids, q)"
    by (cases "ProcessMempoolTransactions X C ks bc")
  have n1: "node_good X view stored b1"
    using mempool_processing_durable [OF assms(1) ng(2,3) p] bcMempool_mempool [OF p] ng
      chain_inv_cong [OF same_chain_mempool [OF store_key [OF ng(7)] p]] printable_le
    by (auto simp: node_good_def)
  have "bc' = bc \<or> bc' = b1 \<or> (\<exists>nb r'. SaveBlockToTrie X nb b1 = (bc', r'))"
    using assms(3) p by (auto simp: ProposeNewBlock_def Let_def split: outcome.splits if_splits prod.splits)
  with assms(2) n1 save_block_node_good [OF assms(1) n1] show ?thesis by blast
qed

lemma handle_node_good:
  assumes "reliable X stored" "node_good X view stored bc" "HandleNewBlock X C net b bc = (bc', r)"
  shows "node_good X view stored bc'"
proof -
  note ng = node_goodD [OF assms(2)]
  obtain b1 q where p: "ProcessTransactionsByIDs X C net (Txns b) bc = (b1, q)"
    by (cases "ProcessTransactionsByIDs X C net (Txns b) bc")
  have n1: "node_good X view stored b1"
    using ids_processing_durable [OF assms(1) ng(2,3) p] bcMempool_ids [OF p ng(4)] ng
      chain_inv_cong [OF same_chain_ids [OF store_key [OF ng(7)] p]] printable_le
    by (auto simp: node_good_def)
  have "bc' = bc \<or> bc' = b1 \<or> (\<exists>r'. SaveBlockToTrie X b b1 = (bc', r'))"
    using assms(3) p by (auto simp: HandleNewBlock_def split: outcome.splits if_splits prod.splits)
  with assms(2) n1 save_block_node_good [OF assms(1) n1] show ?thesis by blast
qed

end
