(* ===== verification/Startup.thy ===== *)
theory Startup
  imports Durability
begin

text \<open>
  Starting a node: \<open>Init\<close> of chain.go and the sequence of \<open>main\<close> in cmd/node/node.go up to
  the point where the network runs. The host (working directory, opening the database, reading
  the configuration file) is a parameter. The theorems say what a first start and a restart
  find, and which failures \<open>Init\<close> does not report.
\<close>

section \<open>The configuration file\<close>

text \<open>An \<open>int\<close> field: a number without fraction or exponent, of 64 bits.\<close>

fun dec_int :: "json \<Rightarrow> int \<Rightarrow> int option" where
  "dec_int JNull old = Some old"
| "dec_int (JNum l) old =
     (case l of
        CHR ''-'' # r \<Rightarrow>
          (case ParseUint r of
             Some w \<Rightarrow> if uint w \<le> 2 ^ 63 then Some (- uint w) else None
           | None \<Rightarrow> None)
      | _ \<Rightarrow>
          (case ParseUint l of
             Some w \<Rightarrow> if uint w < 2 ^ 63 then Some (uint w) else None
           | None \<Rightarrow> None))"
| "dec_int _ old = None"

definition node_fields :: "string list" where
  "node_fields = [''publicKey'', ''url'', ''index'', ''apiUrl'']"

definition node_field :: "string \<Rightarrow> json \<Rightarrow> Node \<Rightarrow> Node option" where
  "node_field n v x =
     (if n = ''publicKey'' then map_option (\<lambda>s. x\<lparr>NodePublicKey := s\<rparr>) (dec_string v (NodePublicKey x))
      else if n = ''url'' then map_option (\<lambda>s. x\<lparr>URL := s\<rparr>) (dec_string v (URL x))
      else if n = ''index'' then map_option (\<lambda>i. x\<lparr>NodeIndex := i\<rparr>) (dec_int v (NodeIndex x))
      else map_option (\<lambda>s. x\<lparr>ApiUrl := s\<rparr>) (dec_string v (ApiUrl x)))"

fun dec_nodes :: "json \<Rightarrow> Node list option" where
  "dec_nodes JNull = Some []"
| "dec_nodes (JArr xs) =
     (if list_all (\<lambda>x. dec_struct node_fields node_field x zero_Node \<noteq> None) xs
      then Some (map (\<lambda>x. the (dec_struct node_fields node_field x zero_Node)) xs) else None)"
| "dec_nodes _ = None"

definition config_fields :: "string list" where
  "config_fields = [''nodes'', ''privateKeyHex'', ''index'']"

definition config_field :: "string \<Rightarrow> json \<Rightarrow> Config \<Rightarrow> Config option" where
  "config_field n v c =
     (if n = ''nodes'' then map_option (\<lambda>ns. c\<lparr>Nodes := ns\<rparr>) (dec_nodes v)
      else if n = ''privateKeyHex'' then
        map_option (\<lambda>s. c\<lparr>PrivateKeyHex := s\<rparr>) (dec_string v (PrivateKeyHex c))
      else map_option (\<lambda>i. c\<lparr>ConfigIndex := i\<rparr>) (dec_int v (ConfigIndex c)))"

definition unmarshal_Config :: "bytes \<Rightarrow> Config option" where
  "unmarshal_Config s =
     Option.bind (json_parse s) (\<lambda>v. dec_struct config_fields config_field v zero_Config)"

section \<open>Init\<close>

record 'db host_ext =
  Getwd :: "error + string"
  leveldb_New :: "string \<Rightarrow> error + 'db"
  ReadFile :: "string \<Rightarrow> error + bytes"

text \<open>\<open>filepath.Join(currentDir, "leveldb_data")\<close>, for the cleaned path that \<open>Getwd\<close> returns.\<close>

definition db_path :: "string \<Rightarrow> string" where
  "db_path dir = (if dir = ''/'' then ''/leveldb_data'' else dir @ ''/leveldb_data'')"

definition InitLevelDB :: "'db host_ext \<Rightarrow> string \<Rightarrow> error + 'db" where
  "InitLevelDB H dbPath = leveldb_New H dbPath"

definition first_block :: "uint64 \<Rightarrow> Block" where
  "first_block now =
     \<lparr>Header = zero_BlockHeader\<lparr>Version := 1, MerkleRoot := block_key 0, Time := now\<rparr>,
      Index = 0, Txns = Some []\<rparr>"

text \<open>
  The three parts that set up the tries. The second component is what the function returns when it
  stops there; \<open>None\<close> means that it goes on. In the first part every failure is printed and
  the function returns without an error.
\<close>

definition init_blocks ::
    "('db, 'tr, 'nd, 'tdb) store_ext \<Rightarrow> uint64 \<Rightarrow> ('db, 'tr) Blockchain
      \<Rightarrow> ('db, 'tr) Blockchain \<times> unit outcome option" where
  "init_blocks X now bc =
     (case db_Get X (db bc) ROOT_HASH of
        Inl ErrNotFound \<Rightarrow>
          (case CreateNewTrie X (db bc) of
             Inl e \<Rightarrow> (bc\<lparr>tr := None\<rparr>, Some (Ok ()))
           | Inr t \<Rightarrow>
               (case SaveBlockToTrie X (first_block now) (bc\<lparr>tr := Some t\<rparr>) of
                  (bc', Err e) \<Rightarrow> (bc', Some (Ok ()))
                | (bc', Panic) \<Rightarrow> (bc', Some Panic)
                | (bc', Ok _) \<Rightarrow> (bc', None)))
      | Inl e \<Rightarrow> (bc, Some (Ok ()))
      | Inr rootHash \<Rightarrow>
          (case RestoreTrieFromRootHash X (db bc) (BytesToHash X rootHash) of
             Inl e \<Rightarrow> (bc\<lparr>tr := None\<rparr>, Some (Ok ()))
           | Inr t \<Rightarrow> (bc\<lparr>tr := Some t\<rparr>, None)))"

definition init_transactions ::
    "('db, 'tr, 'nd, 'tdb) store_ext \<Rightarrow> ('db, 'tr) Blockchain
      \<Rightarrow> ('db, 'tr) Blockchain \<times> unit outcome option" where
  "init_transactions X bc =
     (case db_Get X (db bc) TX_ROOT_HASH of
        Inl ErrNotFound \<Rightarrow>
          (case CreateNewTrie X (db bc) of
             Inl e \<Rightarrow> (bc\<lparr>txTrie := None\<rparr>, Some (Err (Wrap MsgNewTrie e)))
           | Inr t \<Rightarrow> (bc\<lparr>txTrie := Some t\<rparr>, None))
      | Inl e \<Rightarrow> (bc, Some (Err e))
      | Inr txRootHash \<Rightarrow>
          (case RestoreTrieFromRootHash X (db bc) (BytesToHash X txRootHash) of
             Inl e \<Rightarrow> (bc\<lparr>txTrie := None\<rparr>, Some (Err (Wrap MsgTrieRestore e)))
           | Inr t \<Rightarrow> (bc\<lparr>txTrie := Some t\<rparr>, None)))"

text \<open>The third part has no branch for other errors: the root it then uses is the nil slice.\<close>

definition init_accounts_trie ::
    "('db, 'tr, 'nd, 'tdb) store_ext \<Rightarrow> ('db, 'tr) Blockchain
      \<Rightarrow> ('db, 'tr) Blockchain \<times> unit outcome option" where
  "init_accounts_trie X bc =
     (case db_Get X (db bc) ACC_ROOT_HASH of
        Inl ErrNotFound \<Rightarrow>
          (case CreateNewTrie X (db bc) of
             Inl e \<Rightarrow> (bc\<lparr>accTrie := None\<rparr>, Some (Err (Wrap MsgNewTrie e)))
           | Inr t \<Rightarrow> (bc\<lparr>accTrie := Some t\<rparr>, None))
      | r \<Rightarrow>
          (case RestoreTrieFromRootHash X (db bc)
                  (BytesToHash X (case r of Inl _ \<Rightarrow> [] | Inr accRootHash \<Rightarrow> accRootHash)) of
             Inl e \<Rightarrow> (bc\<lparr>accTrie := None\<rparr>, Some (Err (Wrap MsgTrieRestore e)))
           | Inr t \<Rightarrow> (bc\<lparr>accTrie := Some t\<rparr>, None)))"

text \<open>The rest: the blocks that are only printed, the configuration, the test accounts, the mempool.\<close>

definition init_config ::
    "('db, 'tr, 'nd, 'tdb) store_ext \<Rightarrow> ('sk, 'pk) crypto_ext \<Rightarrow> 'db host_ext \<Rightarrow> ('db, 'tr) Blockchain
      \<Rightarrow> ('db, 'tr) Blockchain \<times> unit outcome" where
  "init_config X C H bc =
     (case ReadFile H ''config.json'' of
        Inl e \<Rightarrow> (bc, Err (Wrap MsgReadConfig e))
      | Inr configFile \<Rightarrow>
          (case unmarshal_Config configFile of
             None \<Rightarrow> (bc, Err (Wrap MsgParseConfig JsonError))
           | Some config \<Rightarrow>
               (case InitializeTestAccounts X C (bc\<lparr>bcConfig := config\<rparr>) of
                  (bc', Err e) \<Rightarrow> (bc', Err (Wrap MsgInitAccounts e))
                | (bc', Panic) \<Rightarrow> (bc', Panic)
                | (bc', Ok _) \<Rightarrow> (bc'\<lparr>bcMempool := Some NewMempool\<rparr>, Ok ()))))"

definition init_tries ::
    "('db, 'tr, 'nd, 'tdb) store_ext \<Rightarrow> uint64 \<Rightarrow> ('db, 'tr) Blockchain
      \<Rightarrow> ('db, 'tr) Blockchain \<times> unit outcome option" where
  "init_tries X now bc =
     (case init_blocks X now bc of
        (bc1, Some r) \<Rightarrow> (bc1, Some r)
      | (bc1, None) \<Rightarrow>
          (case init_transactions X bc1 of
             (bc2, Some r) \<Rightarrow> (bc2, Some r)
           | (bc2, None) \<Rightarrow> init_accounts_trie X bc2))"

text \<open>
  Where the database cannot be opened the code also sets the field \<open>db\<close> to nil; the caller,
  \<open>main\<close>, then ends the process, so the model leaves the field alone. \<open>GetInstance\<close> is
  the one struct of the process, all of its fields nil or zero before \<open>Init\<close>.
\<close>

definition GetInstance :: "'db \<Rightarrow> ('db, 'tr) Blockchain" where
  "GetInstance nil_db = \<lparr>db = nil_db, tr = None, txTrie = None, accTrie = None,
     bcConfig = zero_Config, bcMempool = None, bcP2P = False\<rparr>"

definition Init ::
    "('db, 'tr, 'nd, 'tdb) store_ext \<Rightarrow> ('sk, 'pk) crypto_ext \<Rightarrow> 'db host_ext \<Rightarrow> uint64
      \<Rightarrow> ('db, 'tr) Blockchain \<Rightarrow> ('db, 'tr) Blockchain \<times> unit outcome" where
  "Init X C H now bc =
     (case Getwd H of
        Inl e \<Rightarrow> (bc, Err (Wrap MsgGetwd e))
      | Inr currentDir \<Rightarrow>
          (case InitLevelDB H (db_path currentDir) of
             Inl e \<Rightarrow> (bc, Err (Wrap MsgOpenDB e))
           | Inr d \<Rightarrow>
               (case init_tries X now (bc\<lparr>db := d\<rparr>) of
                  (bc1, Some r) \<Rightarrow> (bc1, r)
                | (bc1, None) \<Rightarrow> init_config X C H bc1)))"

section \<open>The test accounts\<close>

lemma init_accounts_keep:
  assumes C: "crypto_laws C" and P: "P bc"
    and step: "\<And>a b. P b \<Longrightarrow> san_Account a = a \<Longrightarrow> P (fst (SaveAccountToTrie X a b))"
  shows "P (fst (InitializeTestAccounts X C bc))"
proof -
  have one: "P (fst (init_account X C n pk b))" if "P b" for n pk b
    using that step NewAccountFromPublicKey_san [OF C]
    by (auto simp: init_account_def split: outcome.splits prod.splits) (metis fst_conv)+
  obtain b1 r1 where 1: "init_account X C 1 pubKey1 bc = (b1, r1)" by (cases "init_account X C 1 pubKey1 bc")
  obtain b2 r2 where 2: "init_account X C 2 pubKey2 b1 = (b2, r2)" by (cases "init_account X C 2 pubKey2 b1")
  obtain b3 r3 where 3: "init_account X C 3 pubKey3 b2 = (b3, r3)" by (cases "init_account X C 3 pubKey3 b2")
  from one [OF P, of 1 pubKey1] 1 have "P b1" by simp
  moreover from one [OF this, of 2 pubKey2] 2 have "P b2" by simp
  moreover from one [OF this, of 3 pubKey3] 3 have "P b3" by simp
  ultimately show ?thesis by (simp add: init_accounts_run [OF 1 2 3])
qed

text \<open>The three keys of account.go are valid.\<close>

definition test_keys :: "('sk, 'pk) crypto_ext \<Rightarrow> bool" where
  "test_keys C \<longleftrightarrow> list_all (\<lambda>pk. is_ok (NewAccountFromPublicKey C pk 1000)) [pubKey1, pubKey2, pubKey3]"

lemma init_account_reliable:
  assumes "reliable X stored" "acc_good X view stored bc" "is_ok (NewAccountFromPublicKey C pk 1000)"
  shows "snd (init_account X C n pk bc) = Ok ()"
proof -
  obtain a where a: "NewAccountFromPublicKey C pk 1000 = Ok a" using assms(3) by (auto simp: is_ok_iff)
  have "snd (SaveAccountToTrie X a bc) = Ok ()"
    by (rule SaveAccountToTrie_reliable [OF assms(1), of view]) (use assms(2) in \<open>simp_all add: acc_good_def\<close>)
  moreover have "GetAccountFromTrie X (Address a) bc \<noteq> Panic" by (rule acc.get_no_panic [OF assms(2)])
  ultimately show ?thesis using a
    by (auto simp: init_account_def split: outcome.splits prod.splits)
qed

lemma init_accounts_effect:
  assumes "reliable X stored" "crypto_laws C" "test_keys C" "acc_good X view stored bc"
  shows "snd (InitializeTestAccounts X C bc) = Ok ()"
    "acc_good X view stored (fst (InitializeTestAccounts X C bc))"
    "adds_test_accounts (acc_look view bc) (acc_look view (fst (InitializeTestAccounts X C bc)))"
proof -
  obtain b1 r1 where 1: "init_account X C 1 pubKey1 bc = (b1, r1)" by (cases "init_account X C 1 pubKey1 bc")
  obtain b2 r2 where 2: "init_account X C 2 pubKey2 b1 = (b2, r2)" by (cases "init_account X C 2 pubKey2 b1")
  obtain b3 r3 where 3: "init_account X C 3 pubKey3 b2 = (b3, r3)" by (cases "init_account X C 3 pubKey3 b2")
  note s1 = init_account_step [OF assms(1,2,4) 1]
  note s2 = init_account_step [OF assms(1,2) s1(1) 2]
  note s3 = init_account_step [OF assms(1,2) s2(1) 3]
  from init_account_reliable [OF assms(1), of view] assms(3,4) s1(1) s2(1) 1 2 3
  have "r1 = Ok () \<and> r2 = Ok () \<and> r3 = Ok ()" by (metis list.pred_inject(2) snd_conv test_keys_def)
  with init_accounts_run [OF 1 2 3] have run: "InitializeTestAccounts X C bc = (b3, Ok ())" by simp
  show "snd (InitializeTestAccounts X C bc) = Ok ()" by (simp add: run)
  show "acc_good X view stored (fst (InitializeTestAccounts X C bc))" using s3(1) by (simp add: run)
  show "adds_test_accounts (acc_look view bc) (acc_look view (fst (InitializeTestAccounts X C bc)))"
    using adds_test_accounts_trans [OF adds_test_accounts_trans [OF s1(3) s2(3)] s3(3)] by (simp add: run)
qed

section \<open>Opening what is on disk\<close>

text \<open>Two states with the same database whose handles have the same content.\<close>

definition same_content ::
    "('tr \<Rightarrow> bytes \<Rightarrow> bytes option) \<Rightarrow> ('db, 'tr) Blockchain \<Rightarrow> ('db, 'tr) Blockchain \<Rightarrow> bool" where
  "same_content view b bc \<longleftrightarrow> db b = db bc \<and> map_option view (tr b) = map_option view (tr bc)
     \<and> map_option view (txTrie b) = map_option view (txTrie bc)
     \<and> map_option view (accTrie b) = map_option view (accTrie bc)"

lemma map_option_view_None: "map_option view x = map_option view y \<Longrightarrow> x = None \<longleftrightarrow> y = None"
  by (cases x; cases y) simp_all

lemma same_content_looks:
  assumes "same_content view b bc"
  shows "blk_look view b = blk_look view bc" "tx_look view b = tx_look view bc"
    "acc_look view b = acc_look view bc"
    "GetCurrentBlock X b = GetCurrentBlock X bc" "GetLastBlock X b = GetLastBlock X bc"
  using assms
  by (auto simp: same_content_def blk_look_def tx_look_def acc_look_def GetCurrentBlock_def
      GetLastBlock_def fun_eq_iff split: option.splits)

lemma same_content_persisted:
  "map_option view h = map_option view h' \<Longrightarrow> persisted X view stored k d h = persisted X view stored k d h'"
  by (cases h; cases h'; cases "db_Get X d k") (simp_all add: persisted_def)

lemma same_content_good:
  assumes "same_content view b bc"
  shows "blk_good X view stored b = blk_good X view stored bc"
    "chain_inv X view stored b = chain_inv X view stored bc"
    "store_good X view stored b = store_good X view stored bc"
    "durable X view stored b = durable X view stored bc"
proof -
  note looks = same_content_looks [OF assms]
  have none: "tr b = None \<longleftrightarrow> tr bc = None" "txTrie b = None \<longleftrightarrow> txTrie bc = None"
    "accTrie b = None \<longleftrightarrow> accTrie bc = None"
    using assms map_option_view_None by (auto simp: same_content_def)
  show blk: "blk_good X view stored b = blk_good X view stored bc"
    by (simp add: blk_good_def none looks)
  show "chain_inv X view stored b = chain_inv X view stored bc"
    by (simp add: chain_inv_def blk looks)
  have "(\<forall>t k v. txTrie b = Some t \<longrightarrow> view t k = Some v \<longrightarrow> unmarshal_Transaction v \<noteq> None)
      = (\<forall>t k v. txTrie bc = Some t \<longrightarrow> view t k = Some v \<longrightarrow> unmarshal_Transaction v \<noteq> None)"
    using assms by (cases "txTrie b"; cases "txTrie bc") (simp_all add: same_content_def)
  then show "store_good X view stored b = store_good X view stored bc"
    by (simp add: store_good_def acc_good_def tx_good_def none looks)
  show "durable X view stored b = durable X view stored bc"
    using assms same_content_persisted [of view "tr b" "tr bc" X stored]
      same_content_persisted [of view "txTrie b" "txTrie bc" X stored] same_content_persisted [of view "accTrie b" "accTrie bc" X stored]
    by (simp add: durable_def same_content_def)
qed

text \<open>
  What is on disk under a key opens, with the content of the handle it was written from.
  \<open>stored d zero_hash Map.empty\<close> says that the empty trie can always be opened.
\<close>

lemma open_trie:
  assumes rel: "reliable X stored" and laws: "store_laws X view stored"
    and zero: "stored d zero_hash Map.empty" and p: "persisted X view stored k d h"
  shows "\<exists>t. map_option view h = Some (view t)
     \<and> (db_Get X d k = Inl ErrNotFound \<and> CreateNewTrie X d = Inr t
        \<or> (\<exists>r. db_Get X d k = Inr r \<and> RestoreTrieFromRootHash X d (BytesToHash X r) = Inr t))"
proof -
  from p obtain t0 where t0: "h = Some t0" by (auto simp: persisted_def)
  show ?thesis
  proof (cases "db_Get X d k")
    case (Inl e)
    with p t0 have e: "e = ErrNotFound" "view t0 = Map.empty" by (simp_all add: persisted_def)
    obtain t where t: "CreateNewTrie X d = Inr t"
      using rel_new [OF rel zero, of 0] by (auto simp: CreateNewTrie_def)
    then have "view t = Map.empty"
      using law_empty [OF store_trie [OF laws]] by (auto simp: CreateNewTrie_def)
    with Inl e t t0 show ?thesis by auto
  next
    case (Inr r)
    with p t0 have st: "stored d r (view t0)" by (simp add: persisted_def)
    then have hash: "BytesToHash X r = r" by (rule law_hash [OF store_node [OF laws]])
    obtain t where t: "RestoreTrieFromRootHash X d r = Inr t" using restore_reliable [OF rel st] by blast
    have "view t = view t0" by (rule restore_view [OF store_node [OF laws] st t])
    with Inr hash t t0 show ?thesis by auto
  qed
qed

lemma init_transactions_opens:
  assumes "reliable X stored" "store_laws X view stored" "stored (db bc) zero_hash Map.empty"
    "persisted X view stored TX_ROOT_HASH (db bc) h"
  shows "\<exists>t. init_transactions X bc = (bc\<lparr>txTrie := Some t\<rparr>, None) \<and> map_option view h = Some (view t)"
  using open_trie [OF assms] by (auto simp: init_transactions_def)

lemma init_accounts_trie_opens:
  assumes "reliable X stored" "store_laws X view stored" "stored (db bc) zero_hash Map.empty"
    "persisted X view stored ACC_ROOT_HASH (db bc) h"
  shows "\<exists>t. init_accounts_trie X bc = (bc\<lparr>accTrie := Some t\<rparr>, None) \<and> map_option view h = Some (view t)"
  using open_trie [OF assms] by (auto simp: init_accounts_trie_def)

lemma init_blocks_opens:
  assumes "reliable X stored" "store_laws X view stored" "stored (db bc) zero_hash Map.empty"
    "persisted X view stored ROOT_HASH (db bc) h" "db_Get X (db bc) ROOT_HASH \<noteq> Inl ErrNotFound"
  shows "\<exists>t. init_blocks X now bc = (bc\<lparr>tr := Some t\<rparr>, None) \<and> map_option view h = Some (view t)"
  using open_trie [OF assms(1-4)] assms(5) by (auto simp: init_blocks_def)

text \<open>The first block of a fresh database.\<close>

lemma first_block_san [simp]: "san_Block (first_block now) = first_block now" "Index (first_block now) = 0"
  by (simp_all add: san_Block_def san_header_def first_block_def zero_BlockHeader_def to_valid_ascii)



section \<open>The configuration and the test accounts\<close>

definition healthy ::
    "('db, 'tr, 'nd, 'tdb) store_ext \<Rightarrow> ('tr \<Rightarrow> bytes \<Rightarrow> bytes option)
      \<Rightarrow> ('db \<Rightarrow> bytes \<Rightarrow> (bytes \<Rightarrow> bytes option) \<Rightarrow> bool) \<Rightarrow> ('db, 'tr) Blockchain \<Rightarrow> bool" where
  "healthy X view stored bc \<longleftrightarrow> chain_inv X view stored bc \<and> store_good X view stored bc
     \<and> durable X view stored bc"

lemma healthy_node_good: "node_good X view stored bc \<Longrightarrow> healthy X view stored bc"
  by (simp add: healthy_def node_good_def)

lemma healthy_content: "same_content view b bc \<Longrightarrow> healthy X view stored b = healthy X view stored bc"
  by (simp add: healthy_def same_content_good)

lemma healthy_fields [simp]:
  "healthy X view stored (bc\<lparr>bcConfig := cfg\<rparr>) = healthy X view stored bc"
  "healthy X view stored (bc\<lparr>bcMempool := mp\<rparr>) = healthy X view stored bc"
  by (rule healthy_content; simp add: same_content_def)+

lemma healthy_save_account:
  assumes "reliable X stored" "healthy X view stored bc" "san_Account a = a"
  shows "healthy X view stored (fst (SaveAccountToTrie X a bc))"
proof -
  have g: "chain_inv X view stored bc" "store_good X view stored bc" "durable X view stored bc"
    using assms(2) by (simp_all add: healthy_def)
  have "same_chain X (fst (SaveAccountToTrie X a bc)) bc"
    by (rule same_chain_saves [OF store_key [OF store_goodD(3) [OF g(2)]]])
  with g durable_save_account [OF assms(1) store_goodD(3) [OF g(2)] g(3)] store_good_save_acc [OF g(2) assms(3)]
  show ?thesis by (simp add: healthy_def chain_inv_cong)
qed

lemma init_config_effect:
  assumes rel: "reliable X stored" and C: "crypto_laws C" "test_keys C" and h: "healthy X view stored bc"
    and cf: "ReadFile H ''config.json'' = Inr cf" "unmarshal_Config cf = Some config"
  obtains bc' where "init_config X C H bc = (bc', Ok ())" "node_good X view stored bc'"
    "blk_look view bc' = blk_look view bc" "tx_look view bc' = tx_look view bc"
    "adds_test_accounts (acc_look view bc) (acc_look view bc')"
    "GetCurrentBlock X bc' = GetCurrentBlock X bc" "GetLastBlock X bc' = GetLastBlock X bc"
    "bcConfig bc' = config" "bcMempool bc' = Some NewMempool"
proof -
  let ?b = "bc\<lparr>bcConfig := config\<rparr>"
  define b' where "b' = fst (InitializeTestAccounts X C ?b)"
  have keys: "key_laws X" using store_key [of X view stored] store_goodD(3) [of X view stored bc] h
    by (simp add: healthy_def)
  have acc: "acc_good X view stored ?b" using h by (simp add: healthy_def store_good_def)
  note eff = init_accounts_effect [OF rel C acc]
  have run: "init_config X C H bc = (b'\<lparr>bcMempool := Some NewMempool\<rparr>, Ok ())"
    using cf eff(1) by (cases "InitializeTestAccounts X C ?b") (simp add: init_config_def b'_def)
  have "healthy X view stored b' \<and> same_chain X b' ?b \<and> txTrie b' = txTrie ?b \<and> bcConfig b' = bcConfig ?b"
    unfolding b'_def
    by (rule init_accounts_keep [OF C(1)])
      (use h healthy_save_account [OF rel] same_chain_trans [OF same_chain_saves(1) [OF keys]]
        in \<open>auto simp: frame_simps\<close>)
  then have k: "healthy X view stored b'" "same_chain X b' ?b" "txTrie b' = txTrie bc" "bcConfig b' = config"
    by simp_all
  let ?c = "b'\<lparr>bcMempool := Some NewMempool\<rparr>"
  have c: "same_content view ?c b'" by (simp add: same_content_def)
  have "node_good X view stored ?c"
  proof -
    have "printable ?c" by (simp add: printable_def pool_look_def NewMempool_def)
    with k(1) show ?thesis by (simp add: node_good_def healthy_def same_content_good [OF c])
  qed
  with that [OF run] same_content_looks(1-3) [OF c] same_content_looks(4,5) [OF c, of X] same_chain_reads(1,2) [OF k(2)] same_chain_reads(3) [OF k(2), of view] k(3,4) eff(3)
    tx_look_cong [of b' bc view]
  show thesis by (simp add: b'_def)
qed

section \<open>Starting\<close>

text \<open>The host works: a directory, a database \<open>d\<close> in it, and a configuration file.\<close>

definition host_gives :: "'db host_ext \<Rightarrow> 'db \<Rightarrow> Config \<Rightarrow> bool" where
  "host_gives H d config \<longleftrightarrow> (\<exists>dir cf. Getwd H = Inr dir \<and> leveldb_New H (db_path dir) = Inr d
     \<and> ReadFile H ''config.json'' = Inr cf \<and> unmarshal_Config cf = Some config)"

lemma Init_run:
  assumes "host_gives H d config" "init_tries X now (bc\<lparr>db := d\<rparr>) = (bc1, None)"
  shows "Init X C H now bc = init_config X C H bc1"
  using assms by (auto simp: host_gives_def Init_def InitLevelDB_def)

lemma chain_has_root:
  assumes "healthy X view stored bc"
  shows "db_Get X (db bc) ROOT_HASH \<noteq> Inl ErrNotFound"
proof
  assume "db_Get X (db bc) ROOT_HASH = Inl ErrNotFound"
  with assms have "\<exists>t. tr bc = Some t \<and> view t = Map.empty"
    by (auto simp: healthy_def durable_def persisted_def)
  moreover from assms obtain k where "blk_look view bc k \<noteq> None"
    by (auto simp: healthy_def chain_inv_def)
  ultimately show False by (auto simp: blk_look_def)
qed

lemma init_tries_restart:
  assumes rel: "reliable X stored" and zero: "stored (db old) zero_hash Map.empty"
    and h: "healthy X view stored old" and d: "db bc = db old"
  obtains bc' where "init_tries X now bc = (bc', None)" "same_content view bc' old"
proof -
  have laws: "store_laws X view stored" using h store_goodD(3) by (auto simp: healthy_def)
  have p: "persisted X view stored ROOT_HASH (db bc) (tr old)" "persisted X view stored TX_ROOT_HASH (db bc) (txTrie old)"
    "persisted X view stored ACC_ROOT_HASH (db bc) (accTrie old)"
    using h d by (simp_all add: healthy_def durable_def)
  have zero': "stored (db bc) zero_hash Map.empty" using zero d by simp
  have root: "db_Get X (db bc) ROOT_HASH \<noteq> Inl ErrNotFound" using chain_has_root [OF h] d by simp
  obtain t1 where 1: "init_blocks X now bc = (bc\<lparr>tr := Some t1\<rparr>, None)" "map_option view (tr old) = Some (view t1)"
    using init_blocks_opens [OF rel laws zero' p(1) root] by blast
  let ?b1 = "bc\<lparr>tr := Some t1\<rparr>"
  obtain t2 where 2: "init_transactions X ?b1 = (?b1\<lparr>txTrie := Some t2\<rparr>, None)"
    "map_option view (txTrie old) = Some (view t2)"
    using init_transactions_opens [OF rel laws, of ?b1 "txTrie old"] zero' p(2) by auto
  let ?b2 = "?b1\<lparr>txTrie := Some t2\<rparr>"
  obtain t3 where 3: "init_accounts_trie X ?b2 = (?b2\<lparr>accTrie := Some t3\<rparr>, None)"
    "map_option view (accTrie old) = Some (view t3)"
    using init_accounts_trie_opens [OF rel laws, of ?b2 "accTrie old"] zero' p(3) by auto
  have "same_content view (?b2\<lparr>accTrie := Some t3\<rparr>) old"
    using 1(2) 2(2) 3(2) d unfolding same_content_def by (simp del: map_option_eq_Some)
  with 1(1) 2(1) 3(1) that [of "?b2\<lparr>accTrie := Some t3\<rparr>"] show thesis by (simp add: init_tries_def)
qed


section \<open>A concrete host\<close>

definition demo_config_json :: json where
  "demo_config_json = JObj
     [(''nodes'', JArr [JObj [(''publicKey'', JStr ''ab''), (''url'', JStr ''h:1''), (''index'', JNum ''1'')]]),
      (''privateKeyHex'', JStr demo_key), (''index'', JNum ''2'')]"

definition demo_file_config :: Config where
  "demo_file_config = \<lparr>Nodes = [\<lparr>NodePublicKey = ''ab'', URL = ''h:1'', NodeIndex = 1, ApiUrl = []\<rparr>],
     PrivateKeyHex = demo_key, ConfigIndex = 2\<rparr>"

definition demo_host :: "'db \<Rightarrow> 'db host_ext" where
  "demo_host d = \<lparr>Getwd = Inr ''/app'',
     leveldb_New = (\<lambda>p. if p = ''/app/leveldb_data'' then Inr d else Inl (External p)),
     ReadFile = (\<lambda>p. if p = ''config.json'' then Inr (jprint demo_config_json) else Inl (External p))\<rparr>"

lemma ascii_demo_key [simp]: "ascii demo_key"
  by (simp add: demo_key_def ascii_def list_all_iff)

lemma demo_config_read: "unmarshal_Config (jprint demo_config_json) = Some demo_file_config"
proof -
  have ok: "json_ok demo_config_json"
    by (simp add: demo_config_json_def num_ok_def frac_ok_def num_char_def is_digit_def)
  have "dec_struct config_fields config_field (jsan demo_config_json) zero_Config = Some demo_file_config"
    by (simp add: demo_config_json_def config_fields_def config_field_def node_fields_def node_field_def
        zero_Config_def zero_Node_def demo_file_config_def ParseUint_def is_digit_def to_valid_ascii)
  with ok show ?thesis by (simp add: unmarshal_Config_def parse_print)
qed

lemma demo_host_gives: "host_gives (demo_host d) d demo_file_config"
  by (simp add: host_gives_def demo_host_def db_path_def demo_config_read)

text \<open>The three keys are hexadecimal strings of 65 bytes.\<close>

lemma hex_undigits_total:
  assumes "list_all (\<lambda>c. hex_val c \<noteq> None) s" "even (length s)"
  shows "\<exists>b. hex_undigits s = Some b"
  using assms by (induction s rule: hex_undigits.induct) (auto split: option.splits)

lemma ref_account_ok:
  assumes "list_all (\<lambda>c. hex_val c \<noteq> None) s" "length s = 130"
  shows "is_ok (NewAccountFromPublicKey ref_crypto (CHR ''0'' # CHR ''x'' # s) n)"
proof -
  obtain b where "hex_undigits s = Some b" using hex_undigits_total [OF assms(1)] assms(2) by auto
  with hex_undigits_ascii [OF this] assms(2) show ?thesis
    by (simp add: is_ok_iff NewAccountFromPublicKey_Ok ref_crypto_def ref_decode_def ref_key_def)
qed

lemma hex_val_all: "list_all (\<lambda>c. hex_val c \<noteq> None) ''0123456789abcdef''"
  by (simp add: hex_val_def Let_def)

lemmas hex_val_some = hex_val_all [simplified]

lemma demo_test_keys: "test_keys ref_crypto"
  unfolding test_keys_def pubKey1_def pubKey2_def pubKey3_def list.pred_inject
  by (intro conjI ref_account_ok TrueI) (simp_all add: hex_val_some)

lemma ref_stored_zero: "ref_stored d zero_hash Map.empty"
  by (auto simp: ref_stored_def ref_root_zero intro!: exI [of _ "[]"])

lemma demo_node_good: "node_good ref_store map_of ref_stored (demo_node i key)"
proof -
  have "durable ref_store map_of ref_stored demo_empty"
    by (simp add: durable_def persisted_def demo_empty_def ref_store_def)
  then have "durable ref_store map_of ref_stored demo_accounts"
    unfolding demo_accounts_def by (intro durable_save_account ref_reliable ref_store_laws)
  then have "durable ref_store map_of ref_stored demo_genesis"
    unfolding demo_genesis_def by (intro durable_save_block ref_reliable ref_store_laws)
  moreover have "same_content map_of (demo_node i key) demo_genesis"
    by (simp add: same_content_def demo_node_def)
  ultimately have "durable ref_store map_of ref_stored (demo_node i key)"
    using same_content_good(4) by blast
  then show ?thesis
    by (simp add: node_good_def demo_node_facts printable_def pool_look_def NewMempool_def)
qed

text \<open>What \<open>Init\<close> does on the database of a healthy node.\<close>

lemma restart_effect:
  assumes "reliable X stored" "crypto_laws C" "test_keys C" "node_good X view stored old"
    "stored (db old) zero_hash Map.empty" "host_gives H (db old) config"
    "Init X C H now bc = (bc', r)"
  shows "r = Ok () \<and> node_good X view stored bc' \<and> blk_look view bc' = blk_look view old
    \<and> tx_look view bc' = tx_look view old \<and> adds_test_accounts (acc_look view old) (acc_look view bc')
    \<and> GetCurrentBlock X bc' = GetCurrentBlock X old \<and> GetLastBlock X bc' = GetLastBlock X old
    \<and> bcConfig bc' = config \<and> bcMempool bc' = Some NewMempool"
proof -
  note h = healthy_node_good [OF assms(4)]
  obtain b1 where 1: "init_tries X now (bc\<lparr>db := db old\<rparr>) = (b1, None)" "same_content view b1 old"
    using init_tries_restart [OF assms(1,5) h, of "bc\<lparr>db := db old\<rparr>"] by auto
  from assms(6) obtain cf where cf: "ReadFile H ''config.json'' = Inr cf" "unmarshal_Config cf = Some config"
    by (auto simp: host_gives_def)
  have "healthy X view stored b1" using h healthy_content [OF 1(2), of X stored] by simp
  from init_config_effect [OF assms(1-3) this cf] obtain b2 where
    "init_config X C H b1 = (b2, Ok ())" "node_good X view stored b2"
    "blk_look view b2 = blk_look view b1" "tx_look view b2 = tx_look view b1"
    "adds_test_accounts (acc_look view b1) (acc_look view b2)"
    "GetCurrentBlock X b2 = GetCurrentBlock X b1" "GetLastBlock X b2 = GetLastBlock X b1"
    "bcConfig b2 = config" "bcMempool b2 = Some NewMempool" by blast
  moreover have "Init X C H now bc = init_config X C H b1" by (rule Init_run [OF assms(6) 1(1)])
  ultimately show ?thesis using assms(7) same_content_looks(1-3) [OF 1(2)] same_content_looks(4,5) [OF 1(2), of X]
    by simp
qed

text \<open>
  C6. A restart loses nothing that was written. If a healthy node stops, and a process starts on
  its database, then (where no storage call fails, and the keys of the test accounts and the
  configuration are valid) \<open>Init\<close> succeeds and the new node is healthy: it has the same blocks,
  the same recorded transactions, the same current and last block, the same accounts (and the
  test accounts, if they were missing). Only the mempool is empty: pending transactions are lost.
\<close>

theorem restart_restores_node:
  assumes "reliable X stored" "crypto_laws C" "test_keys C" "node_good X view stored old"
    "stored (db old) zero_hash Map.empty" "host_gives H (db old) config"
    "Init X C H now bc = (bc', r)"
  shows "r = Ok () \<and> node_good X view stored bc' \<and> blk_look view bc' = blk_look view old
    \<and> tx_look view bc' = tx_look view old \<and> adds_test_accounts (acc_look view old) (acc_look view bc')
    \<and> GetCurrentBlock X bc' = GetCurrentBlock X old \<and> GetLastBlock X bc' = GetLastBlock X old
    \<and> bcConfig bc' = config \<and> bcMempool bc' = Some NewMempool"
  by (rule restart_effect [OF assms])

lemma restart_restores_node_witness:
  "\<exists>bc'. Init ref_store ref_crypto (demo_host (db (demo_node 2 []))) 9 (GetInstance ([], [])) = (bc', Ok ())
     \<and> blk_look map_of bc' = [block_key 0 \<mapsto> GetGenesisBlock 0] \<and> acc_look map_of bc' ''0xb'' = Some bob"
proof -
  obtain bc' r where i: "Init ref_store ref_crypto (demo_host (db (demo_node 2 []))) 9 (GetInstance ([], [])) = (bc', r)"
    by fastforce
  have le: "m \<subseteq>\<^sub>m n \<Longrightarrow> m k = Some a \<Longrightarrow> n k = Some a" for m n :: "string \<Rightarrow> Account option" and k a
    by (metis domI map_le_def)
  from restart_restores_node [OF ref_reliable ref_crypto_laws demo_test_keys demo_node_good ref_stored_zero demo_host_gives i]
  show ?thesis using i le [of _ _ "''0xb''" bob] by (auto simp: demo_node_facts adds_test_accounts_def)
qed



text \<open>
  C28. Failures that are not reported. If the root of the blocks cannot be read (other than by not
  being there), or no trie opens from it, \<open>Init\<close> returns without an error, but the node it
  leaves has no tries and no mempool: reading an account, looking up a block, asking for the
  mempool and executing it are nil dereferences.
\<close>

theorem init_hides_failures:
  assumes "Getwd H = Inr dir" "leveldb_New H (db_path dir) = Inr d"
    "(\<exists>e. db_Get X d ROOT_HASH = Inl e \<and> e \<noteq> ErrNotFound)
      \<or> (\<exists>r e. db_Get X d ROOT_HASH = Inr r \<and> RestoreTrieFromRootHash X d (BytesToHash X r) = Inl e)
      \<or> (\<exists>e. db_Get X d ROOT_HASH = Inl ErrNotFound \<and> CreateNewTrie X d = Inl e)"
    "Init X C H now (GetInstance nil_db) = (bc', r)"
  shows "r = Ok () \<and> bcMempool bc' = None \<and> GetAccountFromTrie X k bc' = Panic
    \<and> GetBlockFromTrie X k' bc' = Panic \<and> GetMempoolSize bc' = Panic
    \<and> snd (snd (ProcessMempoolTransactions X C ks bc')) = Panic"
proof -
  have "bc' = (GetInstance nil_db)\<lparr>db := d\<rparr> \<and> r = Ok ()"
    using assms by (auto simp: Init_def InitLevelDB_def init_tries_def init_blocks_def GetInstance_def
        split: error.splits)
  then show ?thesis
    by (auto simp: GetInstance_def GetAccountFromTrie_def GetBlockFromTrie_def GetMempoolSize_def
        ProcessMempoolTransactions_def)
qed

text \<open>A database whose root of the blocks cannot be read.\<close>

lemma init_hides_failures_witness:
  "\<exists>bc'. Init (ref_store\<lparr>db_Get := \<lambda>_ _. Inl (External ''io'')\<rparr>) ref_crypto (demo_host ([], [])) 9
       (GetInstance ([], [])) = (bc', Ok ()) \<and> GetMempoolSize bc' = Panic"
proof -
  let ?X = "ref_store\<lparr>db_Get := \<lambda>_ _. Inl (External ''io'')\<rparr>"
  obtain bc' r where i: "Init ?X ref_crypto (demo_host ([], [])) 9 (GetInstance ([], [])) = (bc', r)"
    by fastforce
  have "Getwd (demo_host ([], []) :: ref_db host_ext) = Inr ''/app''"
    "leveldb_New (demo_host ([], [])) (db_path ''/app'') = (Inr ([], []) :: error + ref_db)"
    by (simp_all add: demo_host_def db_path_def)
  from init_hides_failures [OF this _ i] show ?thesis using i by simp
qed

end
