(* ===== verification/P2P.thy ===== *)
theory P2P
  imports Startup
begin

text \<open>
  The network component, p2pnetwork.go: the registry of connected peers, asking them for a
  transaction, broadcasting one, what a node does with each message and at each tick of its three
  timers. The transport is a parameter: a message is a code and a payload, \<open>rlp_ext\<close> reads and
  writes payloads, and the sends of a handler are the list it returns (that one fails is only
  logged). The goroutines of a connection and the API run these handlers in any order; the
  theory Node_Runs is about their runs.
\<close>

section \<open>Messages\<close>

definition BlockRequestMsg :: uint64 where "BlockRequestMsg = 0"
definition BlockResponseMsg :: uint64 where "BlockResponseMsg = 1"
definition LastBlockRequestMsg :: uint64 where "LastBlockRequestMsg = 2"
definition LastBlockResponseMsg :: uint64 where "LastBlockResponseMsg = 3"
definition BlockProposalRequestMsg :: uint64 where "BlockProposalRequestMsg = 4"
definition BlockProposalResponseMsg :: uint64 where "BlockProposalResponseMsg = 5"
definition TransactionMsg :: uint64 where "TransactionMsg = 6"
definition TransactionRequestMsg :: uint64 where "TransactionRequestMsg = 7"
definition TransactionResponseMsg :: uint64 where "TransactionResponseMsg = 8"

lemmas msg_codes = BlockRequestMsg_def BlockResponseMsg_def LastBlockRequestMsg_def LastBlockResponseMsg_def
  BlockProposalRequestMsg_def BlockProposalResponseMsg_def TransactionMsg_def TransactionRequestMsg_def
  TransactionResponseMsg_def

record BlockRequest =
  RequestType :: string
  BlockID :: string

record 'pl rlp_ext =
  EncodeBlock :: "Block \<Rightarrow> 'pl"
  DecodeBlock :: "'pl \<Rightarrow> error + Block"
  EncodeRequest :: "BlockRequest \<Rightarrow> 'pl"
  DecodeRequest :: "'pl \<Rightarrow> error + BlockRequest"
  EncodeTransaction :: "Transaction \<Rightarrow> 'pl"
  DecodeTransaction :: "'pl \<Rightarrow> error + Transaction"
  EncodeString :: "string \<Rightarrow> 'pl"
  DecodeString :: "'pl \<Rightarrow> error + string"

text \<open>What is sent is what is received, but that a nil slice arrives as an empty one.\<close>

definition rlp_laws :: "'pl rlp_ext \<Rightarrow> bool" where
  "rlp_laws R \<longleftrightarrow>
     (\<forall>b. DecodeBlock R (EncodeBlock R b) = Inr (b\<lparr>Txns := Some (elems (Txns b))\<rparr>))
   \<and> (\<forall>q. DecodeRequest R (EncodeRequest R q) = Inr q)
   \<and> (\<forall>t. DecodeTransaction R (EncodeTransaction R t) = Inr (t\<lparr>ID := Some (elems (ID t))\<rparr>))
   \<and> (\<forall>s. DecodeString R (EncodeString R s) = Inr s)"

type_synonym 'pl message = "uint64 \<times> 'pl"

section \<open>The registry of peers\<close>

text \<open>
  A read-writer may be nil. A channel is its capacity and what is waiting in it; the map of
  channels is made by \<open>NewP2PNetwork\<close> and nothing adds to it.
\<close>

record NetConfig =
  NetPrivateKeyHex :: string
  NetNodes :: "string list"
  MaxPeers :: int
  NetName :: string
  ListenAddr :: string

record ('sk, 'rw) P2PNetwork =
  netConfig :: NetConfig
  netKey :: 'sk
  txChannels :: "(string, nat \<times> Transaction list) fmap"
  peerRWs :: "(string, 'rw option) fmap"

definition NewP2PNetwork ::
    "('sk, 'pk) crypto_ext \<Rightarrow> NetConfig \<Rightarrow> ('sk, 'rw) P2PNetwork outcome" where
  "NewP2PNetwork C config =
     (case HexToECDSA C (NetPrivateKeyHex config) of
        Inl e \<Rightarrow> Err (Wrap MsgNodeKey e)
      | Inr nodekey \<Rightarrow>
          Ok \<lparr>netConfig = config, netKey = nodekey, txChannels = fmempty, peerRWs = fmempty\<rparr>)"

definition setPeerRW :: "string \<Rightarrow> 'rw option \<Rightarrow> ('sk, 'rw) P2PNetwork \<Rightarrow> ('sk, 'rw) P2PNetwork" where
  "setPeerRW peerID rw p = p\<lparr>peerRWs := fmupd peerID rw (peerRWs p)\<rparr>"

definition removePeerRW :: "string \<Rightarrow> ('sk, 'rw) P2PNetwork \<Rightarrow> ('sk, 'rw) P2PNetwork" where
  "removePeerRW peerID p = p\<lparr>peerRWs := fmdrop peerID (peerRWs p)\<rparr>"

definition GetAllPeerRWs :: "('sk, 'rw) P2PNetwork \<Rightarrow> (string, 'rw option) fmap" where
  "GetAllPeerRWs p = peerRWs p"

text \<open>\<open>active\<close> are the IDs of the server's peers.\<close>

definition cleanInvalidPeerRWs :: "string list \<Rightarrow> ('sk, 'rw) P2PNetwork \<Rightarrow> ('sk, 'rw) P2PNetwork" where
  "cleanInvalidPeerRWs active p = p\<lparr>peerRWs := fmfilter (\<lambda>peerID. peerID \<in> set active) (peerRWs p)\<rparr>"

text \<open>
  One round of \<open>maintainConnections\<close>: the registry is cleaned, and every static node is given
  to the server again.
\<close>

definition maintain_round ::
    "string list \<Rightarrow> 'n list \<Rightarrow> ('sk, 'rw) P2PNetwork \<Rightarrow> ('sk, 'rw) P2PNetwork \<times> 'n list" where
  "maintain_round active nodes p = (cleanInvalidPeerRWs active p, nodes)"

text \<open>
  A send that does not block: it succeeds where the buffer has room. (A channel without a buffer
  would also need a waiting receiver; there are no receivers.)
\<close>

definition offer_tx :: "Transaction \<Rightarrow> nat \<times> Transaction list \<Rightarrow> nat \<times> Transaction list" where
  "offer_tx tx c = (case c of (cap, queue) \<Rightarrow> if length queue < cap then (cap, queue @ [tx]) else (cap, queue))"

definition BroadcastTransaction ::
    "Transaction \<Rightarrow> ('sk, 'rw) P2PNetwork \<Rightarrow> ('sk, 'rw) P2PNetwork \<times> unit outcome" where
  "BroadcastTransaction tx p =
     (p\<lparr>txChannels := fmmap (offer_tx tx) (txChannels p)\<rparr>,
      if txChannels p = fmempty then Err (Fail MsgNoPeers) else Ok ())"

section \<open>Asking for a transaction\<close>

text \<open>
  What happens to the request at one peer: sending it and reading an answer, each with a limit of
  three seconds. The errors \<open>shutting down\<close> and an answer with another code end the goroutine
  without a report.
\<close>

datatype send_result = SendOk | SendShuttingDown | SendFailed error | SendTimeout | SendPanicked error

datatype 'pl read_result = ReadMsg uint64 'pl | ReadFailed error | ReadTimeout

definition peer_report ::
    "'pl rlp_ext \<Rightarrow> 'rw option \<times> send_result \<times> 'pl read_result \<Rightarrow> (error + Transaction) option" where
  "peer_report R peer =
     (case peer of
        (None, _, _) \<Rightarrow> None
      | (Some _, SendShuttingDown, _) \<Rightarrow> None
      | (Some _, SendFailed e, _) \<Rightarrow> Some (Inl (Wrap MsgRequest e))
      | (Some _, SendTimeout, _) \<Rightarrow> Some (Inl (Fail MsgP2PTimeout))
      | (Some _, SendPanicked e, _) \<Rightarrow> Some (Inl (Wrap MsgRequest e))
      | (Some _, SendOk, ReadMsg code payload) \<Rightarrow>
          if code = TransactionResponseMsg then
            (case DecodeTransaction R payload of
               Inl e \<Rightarrow> Some (Inl (Wrap MsgDecode e))
             | Inr tx \<Rightarrow> Some (Inr tx))
          else None
      | (Some _, SendOk, ReadFailed e) \<Rightarrow> Some (Inl (Wrap MsgReadMessage e))
      | (Some _, SendOk, ReadTimeout) \<Rightarrow> Some (Inl (Fail MsgP2PTimeout)))"

text \<open>
  \<open>order\<close> lists the peers in the order in which their goroutines report (those that take more
  than the five seconds of the final select are left out), \<open>net\<close> what happened at each.
\<close>

definition RequestTransaction ::
    "'pl rlp_ext \<Rightarrow> string list \<Rightarrow> (string \<Rightarrow> send_result \<times> 'pl read_result) \<Rightarrow> string
      \<Rightarrow> ('sk, 'rw) P2PNetwork \<Rightarrow> error + Transaction" where
  "RequestTransaction R order net txID p =
     (if txID = [] then Inl (Fail MsgEmptyID)
      else if GetAllPeerRWs p = fmempty then Inl (Fail MsgNoPeers)
      else case List.map_filter (\<lambda>peerID.
              Option.bind (fmlookup (GetAllPeerRWs p) peerID) (\<lambda>rw. peer_report R (rw, net peerID))) order of
        [] \<Rightarrow> Inl (Fail MsgP2PTimeout)
      | r # _ \<Rightarrow> r)"

text \<open>What the select of \<open>GetTransactionByID\<close> sees of it within its ten seconds.\<close>

definition request_outcome :: "error + Transaction \<Rightarrow> p2p_outcome" where
  "request_outcome r = (case r of Inl e \<Rightarrow> P2PError e | Inr tx \<Rightarrow> P2PResponse (Some tx))"

section \<open>Handlers\<close>

text \<open>The error of a handler is what it logs before its loop goes on.\<close>

definition handleBlockResponse ::
    "('db, 'tr, 'nd, 'tdb) store_ext \<Rightarrow> ('sk, 'pk) crypto_ext \<Rightarrow> (nat \<Rightarrow> p2p_outcome) \<Rightarrow> Block
      \<Rightarrow> ('db, 'tr) Blockchain \<Rightarrow> ('db, 'tr) Blockchain \<times> unit outcome" where
  "handleBlockResponse X C net block bc = HandleNewBlock X C net block bc"

definition handleBlockProposalRequestMsg ::
    "('db, 'tr, 'nd, 'tdb) store_ext \<Rightarrow> ('sk, 'pk) crypto_ext \<Rightarrow> (nat \<Rightarrow> p2p_outcome) \<Rightarrow> Block
      \<Rightarrow> ('db, 'tr) Blockchain \<Rightarrow> ('db, 'tr) Blockchain \<times> unit outcome" where
  "handleBlockProposalRequestMsg X C net block bc = HandleNewBlock X C net block bc"

definition handleLastBlockResponse ::
    "('db, 'tr, 'nd, 'tdb) store_ext \<Rightarrow> Block
      \<Rightarrow> ('db, 'tr) Blockchain \<Rightarrow> ('db, 'tr) Blockchain \<times> unit outcome" where
  "handleLastBlockResponse X block bc =
     (case GetLastBlock X bc of
        Err e \<Rightarrow> (bc, Err e)
      | Panic \<Rightarrow> (bc, Panic)
      | Ok lastBlock \<Rightarrow>
          if Index block > Index lastBlock then SaveLastBlock X block bc else (bc, Ok ()))"

definition handle_tx_msg ::
    "('db, 'tr, 'nd, 'tdb) store_ext \<Rightarrow> ('sk, 'pk) crypto_ext \<Rightarrow> Transaction
      \<Rightarrow> ('db, 'tr) Blockchain \<Rightarrow> ('db, 'tr) Blockchain \<times> unit outcome" where
  "handle_tx_msg X C tx bc =
     (case GetAccountFromTrie X (From tx) bc of
        Err e \<Rightarrow> (bc, Err e)
      | Panic \<Rightarrow> (bc, Panic)
      | Ok fromAccount \<Rightarrow>
          (case VerifyTransactionSignature C tx (PublicKey fromAccount) of
             Err e \<Rightarrow> (bc, Err e)
           | Panic \<Rightarrow> (bc, Panic)
           | Ok isValid \<Rightarrow>
               if \<not> isValid then (bc, Err (Fail MsgInvalidSignature))
               else case bcMempool bc of
                 None \<Rightarrow> (bc, Panic)
               | Some mp \<Rightarrow>
                   (case AddTransaction C tx mp of
                      (_, Err e) \<Rightarrow> (bc, Err e)
                    | (_, Panic) \<Rightarrow> (bc, Panic)
                    | (mp', Ok _) \<Rightarrow> (bc\<lparr>bcMempool := Some mp'\<rparr>, PrintMempool mp'))))"

text \<open>Handlers that answer: the message they send, if any.\<close>

definition answer :: "uint64 \<Rightarrow> ('a \<Rightarrow> 'pl) \<Rightarrow> 'a outcome \<Rightarrow> 'pl message list \<times> unit outcome" where
  "answer code enc r =
     (case r of Ok v \<Rightarrow> ([(code, enc v)], Ok ()) | Err e \<Rightarrow> ([], Err e) | Panic \<Rightarrow> ([], Panic))"

definition quiet :: "'s \<times> unit outcome \<Rightarrow> 's \<times> 'pl message list \<times> unit outcome" where
  "quiet r = (fst r, [], snd r)"

text \<open>
  The switch of the reader loop of \<open>runProtocol\<close>. There is no case for
  \<open>TransactionResponseMsg\<close>: a response that this loop reads, and not the goroutine that waits
  for it, is dropped.
\<close>

definition handle_message ::
    "('db, 'tr, 'nd, 'tdb) store_ext \<Rightarrow> ('sk, 'pk) crypto_ext \<Rightarrow> 'pl rlp_ext \<Rightarrow> (nat \<Rightarrow> p2p_outcome)
      \<Rightarrow> 'pl message \<Rightarrow> ('db, 'tr) Blockchain
      \<Rightarrow> ('db, 'tr) Blockchain \<times> 'pl message list \<times> unit outcome" where
  "handle_message X C R net msg bc =
     (let code = fst msg; payload = snd msg in
      if code = BlockRequestMsg then
        (case DecodeRequest R payload of
           Inl e \<Rightarrow> (bc, [], Err e)
         | Inr request \<Rightarrow> (bc, answer BlockResponseMsg (EncodeBlock R) (GetBlockFromTrie X (BlockID request) bc)))
      else if code = LastBlockRequestMsg then
        (bc, answer LastBlockResponseMsg (EncodeBlock R) (GetLastBlock X bc))
      else if code = BlockResponseMsg then
        (case DecodeBlock R payload of
           Inl e \<Rightarrow> (bc, [], Err e)
         | Inr block \<Rightarrow> quiet (handleBlockResponse X C net block bc))
      else if code = LastBlockResponseMsg then
        (case DecodeBlock R payload of
           Inl e \<Rightarrow> (bc, [], Err e)
         | Inr block \<Rightarrow> quiet (handleLastBlockResponse X block bc))
      else if code = BlockProposalRequestMsg then
        (case DecodeBlock R payload of
           Inl e \<Rightarrow> (bc, [], Err e)
         | Inr block \<Rightarrow> quiet (handleBlockProposalRequestMsg X C net block bc))
      else if code = BlockProposalResponseMsg then
        (case DecodeBlock R payload of
           Inl e \<Rightarrow> (bc, [], Err e)
         | Inr block \<Rightarrow> quiet (handleLastBlockResponse X block bc))
      else if code = TransactionMsg then
        (case DecodeTransaction R payload of
           Inl e \<Rightarrow> (bc, [], Err e)
         | Inr tx \<Rightarrow> quiet (handle_tx_msg X C tx bc))
      else if code = TransactionRequestMsg then
        (case DecodeString R payload of
           Inl e \<Rightarrow> (bc, [], Err e)
         | Inr txID \<Rightarrow>
             (bc, answer TransactionResponseMsg (EncodeTransaction R) (GetTransactionByIDFromNode X C txID bc)))
      else (bc, [], Ok ()))"

section \<open>Timers\<close>

text \<open>Every two seconds the last block is asked for, every five seconds a block is proposed, every
  second the block after the current one is asked for if a later one is known.\<close>

definition last_block_tick :: "'pl rlp_ext \<Rightarrow> 'pl message list" where
  "last_block_tick R =
     [(LastBlockRequestMsg, EncodeRequest R \<lparr>RequestType = ''last_block'', BlockID = []\<rparr>)]"

definition propose_tick ::
    "('db, 'tr, 'nd, 'tdb) store_ext \<Rightarrow> ('sk, 'pk) crypto_ext \<Rightarrow> 'pl rlp_ext \<Rightarrow> uint64 \<Rightarrow> string list
      \<Rightarrow> ('db, 'tr) Blockchain \<Rightarrow> ('db, 'tr) Blockchain \<times> 'pl message list \<times> unit outcome" where
  "propose_tick X C R now ks bc =
     (case bcMempool bc of
        None \<Rightarrow> (bc, [], Panic)
      | Some mp \<Rightarrow>
          (case PrintMempool mp of
             Panic \<Rightarrow> (bc, [], Panic)
           | Err e \<Rightarrow> (bc, [], Err e)
           | Ok _ \<Rightarrow>
               (case ProposeNewBlock X C now ks bc of
                  (bc', Err e) \<Rightarrow> (bc', [], Err e)
                | (bc', Panic) \<Rightarrow> (bc', [], Panic)
                | (bc', Ok block) \<Rightarrow>
                    (bc', if Index block > 0 then [(BlockProposalRequestMsg, EncodeBlock R block)] else [], Ok ()))))"

definition update_tick ::
    "('db, 'tr, 'nd, 'tdb) store_ext \<Rightarrow> 'pl rlp_ext \<Rightarrow> ('db, 'tr) Blockchain
      \<Rightarrow> 'pl message list \<times> unit outcome" where
  "update_tick X R bc =
     (case GetCurrentBlock X bc of
        Err e \<Rightarrow> ([], Err e)
      | Panic \<Rightarrow> ([], Panic)
      | Ok currentBlock \<Rightarrow>
          (case GetLastBlock X bc of
             Err e \<Rightarrow> ([], Err e)
           | Panic \<Rightarrow> ([], Panic)
           | Ok lastBlock \<Rightarrow>
               (if Index currentBlock < Index lastBlock
                then [(BlockRequestMsg, EncodeRequest R
                         \<lparr>RequestType = ''request'', BlockID = block_key (Index currentBlock + 1)\<rparr>)]
                else [], Ok ())))"

section \<open>One event at a node\<close>

text \<open>
  What can happen to the state: a message arrives, one of the timers of a connection fires, or
  the API creates a transaction. \<open>ProposeNewBlock\<close> and \<open>HandleNewBlock\<close> hold the lock of the
  blockchain throughout; the other handlers read, and end with one write (an entry of the
  mempool, or \<open>LAST_BLOCK\<close>). Each is one step here.
\<close>

datatype 'pl event =
    Receive "nat \<Rightarrow> p2p_outcome" "'pl message"
  | LastBlockTick
  | ProposeTick uint64 "string list"
  | UpdateTick
  | Submit "rat \<Rightarrow> uint64" uint64 string string rat string

definition node_event ::
    "('db, 'tr, 'nd, 'tdb) store_ext \<Rightarrow> ('sk, 'pk) crypto_ext \<Rightarrow> 'pl rlp_ext \<Rightarrow> 'pl event
      \<Rightarrow> ('db, 'tr) Blockchain \<Rightarrow> ('db, 'tr) Blockchain \<times> 'pl message list \<times> unit outcome" where
  "node_event X C R ev bc =
     (case ev of
        Receive net msg \<Rightarrow> handle_message X C R net msg bc
      | LastBlockTick \<Rightarrow> (bc, last_block_tick R, Ok ())
      | ProposeTick now ks \<Rightarrow> propose_tick X C R now ks bc
      | UpdateTick \<Rightarrow> (bc, update_tick X R bc)
      | Submit oob now a b amount key \<Rightarrow>
          (case CreateAndAddTransaction X C oob now a b amount key bc of
             (bc', _, Ok _) \<Rightarrow> (bc', [], Ok ())
           | (bc', _, Err e) \<Rightarrow> (bc', [], Err e)
           | (bc', _, Panic) \<Rightarrow> (bc', [], Panic)))"

section \<open>A concrete transport\<close>

datatype ref_payload = PBlock Block | PRequest BlockRequest | PTransaction Transaction | PString string

definition ref_rlp :: "ref_payload rlp_ext" where
  "ref_rlp = \<lparr>
     EncodeBlock = (\<lambda>b. PBlock (b\<lparr>Txns := Some (elems (Txns b))\<rparr>)),
     DecodeBlock = (\<lambda>p. case p of PBlock b \<Rightarrow> Inr b | _ \<Rightarrow> Inl (External ''rlp'')),
     EncodeRequest = PRequest,
     DecodeRequest = (\<lambda>p. case p of PRequest q \<Rightarrow> Inr q | _ \<Rightarrow> Inl (External ''rlp'')),
     EncodeTransaction = (\<lambda>t. PTransaction (t\<lparr>ID := Some (elems (ID t))\<rparr>)),
     DecodeTransaction = (\<lambda>p. case p of PTransaction t \<Rightarrow> Inr t | _ \<Rightarrow> Inl (External ''rlp'')),
     EncodeString = PString,
     DecodeString = (\<lambda>p. case p of PString s \<Rightarrow> Inr s | _ \<Rightarrow> Inl (External ''rlp''))\<rparr>"

lemma ref_rlp_laws: "rlp_laws ref_rlp"
  by (simp add: rlp_laws_def ref_rlp_def)

end
