(* ===== verification/Node_Runs.thy ===== *)
theory Node_Runs
  imports P2P
begin

text \<open>
  Runs of a node. \<open>node_run\<close> is any sequence of events: messages from peers that may send
  anything, timers, requests of the API. The theorems say what holds in every state such a run
  reaches: the node stays healthy, its chain only grows, what was executed stays recorded, every
  pending transaction is signed by its sender; and when an event can end the process.
\<close>

section \<open>Accounts keep their keys\<close>

definition keys_kept ::
    "('tr \<Rightarrow> bytes \<Rightarrow> bytes option) \<Rightarrow> ('db, 'tr) Blockchain \<Rightarrow> ('db, 'tr) Blockchain \<Rightarrow> bool" where
  "keys_kept view bc bc' \<longleftrightarrow> dom (tx_look view bc) \<subseteq> dom (tx_look view bc')
     \<and> (\<forall>k a. acc_look view bc k = Some a \<longrightarrow>
          (\<exists>a'. acc_look view bc' k = Some a' \<and> PublicKey a' = PublicKey a))"

lemma keys_kept_same:
  "acc_look view bc' = acc_look view bc \<Longrightarrow> tx_look view bc' = tx_look view bc \<Longrightarrow> keys_kept view bc bc'"
  by (simp add: keys_kept_def)

lemma keys_kept_refl [simp]: "keys_kept view bc bc"
  by (simp add: keys_kept_same)

lemma keys_kept_trans: "keys_kept view a b \<Longrightarrow> keys_kept view b c \<Longrightarrow> keys_kept view a c"
  unfolding keys_kept_def by fastforce

lemma keys_kept_drop [simp]:
  "keys_kept view bc (drop_tx k b) = keys_kept view bc b"
  by (simp add: keys_kept_def)

lemma settle_keys_kept:
  assumes "store_good X view stored bc" "new_and_payable view bc tx f t"
  shows "keys_kept view bc (debit_state X tx f bc)" "keys_kept view bc (credit_state X tx f t bc)"
    "keys_kept view bc (record_state X tx f t bc)"
proof -
  from assms(2) have ft: "acc_look view bc (From tx) = Some f" "acc_look view bc (To tx) = Some t"
    by (simp_all add: new_and_payable_def)
  note lk = settle_look [OF assms(1) ft]
  show "keys_kept view bc (debit_state X tx f bc)" "keys_kept view bc (credit_state X tx f t bc)"
    "keys_kept view bc (record_state X tx f t bc)"
    unfolding keys_kept_def lk using ft by (auto simp: IncrementNonce_def)
qed

lemma process_tx_keys_kept:
  assumes "process_tx X C tx bc = (bc', s)" "store_good X view stored bc"
  shows "keys_kept view bc bc'"
  using assms
proof (cases rule: process_tx_cases)
  case same
  then show ?thesis by auto
next
  case (moved f t k)
  then show ?thesis using settle_keys_kept [OF assms(2) moved(1)] by auto
qed

lemma process_id_keys_kept:
  assumes "process_id X C net txID bc = (bc', s)" "store_good X view stored bc"
  shows "keys_kept view bc bc'"
  using assms
proof (cases rule: process_id_cases)
  case same
  then show ?thesis by auto
next
  case (moved f t k tx)
  then show ?thesis using settle_keys_kept [OF assms(2) moved(1)] by auto
qed

lemma mempool_processing_keys_kept:
  assumes "ProcessMempoolTransactions X C ks bc = (bc', ids, r)" "store_good X view stored bc"
  shows "keys_kept view bc bc' \<and> store_good X view stored bc' \<and> pool_look bc' \<subseteq>\<^sub>m pool_look bc"
proof (cases "bcMempool bc")
  case None
  with assms show ?thesis by (simp add: ProcessMempoolTransactions_def)
next
  case (Some mp)
  then have "process_txs X C (GetAllTransactions ks mp) [] bc = (bc', ids, r)"
    using assms(1) by (simp add: ProcessMempoolTransactions_def)
  then show ?thesis
  proof (rule process_txs_inv)
    fix tx b b' s
    assume b: "keys_kept view bc b \<and> store_good X view stored b \<and> pool_look b \<subseteq>\<^sub>m pool_look bc"
      and st: "process_tx X C tx b = (b', s)"
    then show "keys_kept view bc b' \<and> store_good X view stored b' \<and> pool_look b' \<subseteq>\<^sub>m pool_look bc"
      using process_tx_keys_kept [OF st] process_tx_records(1,3) [OF st] keys_kept_trans map_le_trans by blast
  qed (use assms(2) in simp)
qed

lemma ids_processing_keys_kept:
  assumes "ProcessTransactionsByIDs X C net ids bc = (bc', r)" "store_good X view stored bc"
  shows "keys_kept view bc bc' \<and> store_good X view stored bc' \<and> pool_look bc' \<subseteq>\<^sub>m pool_look bc"
proof -
  from assms(1) have "process_ids X C net 0 (elems ids) bc = (bc', r)"
    by (simp add: ProcessTransactionsByIDs_def)
  then show ?thesis
  proof (rule process_ids_inv)
    fix txID j b b' s
    assume b: "keys_kept view bc b \<and> store_good X view stored b \<and> pool_look b \<subseteq>\<^sub>m pool_look bc"
      and st: "process_id X C (net j) txID b = (b', s)"
    then show "keys_kept view bc b' \<and> store_good X view stored b' \<and> pool_look b' \<subseteq>\<^sub>m pool_look bc"
      using process_id_keys_kept [OF st] process_id_good [OF st] process_id_pool(1) [OF st]
        keys_kept_trans map_le_trans by blast
  qed (use assms(2) in simp)
qed

section \<open>Pending transactions are signed\<close>

definition pool_verified ::
    "('sk, 'pk) crypto_ext \<Rightarrow> ('tr \<Rightarrow> bytes \<Rightarrow> bytes option) \<Rightarrow> ('db, 'tr) Blockchain \<Rightarrow> bool" where
  "pool_verified C view bc \<longleftrightarrow> (\<forall>k tx. pool_look bc k = Some tx \<longrightarrow>
     (\<exists>a. acc_look view bc (From tx) = Some a \<and> VerifyTransactionSignature C tx (PublicKey a) = Ok True))"

lemma pool_verified_kept:
  assumes "pool_verified C view bc" "keys_kept view bc bc'" "pool_look bc' \<subseteq>\<^sub>m pool_look bc"
  shows "pool_verified C view bc'"
  unfolding pool_verified_def
proof (intro allI impI)
  fix k tx
  assume "pool_look bc' k = Some tx"
  with assms(3) have "pool_look bc k = Some tx" by (metis domI map_le_def)
  with assms(1,2) show "\<exists>a. acc_look view bc' (From tx) = Some a
      \<and> VerifyTransactionSignature C tx (PublicKey a) = Ok True"
    unfolding pool_verified_def keys_kept_def by metis
qed

lemma pool_verified_add:
  assumes "pool_verified C view bc" "bcMempool bc = Some mp" "acc_look view bc (From tx) = Some a"
    "VerifyTransactionSignature C tx (PublicKey a) = Ok True"
  shows "pool_verified C view (bc\<lparr>bcMempool := Some (fst (AddTransaction C tx mp))\<rparr>)"
proof -
  let ?b = "bc\<lparr>bcMempool := Some (fst (AddTransaction C tx mp))\<rparr>"
  have "acc_look view ?b = acc_look view bc" by (rule acc_look_cong) simp
  with assms show ?thesis
    by (auto simp: pool_verified_def pool_look_def AddTransaction_lookup split: if_splits)
qed

section \<open>One event\<close>

text \<open>
  What an event may do to the chain: nothing, a later last block, or one more block after the
  current one.
\<close>

definition chain_grows ::
    "('db, 'tr, 'nd, 'tdb) store_ext \<Rightarrow> ('tr \<Rightarrow> bytes \<Rightarrow> bytes option)
      \<Rightarrow> ('db, 'tr) Blockchain \<Rightarrow> ('db, 'tr) Blockchain \<Rightarrow> bool" where
  "chain_grows X view bc bc' \<longleftrightarrow>
     GetCurrentBlock X bc' = GetCurrentBlock X bc \<and> blk_look view bc' = blk_look view bc
   \<or> (\<exists>c b. GetCurrentBlock X bc = Ok c \<and> Index b = Index c + 1 \<and> GetCurrentBlock X bc' = Ok b
        \<and> blk_look view bc' = (blk_look view bc)(block_key (Index b) \<mapsto> b))"

lemma chain_grows_refl [simp]: "chain_grows X view bc bc"
  by (simp add: chain_grows_def)

lemma chain_grows_same:
  assumes "same_chain X b bc"
  shows "chain_grows X view bc b"
  using same_chain_reads(1,3) [OF assms] by (simp add: chain_grows_def)

text \<open>What a step keeps, together.\<close>

definition kept ::
    "('db, 'tr, 'nd, 'tdb) store_ext \<Rightarrow> ('tr \<Rightarrow> bytes \<Rightarrow> bytes option)
      \<Rightarrow> ('db \<Rightarrow> bytes \<Rightarrow> (bytes \<Rightarrow> bytes option) \<Rightarrow> bool) \<Rightarrow> ('sk, 'pk) crypto_ext
      \<Rightarrow> ('db, 'tr) Blockchain \<Rightarrow> ('db, 'tr) Blockchain \<Rightarrow> bool" where
  "kept X view stored C bc bc' \<longleftrightarrow> node_good X view stored bc' \<and> pool_verified C view bc'
     \<and> keys_kept view bc bc' \<and> chain_grows X view bc bc'"

lemma save_block_kept:
  assumes "reliable X stored" "node_good X view stored bc" "SaveBlockToTrie X b bc = (bc', r)"
    "Index b \<noteq> 0 \<or> (\<exists>c. GetCurrentBlock X bc = Ok c \<and> Index b = Index c + 1)"
  shows "acc_look view bc' = acc_look view bc" "tx_look view bc' = tx_look view bc"
    "pool_look bc' = pool_look bc" "chain_grows X view bc bc'"
proof -
  have bc': "bc' = fst (SaveBlockToTrie X b bc)" using assms(3) by simp
  show "acc_look view bc' = acc_look view bc" "tx_look view bc' = tx_look view bc"
    by (rule acc_look_cong tx_look_cong; simp add: bc' SaveBlockToTrie_frame)+
  show "pool_look bc' = pool_look bc" by (simp add: bc')
  note ng = node_goodD [OF assms(2)]
  from SaveBlockToTrie_cases_reliable [OF assms(1) ng(1) assms(3)]
  show "chain_grows X view bc bc'"
  proof
    assume "r = Ok ()"
    with assms(3) have s: "SaveBlockToTrie X b bc = (bc', Ok ())" by simp
    obtain c where "GetCurrentBlock X bc = Ok c" using ng(1) by (auto simp: chain_inv_def)
    with SaveBlockToTrie_inv [OF ng(6) ng(1) s] assms(4)
    have "GetCurrentBlock X bc = Ok c \<and> Index (san_Block b) = Index c + 1 \<and> GetCurrentBlock X bc' = Ok (san_Block b)
        \<and> blk_look view bc' = (blk_look view bc)(block_key (Index (san_Block b)) \<mapsto> san_Block b)" by auto
    then show ?thesis unfolding chain_grows_def by blast
  qed simp
qed

text \<open>Executing transactions, then saving a block.\<close>

lemma then_save_kept:
  assumes "reliable X stored" "node_good X view stored b1" "pool_verified C view b1"
    "keys_kept view bc b1" "same_chain X b1 bc" "SaveBlockToTrie X b b1 = (bc', r)"
    "Index b \<noteq> 0 \<or> (\<exists>c. GetCurrentBlock X b1 = Ok c \<and> Index b = Index c + 1)"
  shows "kept X view stored C bc bc'"
proof -
  note s = save_block_kept [OF assms(1,2,6,7)]
  have "pool_verified C view bc'"
    by (rule pool_verified_kept [OF assms(3) keys_kept_same]) (use s in auto)
  moreover have "keys_kept view bc bc'"
    by (rule keys_kept_trans [OF assms(4) keys_kept_same [OF s(1,2)]])
  moreover have "chain_grows X view bc bc'"
    using s(4) same_chain_reads(1,3) [OF assms(5)] by (auto simp: chain_grows_def)
  ultimately show ?thesis using save_block_node_good [OF assms(1,2,6)] by (simp add: kept_def)
qed

lemma propose_kept:
  assumes "reliable X stored" "node_good X view stored bc" "pool_verified C view bc"
    "ProposeNewBlock X C now ks bc = (bc', r)"
  shows "kept X view stored C bc bc'"
proof -
  note ng = node_goodD [OF assms(2)] and keys = store_key [OF node_goodD(7) [OF assms(2)]]
  obtain b1 ids q where p: "ProcessMempoolTransactions X C ks bc = (b1, ids, q)"
    by (cases "ProcessMempoolTransactions X C ks bc")
  note kk = mempool_processing_keys_kept [OF p ng(2)] and same = same_chain_mempool [OF keys p]
  have n1: "node_good X view stored b1"
    using mempool_processing_durable [OF assms(1) ng(2,3) p] bcMempool_mempool [OF p] ng
      chain_inv_cong [OF same] printable_le by (auto simp: node_good_def)
  have v1: "pool_verified C view b1" using pool_verified_kept [OF assms(3)] kk by blast
  have "bc' = bc \<or> bc' = b1 \<or> (\<exists>nb c r'. SaveBlockToTrie X nb b1 = (bc', r')
      \<and> GetCurrentBlock X bc = Ok c \<and> Index nb = Index c + 1)"
    using assms(4) p
    by (auto simp: ProposeNewBlock_def Let_def new_block_def split: outcome.splits if_splits prod.splits)
  then consider "bc' = bc" | "bc' = b1" | nb c r' where "SaveBlockToTrie X nb b1 = (bc', r')"
    "GetCurrentBlock X b1 = Ok c" "Index nb = Index c + 1"
    using same_chain_reads(1) [OF same] by auto
  then show ?thesis
  proof cases
    case 1
    with assms(2,3) show ?thesis by (simp add: kept_def)
  next
    case 2
    with n1 v1 kk chain_grows_same [OF same] show ?thesis by (simp add: kept_def)
  next
    case 3
    show ?thesis by (rule then_save_kept [OF assms(1) n1 v1 _ same 3(1)]) (use kk 3 in blast)+
  qed
qed

lemma handle_kept:
  assumes "reliable X stored" "node_good X view stored bc" "pool_verified C view bc"
    "HandleNewBlock X C net b bc = (bc', r)"
  shows "kept X view stored C bc bc'"
proof -
  note ng = node_goodD [OF assms(2)] and keys = store_key [OF node_goodD(7) [OF assms(2)]]
  obtain b1 q where p: "ProcessTransactionsByIDs X C net (Txns b) bc = (b1, q)"
    by (cases "ProcessTransactionsByIDs X C net (Txns b) bc")
  note kk = ids_processing_keys_kept [OF p ng(2)] and same = same_chain_ids [OF keys p]
  have n1: "node_good X view stored b1"
    using ids_processing_durable [OF assms(1) ng(2,3) p] bcMempool_ids [OF p ng(4)] ng
      chain_inv_cong [OF same] printable_le by (auto simp: node_good_def)
  have v1: "pool_verified C view b1" using pool_verified_kept [OF assms(3)] kk by blast
  have "bc' = bc \<or> bc' = b1 \<or> (\<exists>r'. SaveBlockToTrie X b b1 = (bc', r') \<and> Index b \<noteq> 0)"
    using assms(4) p by (auto simp: HandleNewBlock_def split: outcome.splits if_splits prod.splits)
  then consider "bc' = bc" | "bc' = b1" | r' where "SaveBlockToTrie X b b1 = (bc', r')" "Index b \<noteq> 0" by blast
  then show ?thesis
  proof cases
    case 1
    with assms(2,3) show ?thesis by (simp add: kept_def)
  next
    case 2
    with n1 v1 kk chain_grows_same [OF same] show ?thesis by (simp add: kept_def)
  next
    case 3
    show ?thesis by (rule then_save_kept [OF assms(1) n1 v1 _ same 3(1)]) (use kk 3 in blast)+
  qed
qed

text \<open>A later last block: only the pointer changes.\<close>

lemma last_block_kept:
  assumes "node_good X view stored bc" "pool_verified C view bc"
    "handleLastBlockResponse X b bc = (bc', r)"
  shows "kept X view stored C bc bc'"
proof (cases "bc' = bc")
  case True
  with assms show ?thesis by (simp add: kept_def)
next
  case False
  note ng = node_goodD [OF assms(1)] and keys = store_key [OF node_goodD(7) [OF assms(1)]]
  from False assms(3) obtain l where l: "GetLastBlock X bc = Ok l" "Index b > Index l"
    and s: "SaveLastBlock X b bc = (bc', r)"
    by (auto simp: handleLastBlockResponse_def split: outcome.splits if_splits)
  from s False have u: "SaveLastBlock X b bc = (bc', Ok ())"
    by (auto simp: SaveLastBlock_def split: sum.splits)
  note sl = SaveLastBlock_Ok [OF keys u]
  have fr: "tr bc' = tr bc" "txTrie bc' = txTrie bc" "accTrie bc' = accTrie bc" "bcMempool bc' = bcMempool bc"
    using Save_pointer_frame [of X b bc] u by simp_all
  have blk: "blk_look view bc' = blk_look view bc" by (rule blk_look_cong [OF sl(3)])
  then have "blk_good X view stored bc'" using ng(6) fr by (simp add: blk_good_def)
  then have chain: "chain_inv X view stored bc'"
    using ng(1) l sl blk by (auto simp: chain_inv_def)
  have look: "acc_look view bc' = acc_look view bc" "tx_look view bc' = tx_look view bc"
    "pool_look bc' = pool_look bc"
    using acc_look_cong [of bc' bc view] tx_look_cong [of bc' bc view] fr by (auto simp: pool_look_def fun_eq_iff)
  have "store_good X view stored bc'"
    using ng(2) acc_good_cong [of bc' bc X view stored] tx_good_cong [of bc' bc X view stored] fr
    by (simp add: store_good_def)
  moreover have "durable X view stored bc'"
    using durable_grows [OF ng(3) _ fr(1-3)] save_pointers_grow(2) [OF ng(7), of bc b] u by simp
  moreover have "printable bc'" using ng(5) look by (simp add: printable_def)
  ultimately have "node_good X view stored bc'" using chain fr ng(4) by (simp add: node_good_def)
  moreover have "pool_verified C view bc'" using assms(2) look by (simp add: pool_verified_def)
  ultimately show ?thesis
    using keys_kept_same [OF look(1,2)] blk sl(2) by (simp add: kept_def chain_grows_def)
qed

text \<open>A new pending transaction.\<close>

lemma add_kept:
  assumes C: "crypto_laws C" and ng: "node_good X view stored bc" and v: "pool_verified C view bc"
    and mp: "bcMempool bc = Some mp" and a: "GetAccountFromTrie X (From tx) bc = Ok a"
    and ver: "VerifyTransactionSignature C tx (PublicKey a) = Ok True"
  shows "kept X view stored C bc (bc\<lparr>bcMempool := Some (fst (AddTransaction C tx mp))\<rparr>)"
    "PrintMempool (fst (AddTransaction C tx mp)) = Ok ()"
proof -
  let ?b = "bc\<lparr>bcMempool := Some (fst (AddTransaction C tx mp))\<rparr>"
  note g = node_goodD [OF ng]
  note pr = add_verified_printable [OF C g(5) mp ver]
  show "PrintMempool (fst (AddTransaction C tx mp)) = Ok ()" by (rule pr(1))
  have c: "same_content view ?b bc" by (simp add: same_content_def)
  note looks = same_content_looks(1-3) [OF c] same_content_looks(4,5) [OF c, of X]
  have "node_good X view stored ?b"
    using g same_content_good [OF c, of X stored] pr(2) by (simp add: node_good_def)
  moreover have "pool_verified C view ?b"
    by (rule pool_verified_add [OF v mp account_read [OF g(2) a] ver])
  ultimately show "kept X view stored C bc ?b"
    using keys_kept_same looks by (simp add: kept_def chain_grows_def)
qed

lemma kept_refl: "node_good X view stored bc \<Longrightarrow> pool_verified C view bc \<Longrightarrow> kept X view stored C bc bc"
  by (simp add: kept_def)

lemma tx_msg_kept:
  assumes "crypto_laws C" "node_good X view stored bc" "pool_verified C view bc"
    "handle_tx_msg X C tx bc = (bc', r)"
  shows "kept X view stored C bc bc'" "r \<noteq> Panic"
proof -
  obtain mp where mp: "bcMempool bc = Some mp" using node_goodD(4) [OF assms(2)] by auto
  note np = account_no_panic [OF node_goodD(2) [OF assms(2)]]
  have add: "\<And>a. GetAccountFromTrie X (From tx) bc = Ok a \<Longrightarrow> VerifyTransactionSignature C tx (PublicKey a) = Ok True
     \<Longrightarrow> kept X view stored C bc (bc\<lparr>bcMempool := Some (fst (AddTransaction C tx mp))\<rparr>)
       \<and> PrintMempool (fst (AddTransaction C tx mp)) = Ok ()"
    using add_kept [OF assms(1-3) mp] by blast
  have ver: "VerifyTransactionSignature C tx k \<noteq> Panic" for k
    by (simp add: VerifyTransactionSignature_def split: sum.splits)
  have "kept X view stored C bc bc' \<and> r \<noteq> Panic"
    using assms(4) mp kept_refl [OF assms(2,3)] np ver add
    by (auto simp: handle_tx_msg_def AddTransaction_def Let_def split: outcome.splits if_splits)
  then show "kept X view stored C bc bc'" "r \<noteq> Panic" by blast+
qed

lemma propose_tick_kept:
  assumes "reliable X stored" "node_good X view stored bc" "pool_verified C view bc"
    "propose_tick X C R now ks bc = (bc', out, r)"
  shows "kept X view stored C bc bc'"
proof -
  have "bc' = bc \<or> (\<exists>q. ProposeNewBlock X C now ks bc = (bc', q))"
    using assms(4) by (auto simp: propose_tick_def split: option.splits outcome.splits prod.splits)
  with propose_kept [OF assms(1-3)] kept_refl [OF assms(2,3)] show ?thesis by blast
qed

lemma submit_kept:
  assumes "crypto_laws C" "node_good X view stored bc" "pool_verified C view bc"
    "CreateAndAddTransaction X C oob now a b amount key bc = (bc', out, r)"
  shows "kept X view stored C bc bc'" "r \<noteq> Panic"
proof -
  obtain mp where mp: "bcMempool bc = Some mp" using node_goodD(4) [OF assms(2)] by auto
  note np = account_no_panic [OF node_goodD(2) [OF assms(2)]]
  have add: "GetAccountFromTrie X a bc = Ok acc \<Longrightarrow> VerifyTransactionSignature C tx (PublicKey acc) = Ok True
     \<Longrightarrow> NewTransaction C oob now a b amount key = Ok tx
     \<Longrightarrow> kept X view stored C bc (bc\<lparr>bcMempool := Some (fst (AddTransaction C tx mp))\<rparr>)
       \<and> PrintMempool (fst (AddTransaction C tx mp)) = Ok ()" for acc tx
    using add_kept [OF assms(1-3) mp, of tx acc] NewTransaction_Ok(1) [of C oob now a b amount key tx] by auto
  have ver: "VerifyTransactionSignature C tx k \<noteq> Panic" for tx k
    by (simp add: VerifyTransactionSignature_def split: sum.splits)
  have new: "NewTransaction C oob now a b amount key \<noteq> Panic"
    by (simp add: NewTransaction_def Let_def split: outcome.splits)
  have "kept X view stored C bc bc' \<and> r \<noteq> Panic"
  proof (cases "\<exists>tx acc. NewTransaction C oob now a b amount key = Ok tx \<and> GetAccountFromTrie X a bc = Ok acc
      \<and> VerifyTransactionSignature C tx (PublicKey acc) = Ok True")
    case True
    then obtain tx acc where t: "NewTransaction C oob now a b amount key = Ok tx"
      "GetAccountFromTrie X a bc = Ok acc" "VerifyTransactionSignature C tx (PublicKey acc) = Ok True" by blast
    obtain mp' u where u: "AddTransaction C tx mp = (mp', u)" by (cases "AddTransaction C tx mp")
    then have "u = Ok () \<or> (\<exists>e. u = Err e)" by (auto simp: AddTransaction_def Let_def split: if_splits)
    then have "bc' = bc \<and> r \<noteq> Panic \<or> bc' = bc\<lparr>bcMempool := Some (fst (AddTransaction C tx mp))\<rparr> \<and> r = Ok tx"
      using assms(4) mp t add [OF t(2,3,1)] u by (auto simp: CreateAndAddTransaction_def Let_def)
    with add [OF t(2,3,1)] kept_refl [OF assms(2,3)] show ?thesis by auto
  next
    case False
    with assms(4) np ver new kept_refl [OF assms(2,3)] show ?thesis
      by (auto simp: CreateAndAddTransaction_def split: outcome.splits if_splits)
  qed
  then show "kept X view stored C bc bc'" "r \<noteq> Panic" by blast+
qed

lemma message_kept:
  assumes "reliable X stored" "crypto_laws C" "node_good X view stored bc" "pool_verified C view bc"
    "handle_message X C R net msg bc = (bc', out, r)"
  shows "kept X view stored C bc bc'"
proof -
  have "bc' = bc \<or> (\<exists>b q. HandleNewBlock X C net b bc = (bc', q))
      \<or> (\<exists>b q. handleLastBlockResponse X b bc = (bc', q)) \<or> (\<exists>tx q. handle_tx_msg X C tx bc = (bc', q))"
    using assms(5)
    by (auto simp: handle_message_def Let_def quiet_def handleBlockResponse_def
        handleBlockProposalRequestMsg_def split: if_splits sum.splits) (metis prod.collapse)+
  with handle_kept [OF assms(1,3,4)] last_block_kept [OF assms(3,4)] tx_msg_kept(1) [OF assms(2-4)]
    kept_refl [OF assms(3,4)] show ?thesis by blast
qed

lemma event_kept:
  assumes "reliable X stored" "crypto_laws C" "node_good X view stored bc" "pool_verified C view bc"
    "node_event X C R ev bc = (bc', out, r)"
  shows "kept X view stored C bc bc'"
proof (cases ev)
  case (Receive net msg)
  with assms(5) message_kept [OF assms(1-4)] show ?thesis by (simp add: node_event_def)
next
  case (ProposeTick now ks)
  with assms(5) propose_tick_kept [OF assms(1,3,4)] show ?thesis by (simp add: node_event_def)
next
  case (Submit oob now a b amount key)
  with assms(5) have "\<exists>o' q. CreateAndAddTransaction X C oob now a b amount key bc = (bc', o', q)"
    by (auto simp: node_event_def split: prod.splits outcome.splits)
  with submit_kept(1) [OF assms(2-4)] show ?thesis by blast
qed (use assms(5) kept_refl [OF assms(3,4)] in \<open>simp_all add: node_event_def\<close>)

section \<open>What ends the process\<close>

text \<open>What the network may answer without harm: a transaction, or nothing in time.\<close>

definition net_answers :: "bool \<Rightarrow> p2p_outcome \<Rightarrow> bool" where
  "net_answers p2p net \<longleftrightarrow> p2p \<longrightarrow> net = P2PTimeout \<or> (\<exists>tx. net = P2PResponse (Some tx))"

lemma GetTransactionByID_not_nil:
  assumes "tx_good X view stored bc" "bcMempool bc \<noteq> None" "net_answers (bcP2P bc) net"
  shows "GetTransactionByID X C net txID bc \<noteq> Panic" "GetTransactionByID X C net txID bc \<noteq> Ok None"
  using assms
  by (auto simp: GetTransactionByID_def net_answers_def GetTransaction_def GetTransactionFromTrie_def tx_good_def
      split: option.splits outcome.splits sum.splits p2p_outcome.splits)

lemma process_id_no_crash:
  assumes "store_good X view stored bc" "bcMempool bc \<noteq> None" "net_answers (bcP2P bc) net"
    "process_id X C net txID bc = (bc', s)"
  shows "s \<noteq> Crashed"
proof -
  note g = store_goodD [OF assms(1)]
  note nn = GetTransactionByID_not_nil [OF g(2) assms(2,3), of C txID] and np = account_no_panic [OF assms(1)]
  have st: "settle X tx f t bc \<noteq> (b, SettleCrashed)" for tx f t b
  proof
    assume "settle X tx f t bc = (b, SettleCrashed)"
    from this assms(1) show False by (cases rule: settle_cases) simp_all
  qed
  from assms(4) nn np st show ?thesis
    by (auto simp: process_id_def split: sum.splits outcome.splits option.splits if_splits prod.splits
        settlement.splits)
qed

lemma process_ids_no_panic:
  assumes "store_good X view stored bc" "bcMempool bc \<noteq> None" "\<And>i. net_answers (bcP2P bc) (net i)"
    "process_ids X C net i ids bc = (bc', r)"
  shows "r \<noteq> Panic"
  using assms
proof (induction ids arbitrary: i bc)
  case (Cons txID ids)
  obtain b s where b: "process_id X C (net i) txID bc = (b, s)" by (cases "process_id X C (net i) txID bc")
  have g: "store_good X view stored b" by (rule process_id_good [OF b Cons.prems(1)])
  have m: "bcMempool b \<noteq> None" using bcMempool_process_id [of X C "net i" txID bc] b Cons.prems(2) by simp
  have n: "\<And>i. net_answers (bcP2P b) (net i)"
    using Cons.prems(3) process_id_pool(2) [OF b Cons.prems(1)] by simp
  have c: "s \<noteq> Crashed" by (rule process_id_no_crash [OF Cons.prems(1,2,3) b])
  show ?case
  proof (cases s)
    case Skipped
    then show ?thesis using Cons.IH [OF g m n] Cons.prems(4) b by simp
  next
    case Done
    then show ?thesis using Cons.IH [OF g m n] Cons.prems(4) b by simp
  qed (use Cons.prems(4) b c in auto)
qed auto

lemma reads_no_panic [simp]:
  "GetCurrentBlock X bc \<noteq> Panic" "GetLastBlock X bc \<noteq> Panic" "find_node i ns \<noteq> Panic"
  "VerifySignature C k m sig \<noteq> Panic" "SignMerkleRoot C k m \<noteq> Panic"
  by (auto simp: GetCurrentBlock_def GetLastBlock_def VerifySignature_def SignMerkleRoot_def
      split: sum.splits option.splits) (induction ns; simp split: if_splits)

lemma HandleNewBlock_no_panic:
  assumes "node_good X view stored bc" "\<And>i. net_answers (bcP2P bc) (net i)"
    "HandleNewBlock X C net b bc = (bc', r)"
  shows "r \<noteq> Panic"
proof -
  note ng = node_goodD [OF assms(1)] and keys = store_key [OF node_goodD(7) [OF assms(1)]]
  obtain b1 q where p: "ProcessTransactionsByIDs X C net (Txns b) bc = (b1, q)"
    by (cases "ProcessTransactionsByIDs X C net (Txns b) bc")
  then have q: "q \<noteq> Panic"
    using process_ids_no_panic [OF ng(2,4) assms(2)] by (simp add: ProcessTransactionsByIDs_def)
  have "blk_good X view stored b1"
    using ng(6) same_chain_reads(4) [OF same_chain_ids [OF keys p]] by blast
  then have "snd (SaveBlockToTrie X b b1) \<noteq> Panic" by (rule SaveBlockToTrie_no_panic)
  then have sv: "SaveBlockToTrie X b b1 \<noteq> (b2, Panic)" for b2 by (metis snd_conv)
  have ex: "existing_signature X i bc \<noteq> Panic" for i
    using blks.get_no_panic [OF ng(6)] by (auto simp: existing_signature_def split: outcome.splits)
  from assms(3) p q sv ex show ?thesis
    by (auto simp: HandleNewBlock_def GetNodeConfigByIndex_def split: if_splits outcome.splits prod.splits)
qed

lemma ProposeNewBlock_no_panic:
  assumes "node_good X view stored bc" "ProposeNewBlock X C now ks bc = (bc', r)"
  shows "r \<noteq> Panic"
proof -
  note ng = node_goodD [OF assms(1)] and keys = store_key [OF node_goodD(7) [OF assms(1)]]
  obtain mp where mp: "bcMempool bc = Some mp" using ng(4) by auto
  obtain b1 ids q where p: "ProcessMempoolTransactions X C ks bc = (b1, ids, q)"
    by (cases "ProcessMempoolTransactions X C ks bc")
  then have q: "q \<noteq> Panic"
    using process_txs_no_panic [OF _ ng(2)] mp by (simp add: ProcessMempoolTransactions_def)
  have "blk_good X view stored b1"
    using ng(6) same_chain_reads(4) [OF same_chain_mempool [OF keys p]] by blast
  then have "snd (SaveBlockToTrie X b b1) \<noteq> Panic" for b by (rule SaveBlockToTrie_no_panic)
  then have sv: "SaveBlockToTrie X b b1 \<noteq> (b2, Panic)" for b b2 by (metis snd_conv)
  from assms(2) p q sv show ?thesis
    by (auto simp: ProposeNewBlock_def Let_def split: if_splits outcome.splits prod.splits)
qed

lemma answer_no_panic: "r \<noteq> Panic \<Longrightarrow> snd (answer code enc r) \<noteq> Panic"
  by (cases r) (simp_all add: answer_def)

lemma FromNode_no_panic:
  assumes "bcMempool bc \<noteq> None"
  shows "GetTransactionByIDFromNode X C k bc \<noteq> Panic"
  using assms by (auto simp: GetTransactionByIDFromNode_def GetTransaction_def split: option.splits outcome.splits sum.splits)

lemma message_no_panic:
  assumes "crypto_laws C" "node_good X view stored bc" "pool_verified C view bc"
    "\<And>i. net_answers (bcP2P bc) (net i)" "handle_message X C R net msg bc = (bc', out, r)"
  shows "r \<noteq> Panic"
proof -
  note ng = node_goodD [OF assms(2)]
  have h: "snd (HandleNewBlock X C net b bc) \<noteq> Panic" for b
    by (rule HandleNewBlock_no_panic [OF assms(2,4) surjective_pairing])
  have t: "snd (handle_tx_msg X C tx bc) \<noteq> Panic" for tx
    by (rule tx_msg_kept(2) [OF assms(1-3) surjective_pairing])
  have l: "snd (handleLastBlockResponse X b bc) \<noteq> Panic" for b
    by (auto simp: handleLastBlockResponse_def split: outcome.splits)
  note a = answer_no_panic [OF blks.get_no_panic [OF ng(6)]] answer_no_panic [OF reads_no_panic(2)]
    answer_no_panic [OF FromNode_no_panic [OF ng(4)]]
  have "snd (snd (handle_message X C R net msg bc)) \<noteq> Panic"
    unfolding handle_message_def Let_def quiet_def handleBlockResponse_def handleBlockProposalRequestMsg_def
    by (simp add: h t l a split: sum.split)
  with assms(5) show ?thesis by simp
qed

lemma event_no_panic:
  assumes "crypto_laws C" "node_good X view stored bc" "pool_verified C view bc"
    "\<And>net msg i. ev = Receive net msg \<Longrightarrow> net_answers (bcP2P bc) (net i)"
    "node_event X C R ev bc = (bc', out, r)"
  shows "r \<noteq> Panic"
proof (cases ev)
  case (Receive net msg)
  then have "handle_message X C R net msg bc = (bc', out, r)" using assms(5) by (simp add: node_event_def)
  then show ?thesis by (rule message_no_panic [OF assms(1-3) assms(4) [OF Receive]])
next
  case (ProposeTick now ks)
  obtain mp where mp: "bcMempool bc = Some mp" using node_goodD(4) [OF assms(2)] by auto
  moreover have "PrintMempool mp = Ok ()"
    using node_goodD(5) [OF assms(2)] mp by (auto simp: PrintMempool_Ok_iff printable_def pool_look_def)
  ultimately show ?thesis using ProposeTick assms(5) ProposeNewBlock_no_panic [OF assms(2), of C now ks]
    by (auto simp: node_event_def propose_tick_def split: prod.splits outcome.splits)
next
  case UpdateTick
  with assms(5) show ?thesis by (auto simp: node_event_def update_tick_def split: outcome.splits)
next
  case (Submit oob now a b amount key)
  with assms(5) submit_kept(2) [OF assms(1-3), of oob now a b amount key] show ?thesis
    by (auto simp: node_event_def split: prod.splits outcome.splits)
qed (use assms(5) in \<open>auto simp: node_event_def\<close>)

section \<open>Runs\<close>

text \<open>
  The states a node reaches in \<open>n\<close> steps. A step is an event that does not panic, or the end of
  the process between two events followed by a start on the database it left.
\<close>

inductive node_run ::
    "('db, 'tr, 'nd, 'tdb) store_ext \<Rightarrow> ('sk, 'pk) crypto_ext \<Rightarrow> 'pl rlp_ext \<Rightarrow> ('db, 'tr) Blockchain
      \<Rightarrow> nat \<Rightarrow> ('db, 'tr) Blockchain \<Rightarrow> bool"
  for X C R bc where
  run_start: "node_run X C R bc 0 bc"
| run_event: "node_run X C R bc n b \<Longrightarrow> node_event X C R ev b = (b', out, r) \<Longrightarrow> r \<noteq> Panic
    \<Longrightarrow> node_run X C R bc (Suc n) b'"
| run_restart: "node_run X C R bc n b \<Longrightarrow> host_gives H (db b) config \<Longrightarrow> Init X C H now b0 = (b', r)
    \<Longrightarrow> node_run X C R bc (Suc n) b'"

inductive_simps node_run_0 [simp]: "node_run X C R bc 0 b"
inductive_cases node_run_SucE: "node_run X C R bc (Suc n) b"

text \<open>No block lies beyond the current one.\<close>

definition chain_tip ::
    "('db, 'tr, 'nd, 'tdb) store_ext \<Rightarrow> ('tr \<Rightarrow> bytes \<Rightarrow> bytes option) \<Rightarrow> ('db, 'tr) Blockchain \<Rightarrow> Block \<Rightarrow> bool" where
  "chain_tip X view bc c \<longleftrightarrow> GetCurrentBlock X bc = Ok c
     \<and> (\<forall>i > Index c. blk_look view bc (block_key i) = None)"

lemma chain_grows_tip:
  assumes "chain_grows X view bc bc'" "chain_tip X view bc c" "Index c + 1 \<noteq> 0"
  shows "blk_look view bc \<subseteq>\<^sub>m blk_look view bc'
    \<and> (\<exists>c'. chain_tip X view bc' c' \<and> (Index c' = Index c \<or> Index c' = Index c + 1))"
  using assms(1) unfolding chain_grows_def
proof
  assume "GetCurrentBlock X bc' = GetCurrentBlock X bc \<and> blk_look view bc' = blk_look view bc"
  with assms(2) show ?thesis by (auto simp: chain_tip_def)
next
  assume "\<exists>c b. GetCurrentBlock X bc = Ok c \<and> Index b = Index c + 1 \<and> GetCurrentBlock X bc' = Ok b
      \<and> blk_look view bc' = (blk_look view bc)(block_key (Index b) \<mapsto> b)"
  with assms(2) obtain b where b: "Index b = Index c + 1" "GetCurrentBlock X bc' = Ok b"
    "blk_look view bc' = (blk_look view bc)(block_key (Index b) \<mapsto> b)" by (auto simp: chain_tip_def)
  have gt: "Index c < Index b"
    using assms(3) unat_plus_one_eq [of "Index c + 1" "Index c"] b(1) by (simp add: word_less_nat_alt)
  with assms(2) have "blk_look view bc (block_key (Index b)) = None" by (simp add: chain_tip_def)
  with b(3) have "blk_look view bc \<subseteq>\<^sub>m blk_look view bc'" by (auto simp: map_le_def)
  moreover have "chain_tip X view bc' b"
    using b gt assms(2) by (auto simp: chain_tip_def)
  ultimately show ?thesis using b(1) by blast
qed

text \<open>A restart keeps what an event keeps.\<close>

definition disk_ok ::
    "('db, 'tr, 'nd, 'tdb) store_ext \<Rightarrow> ('db \<Rightarrow> bytes \<Rightarrow> (bytes \<Rightarrow> bytes option) \<Rightarrow> bool) \<Rightarrow> bool" where
  "disk_ok X stored \<longleftrightarrow> reliable X stored \<and> (\<forall>d. stored d zero_hash Map.empty)"

lemma restart_kept:
  assumes "disk_ok X stored" "crypto_laws C" "test_keys C" "node_good X view stored b"
    "host_gives H (db b) config" "Init X C H now b0 = (b', r)"
  shows "kept X view stored C b b'"
proof -
  have rel: "reliable X stored" "stored (db b) zero_hash Map.empty" using assms(1) by (simp_all add: disk_ok_def)
  note r = restart_effect [OF rel(1) assms(2-4) rel(2) assms(5,6)]
  then have "pool_verified C view b'" by (simp add: pool_verified_def pool_look_def NewMempool_def)
  moreover have "keys_kept view b b'"
    using r unfolding keys_kept_def adds_test_accounts_def map_le_def by (metis domI order_refl)
  ultimately show ?thesis using r by (simp add: kept_def chain_grows_def)
qed

lemma kept_tip:
  assumes "kept X view stored C b b'" "chain_tip X view b d" "unat (Index d) + 1 < 2 ^ 64"
  shows "blk_look view b \<subseteq>\<^sub>m blk_look view b'
    \<and> (\<exists>d'. chain_tip X view b' d' \<and> unat (Index d) \<le> unat (Index d') \<and> unat (Index d') \<le> Suc (unat (Index d)))"
proof -
  have u: "unat (Index d + 1) = unat (Index d) + 1" using unat_add_small [of "Index d" 1] assms(3) by simp
  then have "Index d + 1 \<noteq> 0" by auto
  with chain_grows_tip [of X view b b' d] assms(1,2) u show ?thesis
    by (simp add: kept_def) (metis Suc_eq_plus1 le_SucI order_refl)
qed

text \<open>One more step of a run.\<close>

lemma run_keep:
  assumes "node_good X view stored b \<and> pool_verified C view b \<and> keys_kept view bc b
    \<and> blk_look view bc \<subseteq>\<^sub>m blk_look view b
    \<and> (\<exists>d. chain_tip X view b d \<and> unat (Index c) \<le> unat (Index d) \<and> unat (Index d) \<le> unat (Index c) + n)"
    "kept X view stored C b b'" "unat (Index c) + Suc n < 2 ^ 64"
  shows "node_good X view stored b' \<and> pool_verified C view b' \<and> keys_kept view bc b'
    \<and> blk_look view bc \<subseteq>\<^sub>m blk_look view b'
    \<and> (\<exists>d. chain_tip X view b' d \<and> unat (Index c) \<le> unat (Index d) \<and> unat (Index d) \<le> unat (Index c) + Suc n)"
proof -
  from assms(1) obtain d where d: "chain_tip X view b d" "unat (Index c) \<le> unat (Index d)"
    "unat (Index d) \<le> unat (Index c) + n" by blast
  with kept_tip [OF assms(2) d(1)] assms(3) obtain d' where
    d': "blk_look view b \<subseteq>\<^sub>m blk_look view b'" "chain_tip X view b' d'"
    "unat (Index d) \<le> unat (Index d')" "unat (Index d') \<le> Suc (unat (Index d))" by auto
  then have "unat (Index c) \<le> unat (Index d') \<and> unat (Index d') \<le> unat (Index c) + Suc n" using d by simp
  moreover have "blk_look view bc \<subseteq>\<^sub>m blk_look view b'" using assms(1) d'(1) map_le_trans by blast
  moreover have "keys_kept view bc b'" using assms(1,2) keys_kept_trans unfolding kept_def by blast
  ultimately show ?thesis using d'(2) assms(2) unfolding kept_def by blast
qed

lemma node_run_kept:
  assumes "disk_ok X stored" "crypto_laws C" "test_keys C" "node_good X view stored bc" "pool_verified C view bc"
    "chain_tip X view bc c" "node_run X C R bc n b" "unat (Index c) + n < 2 ^ 64"
  shows "node_good X view stored b \<and> pool_verified C view b \<and> keys_kept view bc b
    \<and> blk_look view bc \<subseteq>\<^sub>m blk_look view b
    \<and> (\<exists>d. chain_tip X view b d \<and> unat (Index c) \<le> unat (Index d) \<and> unat (Index d) \<le> unat (Index c) + n)"
  (is "?I n b")
  using assms(7,8)
proof (induction rule: node_run.induct)
  case run_start
  with assms(4-6) show ?case by auto
next
  case (run_event n b ev b' out r)
  then have "?I n b" by simp
  moreover from this have "kept X view stored C b b'"
    using event_kept [OF _ assms(2) _ _ run_event.hyps(2)] assms(1) by (simp add: disk_ok_def)
  ultimately show ?case using run_keep run_event.prems by blast
next
  case (run_restart n b H config now b0 b' r)
  then have "?I n b" by simp
  moreover from this have "kept X view stored C b b'"
    using restart_kept [OF assms(1-3) _ run_restart.hyps(2,3)] by blast
  ultimately show ?case using run_keep run_restart.prems by blast
qed

text \<open>
  C3. The invariant of a node. Where no storage call fails, whatever messages arrive in whatever
  order, and however often the process ends and is started again on the database it left, a
  healthy node stays healthy: its chain has no gaps and the last known block is not
  behind the current one, what the three tries hold is what a restart would find, the mempool can
  be printed. The chain is append-only: after \<open>n\<close> steps (block numbers do not overflow within
  them) every block is still there, and at most \<open>n\<close> blocks have been added after the current
  one. Executed transactions stay recorded; no account disappears or changes its key.
\<close>

theorem node_run_keeps_ledger:
  assumes "disk_ok X stored" "crypto_laws C" "test_keys C" "node_good X view stored bc"
    "pool_verified C view bc" "chain_tip X view bc c" "node_run X C R bc n b" "unat (Index c) + n < 2 ^ 64"
  shows "node_good X view stored b \<and> blk_look view bc \<subseteq>\<^sub>m blk_look view b
    \<and> (\<exists>d. chain_tip X view b d \<and> unat (Index c) \<le> unat (Index d) \<and> unat (Index d) \<le> unat (Index c) + n)
    \<and> dom (tx_look view bc) \<subseteq> dom (tx_look view b)
    \<and> (\<forall>k a. acc_look view bc k = Some a \<longrightarrow>
          (\<exists>a'. acc_look view b k = Some a' \<and> PublicKey a' = PublicKey a))"
  using node_run_kept [OF assms] by (simp add: keys_kept_def)

lemma ref_disk_ok: "disk_ok ref_store ref_stored"
  by (simp add: disk_ok_def ref_reliable ref_stored_zero)

lemma demo_start:
  "pool_verified C map_of (demo_node i key)" "chain_tip ref_store map_of (demo_node i key) (GetGenesisBlock 0)"
  by (auto simp: pool_verified_def pool_look_def demo_node_facts NewMempool_def chain_tip_def)

text \<open>A block arrives, and the node is restarted.\<close>

lemma node_run_keeps_ledger_witness:
  "\<exists>b. node_run ref_store ref_crypto ref_rlp (demo_node 2 []) 2 b
     \<and> blk_look map_of b (block_key 0) = Some (GetGenesisBlock 0)"
proof -
  let ?ev = "Receive (\<lambda>_. P2PTimeout) (BlockResponseMsg, PBlock (demo_block 1 ''sig''))"
  obtain b1 out r where e: "node_event ref_store ref_crypto ref_rlp ?ev (demo_node 2 []) = (b1, out, r)"
    by (metis surj_pair)
  have "r \<noteq> Panic"
    by (rule event_no_panic [OF ref_crypto_laws demo_node_good demo_start(1) _ e]) (auto simp: net_answers_def)
  then have 1: "node_run ref_store ref_crypto ref_rlp (demo_node 2 []) (Suc 0) b1" by (rule run_event [OF run_start e])
  obtain b r' where i: "Init ref_store ref_crypto (demo_host (db b1)) 9 (GetInstance ([], [])) = (b, r')"
    by (metis surj_pair)
  have run: "node_run ref_store ref_crypto ref_rlp (demo_node 2 []) 2 b"
    using run_restart [OF 1 demo_host_gives i] by (simp add: numeral_2_eq_2)
  from node_run_keeps_ledger [OF ref_disk_ok ref_crypto_laws demo_test_keys demo_node_good demo_start run]
  have "blk_look map_of (demo_node 2 []) \<subseteq>\<^sub>m blk_look map_of b" by simp
  then have "blk_look map_of b (block_key 0) = Some (GetGenesisBlock 0)"
    by (auto simp: map_le_def demo_node_facts)
  with run show ?thesis by blast
qed

text \<open>
  C7. Nothing unsigned is pending. In every state of such a run, each transaction in the mempool
  has a sender with an account, and that account's public key verifies its signature.
\<close>

theorem pending_transactions_are_signed:
  assumes "disk_ok X stored" "crypto_laws C" "test_keys C" "node_good X view stored bc"
    "pool_verified C view bc" "chain_tip X view bc c" "node_run X C R bc n b" "unat (Index c) + n < 2 ^ 64" "pool_look b k = Some tx"
  shows "\<exists>a. acc_look view b (From tx) = Some a \<and> VerifyTransactionSignature C tx (PublicKey a) = Ok True"
  using node_run_kept [OF assms(1-8)] assms(9) by (simp add: pool_verified_def)

text \<open>A node with an account whose key signs.\<close>

definition demo_wallet :: "(ref_db, ref_trie) Blockchain" where
  "demo_wallet = fst (SaveAccountToTrie ref_store carol (demo_node 2 []))"

lemma demo_wallet_facts:
  "node_good ref_store map_of ref_stored demo_wallet" "pool_verified C map_of demo_wallet"
  "chain_tip ref_store map_of demo_wallet (GetGenesisBlock 0)"
  "GetAccountFromTrie ref_store ''0xc'' demo_wallet = Ok carol" "bcMempool demo_wallet = Some NewMempool"
proof -
  let ?n = "demo_node 2 []"
  have h: "healthy ref_store map_of ref_stored demo_wallet"
    unfolding demo_wallet_def
    by (rule healthy_save_account [OF ref_reliable healthy_node_good [OF demo_node_good] san_carol])
  show mp: "bcMempool demo_wallet = Some NewMempool"
    by (simp add: demo_wallet_def frame_simps demo_node_facts)
  show "node_good ref_store map_of ref_stored demo_wallet"
    using h mp by (simp add: node_good_def healthy_def printable_def pool_look_def NewMempool_def)
  show "pool_verified C map_of demo_wallet"
    by (simp add: pool_verified_def pool_look_def mp NewMempool_def)
  have "same_chain ref_store demo_wallet ?n"
    unfolding demo_wallet_def by (rule same_chain_saves [OF ref_key_laws])
  from same_chain_reads [OF this] demo_start(2) [of 2 "[]"]
  show "chain_tip ref_store map_of demo_wallet (GetGenesisBlock 0)" by (simp add: chain_tip_def)
  have "acc_look map_of demo_wallet ''0xc'' = Some carol"
    using acc.look_save [OF store_goodD(1) [OF demo_node_facts(2)], of carol 2 "[]"] san_carol
    by (simp add: demo_wallet_def carol_def)
  then show "GetAccountFromTrie ref_store ''0xc'' demo_wallet = Ok carol"
    using account_read_reliable [OF ref_reliable, of map_of demo_wallet] h by (simp add: healthy_def)
qed

lemma demo_submit:
  obtains tx mp out where
    "CreateAndAddTransaction ref_store ref_crypto (\<lambda>_. 0) 7 ''0xc'' ''0xb'' amount demo_key demo_wallet
       = (demo_wallet\<lparr>bcMempool := Some mp\<rparr>, out, Ok tx)"
    "pool_look (demo_wallet\<lparr>bcMempool := Some mp\<rparr>) (tx_key ref_crypto tx) = Some tx"
proof -
  obtain tx where tx: "NewTransaction ref_crypto (\<lambda>_. 0) 7 ''0xc'' ''0xb'' amount demo_key = Ok tx"
    "VerifyTransactionSignature ref_crypto tx (PublicKey carol) = Ok True" using carol_signs by blast
  obtain mp where mp: "AddTransaction ref_crypto tx NewMempool = (mp, Ok ())"
    by (simp add: AddTransaction_def NewMempool_def Let_def)
  have "From tx = ''0xc''" by (rule NewTransaction_Ok(1) [OF tx(1)])
  then have "PrintMempool mp = Ok ()"
    using add_kept(2) [OF ref_crypto_laws demo_wallet_facts(1,2,5), of tx carol] demo_wallet_facts(4) tx(2) mp by simp
  with tx mp demo_wallet_facts(4,5) have "\<exists>out. CreateAndAddTransaction ref_store ref_crypto (\<lambda>_. 0) 7 ''0xc'' ''0xb''
      amount demo_key demo_wallet = (demo_wallet\<lparr>bcMempool := Some mp\<rparr>, out, Ok tx)"
    by (simp add: CreateAndAddTransaction_def Let_def)
  moreover have "pool_look (demo_wallet\<lparr>bcMempool := Some mp\<rparr>) (tx_key ref_crypto tx) = Some tx"
    using AddTransaction_lookup [of ref_crypto tx NewMempool] mp by (simp add: pool_look_def NewMempool_def)
  ultimately show thesis using that by blast
qed

lemma pending_transactions_are_signed_witness:
  "\<exists>b tx k a. node_run ref_store ref_crypto ref_rlp demo_wallet 1 b \<and> pool_look b k = Some tx
     \<and> acc_look map_of b (From tx) = Some a \<and> VerifyTransactionSignature ref_crypto tx (PublicKey a) = Ok True"
proof -
  let ?ev = "Submit (\<lambda>_. 0) 7 ''0xc'' ''0xb'' 3 demo_key"
  obtain tx mp out where c: "CreateAndAddTransaction ref_store ref_crypto (\<lambda>_. 0) 7 ''0xc'' ''0xb'' 3 demo_key demo_wallet
      = (demo_wallet\<lparr>bcMempool := Some mp\<rparr>, out, Ok tx)"
    and p: "pool_look (demo_wallet\<lparr>bcMempool := Some mp\<rparr>) (tx_key ref_crypto tx) = Some tx"
    by (rule demo_submit)
  then have "node_event ref_store ref_crypto ref_rlp ?ev demo_wallet = (demo_wallet\<lparr>bcMempool := Some mp\<rparr>, [], Ok ())"
    by (simp add: node_event_def)
  then have run: "node_run ref_store ref_crypto ref_rlp demo_wallet 1 (demo_wallet\<lparr>bcMempool := Some mp\<rparr>)"
    using run_event [OF run_start] by fastforce
  from pending_transactions_are_signed [OF ref_disk_ok ref_crypto_laws demo_test_keys demo_wallet_facts(1-3) run _ p] run p
  show ?thesis by auto
qed



end
