(* ===== verification/Network_Props.thy ===== *)
theory Network_Props
  imports Node_Runs
begin

text \<open>
  Properties of the network component: a node that is behind gets the next block from a peer,
  the last block of a peer is believed, the first report about a transaction decides, and a
  broadcast reaches nobody.
\<close>

section \<open>Catching up\<close>

lemma GetBlockFromTrie_reliable:
  assumes "reliable X stored" "blk_good X view stored bc"
  shows "GetBlockFromTrie X k bc = Ok b \<longleftrightarrow> blk_look view bc k = Some b"
proof -
  obtain t where t: "tr bc = Some t" using assms(2) by (auto simp: blk_good_def)
  then have "trie_Get X (db bc) t k = Inr (view t k)"
    using rel_get [OF assms(1), of "db bc" t k] law_get [OF store_trie [OF blk_goodD [OF assms(2)]], of "db bc" t k]
    by auto
  with t show ?thesis by (auto simp: GetBlockFromTrie_def blk_look_def split: option.splits)
qed

lemma HandleNewBlock_Ok:
  assumes "chain_inv X view stored bc" "HandleNewBlock X C net b bc = (bc', Ok ())" "Index b \<noteq> 0"
  shows "GetCurrentBlock X bc' = Ok (san_Block b)
    \<and> blk_look view bc' = (blk_look view bc)(block_key (Index b) \<mapsto> san_Block b)"
proof -
  have good: "blk_good X view stored bc" using assms(1) by (simp add: chain_inv_def)
  from assms(2) store_key [OF blk_goodD [OF good]] show ?thesis
  proof (cases rule: HandleNewBlock_cases)
    case early
    then show ?thesis using assms(3) by simp
  next
    case (saved node v bc1 u)
    have inv1: "chain_inv X view stored bc1" using assms(1) saved(6) by (simp add: chain_inv_cong)
    have s: "SaveBlockToTrie X b bc1 = (bc', Ok ())" using saved(7,8) by auto
    from SaveBlockToTrie_inv [OF _ inv1 s] inv1 same_chain_reads(3) [OF saved(6), of view]
    show ?thesis by (simp add: chain_inv_def)
  qed
qed

text \<open>
  C19. Catching up. If a node knows of a later block than its current one, its timer asks for the
  next block; a peer that has it answers with it; and if the node can accept it (it has not got
  it, its validator's key and signature can be read, its transactions can be executed), then
  afterwards it is the node's current block: the chains of the two nodes agree one block further.
\<close>

theorem behind_node_catches_up:
  assumes R: "rlp_laws R"
    and a: "reliable X stored" "chain_inv X view stored a" "GetCurrentBlock X a = Ok c" "GetLastBlock X a = Ok l"
      "Index c < Index l" "blk_look view a (block_key (Index c + 1)) = None"
    and p: "reliable Y stored'" "blk_good Y view' stored' p" "blk_look view' p (block_key (Index c + 1)) = Some b"
    and acc: "GetNodeConfigByIndex (uint (Index b mod 3) + 1) a = Ok node"
      "VerifySignature C (''0x04'' @ NodePublicKey node) (block_key (Index b)) (Signature (Header b)) = Ok v"
      "ProcessTransactionsByIDs X C net (Txns b) a = (a1, Ok ())"
  shows "\<exists>request response a'. update_tick X R a = ([request], Ok ())
    \<and> handle_message Y C' R net' request p = (p, [response], Ok ())
    \<and> handle_message X C R net response a = (a', [], Ok ())
    \<and> GetCurrentBlock X a' = Ok (b\<lparr>Txns := Some (elems (Txns b))\<rparr>)
    \<and> blk_look view a' = (blk_look view a)(block_key (Index c + 1) \<mapsto> b\<lparr>Txns := Some (elems (Txns b))\<rparr>)"
proof -
  let ?b = "b\<lparr>Txns := Some (elems (Txns b))\<rparr>"
  let ?req = "(BlockRequestMsg, EncodeRequest R \<lparr>RequestType = ''request'', BlockID = block_key (Index c + 1)\<rparr>)"
  let ?resp = "(BlockResponseMsg, EncodeBlock R b)"
  have b: "Index b = Index c + 1" "san_Block b = b"
    using blks.good_entry [OF p(2,3)] by simp_all
  have san: "san_Block ?b = ?b"
  proof (cases "Txns b")
    case None
    with b(2) show ?thesis by (cases b) (auto simp: san_Block_def)
  next
    case (Some ts)
    then have "?b = b" by simp
    with b(2) show ?thesis by metis
  qed
  have tick: "update_tick X R a = ([?req], Ok ())" using a(3-5) by (simp add: update_tick_def)
  have "GetBlockFromTrie Y (block_key (Index c + 1)) p = Ok b"
    using GetBlockFromTrie_reliable [OF p(1,2)] p(3) by blast
  then have ans: "handle_message Y C' R net' ?req p = (p, [?resp], Ok ())"
    using R by (simp add: handle_message_def rlp_laws_def answer_def)
  have nz: "Index ?b \<noteq> 0"
  proof
    assume "Index ?b = 0"
    then have "Index c = - 1" using b(1) by (simp add: eq_neg_iff_add_eq_0)
    with a(5) word_n1_ge [of "Index l"] show False by simp
  qed
  have "ProcessTransactionsByIDs X C net (Txns ?b) a = (a1, Ok ())"
    using acc(3) by (simp add: ProcessTransactionsByIDs_def)
  then have "\<exists>a'. HandleNewBlock X C net ?b a = (a', Ok ())"
    by (rule handle_accepts [OF a(1-3) _ nz, rotated -1]) (use b(1) a(6) acc(1,2) in simp_all)
  then obtain a' where h: "HandleNewBlock X C net ?b a = (a', Ok ())" by blast
  then have "handle_message X C R net ?resp a = (a', [], Ok ())"
    using R by (simp add: handle_message_def rlp_laws_def msg_codes quiet_def handleBlockResponse_def)
  moreover note HandleNewBlock_Ok [OF a(2) h nz]
  ultimately show ?thesis using tick ans san b(1) by auto
qed

text \<open>A node that has heard of block 1, and one that has it.\<close>

definition demo_behind :: "string \<Rightarrow> (ref_db, ref_trie) Blockchain" where
  "demo_behind sig = fst (SaveLastBlock ref_store (demo_block 1 sig) (demo_node 2 []))"

definition demo_ahead :: "string \<Rightarrow> (ref_db, ref_trie) Blockchain" where
  "demo_ahead sig = fst (SaveBlockToTrie ref_store (demo_block 1 sig) (demo_node 1 []))"

lemma demo_behind_facts:
  "handleLastBlockResponse ref_store (demo_block 1 sig) (demo_node 2 []) = (demo_behind sig, Ok ())"
  "chain_inv ref_store map_of ref_stored (demo_behind sig)"
  "GetCurrentBlock ref_store (demo_behind sig) = Ok (GetGenesisBlock 0)"
  "GetLastBlock ref_store (demo_behind sig) = Ok (san_Block (demo_block 1 sig))"
  "blk_look map_of (demo_behind sig) = [block_key 0 \<mapsto> GetGenesisBlock 0]"
  "GetNodeConfigByIndex 2 (demo_behind sig) = GetNodeConfigByIndex 2 (demo_node 2 [])"
proof -
  have put: "SaveLastBlock ref_store (demo_block 1 sig) (demo_node 2 []) = (demo_behind sig, Ok ())"
    by (simp add: demo_behind_def SaveLastBlock_def ref_store_def split: prod.splits)
  show h: "handleLastBlockResponse ref_store (demo_block 1 sig) (demo_node 2 []) = (demo_behind sig, Ok ())"
    using put by (simp add: handleLastBlockResponse_def demo_node_facts)
  have "kept ref_store map_of ref_stored ref_crypto (demo_node 2 []) (demo_behind sig)"
    by (rule last_block_kept [OF demo_node_good demo_start(1) h])
  then show "chain_inv ref_store map_of ref_stored (demo_behind sig)"
    by (simp add: kept_def node_good_def)
  from SaveLastBlock_Ok [OF ref_key_laws put] blk_look_cong [of "demo_behind sig" "demo_node 2 []" map_of]
  show "GetCurrentBlock ref_store (demo_behind sig) = Ok (GetGenesisBlock 0)"
    "GetLastBlock ref_store (demo_behind sig) = Ok (san_Block (demo_block 1 sig))"
    "blk_look map_of (demo_behind sig) = [block_key 0 \<mapsto> GetGenesisBlock 0]"
    by (simp_all add: demo_node_facts)
  show "GetNodeConfigByIndex 2 (demo_behind sig) = GetNodeConfigByIndex 2 (demo_node 2 [])"
    by (simp add: GetNodeConfigByIndex_def demo_behind_def frame_simps)
qed

lemma demo_ahead_facts:
  "blk_good ref_store map_of ref_stored (demo_ahead sig)"
  "blk_look map_of (demo_ahead sig) (block_key 1) = Some (san_Block (demo_block 1 sig))"
proof -
  obtain b where s: "SaveBlockToTrie ref_store (demo_block 1 sig) (demo_node 1 []) = (b, Ok ())"
    using demo_save [OF demo_node_facts(1,3), of "demo_block 1 sig"] by auto
  note inv = demo_node_facts(1) [of 1 "[]"]
  from SaveBlockToTrie_inv [OF _ inv s] inv s
  show "blk_good ref_store map_of ref_stored (demo_ahead sig)"
    "blk_look map_of (demo_ahead sig) (block_key 1) = Some (san_Block (demo_block 1 sig))"
    by (simp_all add: demo_ahead_def chain_inv_def)
qed

lemma demo_signed:
  obtains sig where "SignMerkleRoot ref_crypto (demo_sk CHR ''q'') (block_key 1) = Ok sig" "ascii sig"
proof -
  obtain sig where s: "SignMerkleRoot ref_crypto (demo_sk CHR ''q'') (block_key 1) = Ok sig"
    using demo_sign by blast
  then have "ascii sig" using law_hex_ascii [OF ref_crypto_laws law_hex [OF ref_crypto_laws]]
    by (auto simp: SignMerkleRoot_Ok)
  with s that show thesis by blast
qed

lemma behind_node_catches_up_witness:
  "\<exists>sig request response a'. update_tick ref_store ref_rlp (demo_behind sig) = ([request], Ok ())
     \<and> handle_message ref_store ref_crypto ref_rlp (\<lambda>_. P2PTimeout) request (demo_ahead sig) = (demo_ahead sig, [response], Ok ())
     \<and> handle_message ref_store ref_crypto ref_rlp (\<lambda>_. P2PTimeout) response (demo_behind sig) = (a', [], Ok ())
     \<and> GetCurrentBlock ref_store a' = Ok (demo_block 1 sig)"
proof -
  obtain sig where sig: "SignMerkleRoot ref_crypto (demo_sk CHR ''q'') (block_key 1) = Ok sig" "ascii sig"
    by (rule demo_signed)
  note a = demo_behind_facts [of sig] and p = demo_ahead_facts [of sig]
  have one: "uint ((1::uint64) mod 3) + 1 = 2" by simp
  have same: "demo_block 1 sig\<lparr>Txns := Some (elems (Txns (demo_block 1 sig)))\<rparr> = demo_block 1 sig"
    by (simp add: demo_block_def)
  have ver: "VerifySignature ref_crypto (''0x04'' @ demo_pub CHR ''q'') (block_key (Index (demo_block 1 sig)))
      (Signature (Header (demo_block 1 sig))) = Ok True"
    using demo_verify [OF sig(1), of "CHR ''q''"] by simp
  have proc: "ProcessTransactionsByIDs ref_store ref_crypto (\<lambda>_. P2PTimeout) (Txns (demo_block 1 sig)) (demo_behind sig)
      = (demo_behind sig, Ok ())" by (simp add: ProcessTransactionsByIDs_def)
  have node: "GetNodeConfigByIndex (uint (Index (demo_block 1 sig) mod 3) + 1) (demo_behind sig)
      = Ok \<lparr>NodePublicKey = demo_pub CHR ''q'', URL = [], NodeIndex = 2, ApiUrl = []\<rparr>"
    by (simp add: one a(6) demo_find_node)
  have "\<exists>request response a'. update_tick ref_store ref_rlp (demo_behind sig) = ([request], Ok ())
     \<and> handle_message ref_store ref_crypto ref_rlp (\<lambda>_. P2PTimeout) request (demo_ahead sig) = (demo_ahead sig, [response], Ok ())
     \<and> handle_message ref_store ref_crypto ref_rlp (\<lambda>_. P2PTimeout) response (demo_behind sig) = (a', [], Ok ())
     \<and> GetCurrentBlock ref_store a' = Ok (demo_block 1 sig\<lparr>Txns := Some (elems (Txns (demo_block 1 sig)))\<rparr>)
     \<and> blk_look map_of a' = (blk_look map_of (demo_behind sig))(block_key (Index (GetGenesisBlock 0) + 1) \<mapsto>
          demo_block 1 sig\<lparr>Txns := Some (elems (Txns (demo_block 1 sig)))\<rparr>)"
    by (rule behind_node_catches_up [OF ref_rlp_laws ref_reliable a(2-4) _ _ ref_reliable p(1) _ node _ proc])
      (use ver sig(2) a(5) p(2) in simp_all)
  then show ?thesis unfolding same by blast
qed

text \<open>
  C25. A last block is believed. A node stores the block of a \<open>LastBlockResponseMsg\<close> (or of a
  \<open>BlockProposalResponseMsg\<close>) as its last block if its index is larger, without a look at its
  signature or content. One message from any peer, with any index beyond the current block,
  is enough to make the node refuse to propose.
\<close>

theorem last_block_is_not_verified:
  assumes "reliable X stored" "rlp_laws R" "chain_inv X view stored bc" "GetLastBlock X bc = Ok l"
    "Index l < Index b" "code = LastBlockResponseMsg \<or> code = BlockProposalResponseMsg"
    "handle_message X C R net (code, EncodeBlock R b) bc = (bc', out, r)"
  shows "r = Ok () \<and> (\<exists>b'. GetLastBlock X bc' = Ok b' \<and> Index b' = Index b)
    \<and> GetCurrentBlock X bc' = GetCurrentBlock X bc
    \<and> ProposeNewBlock X C' now ks bc' = (bc', Err (Fail MsgMayNotPropose))"
proof -
  have keys: "key_laws X" using store_key [OF blk_goodD] assms(3) unfolding chain_inv_def by blast
  let ?b = "b\<lparr>Txns := Some (elems (Txns b))\<rparr>"
  have h: "quiet (handleLastBlockResponse X ?b bc) = (bc', out, r)"
    using assms(2,6,7) by (auto simp: handle_message_def rlp_laws_def msg_codes)
  obtain d where "db_Put X (db bc) LAST_BLOCK (marshal_Block ?b) = Inr d"
    using rel_put [OF assms(1)] db_keys_member by blast
  then have s: "SaveLastBlock X ?b bc = (bc', Ok ()) \<and> r = Ok ()"
    using h assms(4,5) by (auto simp: quiet_def handleLastBlockResponse_def SaveLastBlock_def)
  note sl = SaveLastBlock_Ok [OF keys conjunct1 [OF s]]
  from assms(3,4) obtain c where c: "GetCurrentBlock X bc = Ok c" "Index c \<le> Index l"
    by (auto simp: chain_inv_def)
  with assms(5) have "Index c < Index b" by simp
  with c sl(1,2) have "ProposeNewBlock X C' now ks bc' = (bc', Err (Fail MsgMayNotPropose))"
    by (simp add: ProposeNewBlock_def CheckProposalCondition_def)
  with s sl(1,2) show ?thesis by simp
qed

lemma last_block_is_not_verified_witness:
  "\<exists>bc'. handle_message ref_store ref_crypto ref_rlp (\<lambda>_. P2PTimeout)
       (LastBlockResponseMsg, EncodeBlock ref_rlp (demo_block 7 ''junk'')) (demo_node 2 []) = (bc', [], Ok ())
     \<and> ProposeNewBlock ref_store ref_crypto 5 [] bc' = (bc', Err (Fail MsgMayNotPropose))"
proof -
  obtain bc' out r where h: "handle_message ref_store ref_crypto ref_rlp (\<lambda>_. P2PTimeout)
       (LastBlockResponseMsg, EncodeBlock ref_rlp (demo_block 7 ''junk'')) (demo_node 2 []) = (bc', out, r)"
    by (metis surj_pair)
  have "out = []" using h by (auto simp: handle_message_def msg_codes ref_rlp_def quiet_def)
  with last_block_is_not_verified [OF ref_reliable ref_rlp_laws demo_node_facts(1,4) _ _ h, where C' = ref_crypto] h
  show ?thesis by simp
qed

section \<open>Asking and telling the peers\<close>

text \<open>
  C24. The first report decides. \<open>RequestTransaction\<close> returns what the first goroutine reports:
  if that is an error, the request fails, though a later peer may have the transaction. For a
  block that lists a transaction this node has not got, that is a nil dereference in the loop
  over the IDs: one peer that cannot be reached ends the node.
\<close>

theorem first_report_decides:
  assumes "txID \<noteq> []" "order = before @ peer # after"
    "\<forall>q \<in> set before. \<forall>w. fmlookup (peerRWs p) q = Some w \<longrightarrow> peer_report R (w, net q) = None"
    "fmlookup (peerRWs p) peer = Some rw" "peer_report R (rw, net peer) = Some (Inl e)"
    "bcMempool bc \<noteq> None" "bcP2P bc" "pool_look bc txID = None" "hex_Decode C txID = Inr k"
    "IsTransactionExist X (Some k) bc = Ok False" "\<forall>t. GetTransactionFromTrie X (Some k) bc \<noteq> Ok t"
  shows "RequestTransaction R order net txID p = Inl e
    \<and> ProcessTransactionsByIDs X C (\<lambda>_. request_outcome (RequestTransaction R order net txID p))
         (Some (txID # txIDs)) bc = (bc, Panic)"
proof -
  let ?f = "\<lambda>q. Option.bind (fmlookup (peerRWs p) q) (\<lambda>w. peer_report R (w, net q))"
  have "List.map_filter ?f before = []"
    using assms(3) by (auto simp: List.map_filter_def filter_empty_conv split: Option.bind_splits)
  then have "List.map_filter ?f order = Inl e # List.map_filter ?f after"
    using assms(2,4,5) by (simp add: List.map_filter_def)
  moreover have "peerRWs p \<noteq> fmempty" using assms(4) by auto
  ultimately have r: "RequestTransaction R order net txID p = Inl e"
    using assms(1) by (simp add: RequestTransaction_def GetAllPeerRWs_def)
  have "request_outcome (RequestTransaction R order net txID p) = P2PError e"
    by (simp add: r request_outcome_def)
  from network_error_panics [OF assms(10,9,8,6,7,11), of "\<lambda>_. request_outcome (RequestTransaction R order net txID p)", OF this] r
  show ?thesis by simp
qed

text \<open>The first of two peers reports an error; the second one has the transaction.\<close>

lemma first_report_decides_witness:
  "ProcessTransactionsByIDs ref_store ref_crypto
     (\<lambda>_. request_outcome (RequestTransaction ref_rlp [''p'', ''q'']
        (\<lambda>q. if q = ''p'' then (SendTimeout, ReadTimeout)
             else (SendOk, ReadMsg TransactionResponseMsg (EncodeTransaction ref_rlp (demo_tx ''0xa'' ''0xb'' 1))))
        ''0x78'' (setPeerRW ''q'' (Some ()) (setPeerRW ''p'' (Some ())
          \<lparr>netConfig = \<lparr>NetPrivateKeyHex = [], NetNodes = [], MaxPeers = 10, NetName = [], ListenAddr = []\<rparr>,
           netKey = (), txChannels = fmempty, peerRWs = fmempty\<rparr>))))
     (Some [''0x78'']) (demo_empty\<lparr>bcP2P := True\<rparr>) = (demo_empty\<lparr>bcP2P := True\<rparr>, Panic)"
  by (rule conjunct2 [OF first_report_decides [where before = "[]" and after = "[''q'']" and peer = "''p''"
        and k = "''x''" and e = "Fail MsgP2PTimeout" and rw = "Some ()"]])
    (simp_all add: IsTransactionExist_def GetTransactionFromTrie_def demo_empty_def ref_store_def
      pool_look_def NewMempool_def setPeerRW_def peer_report_def)

text \<open>What can happen to the registry after it has been made.\<close>

inductive net_run :: "('sk, 'rw) P2PNetwork \<Rightarrow> ('sk, 'rw) P2PNetwork \<Rightarrow> bool" for p where
  net_start: "net_run p p"
| net_connect: "net_run p q \<Longrightarrow> net_run p (setPeerRW peerID rw q)"
| net_disconnect: "net_run p q \<Longrightarrow> net_run p (removePeerRW peerID q)"
| net_maintain: "net_run p q \<Longrightarrow> net_run p (fst (maintain_round active (nodes :: string list) q))"
| net_broadcast: "net_run p q \<Longrightarrow> net_run p (fst (BroadcastTransaction tx q))"

text \<open>
  C27. A broadcast reaches nobody. Whatever connections come, go and are cleaned up: the channels
  that \<open>BroadcastTransaction\<close> sends to are never created, so each call returns the error that
  no peer is connected, and hands the transaction to no one.
\<close>

theorem broadcast_reaches_nobody:
  assumes "NewP2PNetwork C config = Ok p" "net_run p q"
  shows "BroadcastTransaction tx q = (q, Err (Fail MsgNoPeers))"
proof -
  from assms(1) have "txChannels p = fmempty" by (auto simp: NewP2PNetwork_def split: sum.splits)
  with assms(2) have "txChannels q = fmempty"
    by (induction rule: net_run.induct)
      (simp_all add: setPeerRW_def removePeerRW_def maintain_round_def cleanInvalidPeerRWs_def BroadcastTransaction_def)
  then show ?thesis by (simp add: BroadcastTransaction_def)
qed

lemma broadcast_reaches_nobody_witness:
  "\<exists>p :: (bytes, unit) P2PNetwork.
     BroadcastTransaction (demo_tx ''0xa'' ''0xb'' 1) (setPeerRW ''p'' (Some ()) p)
       = (setPeerRW ''p'' (Some ()) p, Err (Fail MsgNoPeers))"
proof -
  let ?c = "\<lparr>NetPrivateKeyHex = demo_key, NetNodes = [], MaxPeers = 10, NetName = [], ListenAddr = []\<rparr>"
  obtain p :: "(bytes, unit) P2PNetwork" where "NewP2PNetwork ref_crypto ?c = Ok p"
    by (simp add: NewP2PNetwork_def ref_crypto_def ref_key_def demo_key_def)
  from broadcast_reaches_nobody [OF this net_connect [OF net_start]] show ?thesis by blast
qed

end
