(* ===== verification/Api.thy ===== *)
theory Api
  imports Node_Runs
begin

text \<open>
  The HTTP interface, server.go: the routes and the five handlers, each with its status codes and
  the JSON it writes, over the operations of the blockchain. A \<open>float64\<close> field of a request is
  the literal's value rounded to a double, as \<open>strconv.ParseFloat\<close> does.
\<close>

section \<open>Reading a request\<close>

text \<open>The exact value of a number literal.\<close>

definition digits_val :: "string \<Rightarrow> nat" where
  "digits_val s = (case dec_val 0 s of None \<Rightarrow> 0 | Some n \<Rightarrow> n)"

definition pow10 :: "int \<Rightarrow> rat" where
  "pow10 e = (if 0 \<le> e then 10 ^ nat e else 1 / 10 ^ nat (- e))"

definition exp_val :: "string \<Rightarrow> int" where
  "exp_val s =
     (case s of
        [] \<Rightarrow> 0
      | _ # r \<Rightarrow>
          (case r of
             CHR ''-'' # d \<Rightarrow> - int (digits_val d)
           | CHR ''+'' # d \<Rightarrow> int (digits_val d)
           | _ \<Rightarrow> int (digits_val r)))"

definition lit_val :: "string \<Rightarrow> rat" where
  "lit_val l =
     (let neg = (l \<noteq> [] \<and> hd l = CHR ''-'');
          u = (if neg then tl l else l);
          i = takeWhile is_digit u;
          r = dropWhile is_digit u;
          f = (if r \<noteq> [] \<and> hd r = CHR ''.'' then takeWhile is_digit (tl r) else []);
          x = (if r \<noteq> [] \<and> hd r = CHR ''.'' then dropWhile is_digit (tl r) else r);
          v = of_nat (digits_val (i @ f)) * pow10 (exp_val x - int (length f))
      in if neg then - v else v)"

text \<open>
  Rounding to the nearest double, ties to even, for \<open>0 < q\<close>: with 53 bits of precision where
  the exponent allows, and no double beyond the range.
\<close>

definition pow2 :: "int \<Rightarrow> rat" where
  "pow2 e = (if 0 \<le> e then 2 ^ nat e else 1 / 2 ^ nat (- e))"

fun bits :: "nat \<Rightarrow> nat" where
  "bits n = (if n = 0 then 0 else Suc (bits (n div 2)))"

declare bits.simps [simp del]

text \<open>The exponent of the leading bit of a positive fraction.\<close>

definition lead :: "rat \<Rightarrow> int" where
  "lead q =
     (case quotient_of q of (n, d) \<Rightarrow>
        let k = int (bits (nat n)) - int (bits (nat d)) in
        if pow2 k \<le> q then k else k - 1)"

definition half_even :: "rat \<Rightarrow> int" where
  "half_even x =
     (let n = \<lfloor>x\<rfloor>; r = x - of_int n in
      if r < 1 / 2 \<or> r = 1 / 2 \<and> even n then n else n + 1)"

definition round_f64 :: "rat \<Rightarrow> rat option" where
  "round_f64 q =
     (if q = 0 then Some 0
      else
        let a = \<bar>q\<bar>;
            m = max (lead a - 52) (- 1074);
            v = of_int (half_even (a / pow2 m)) * pow2 m
        in if pow2 1024 \<le> v then None else Some (if q < 0 then - v else v))"

fun dec_f64 :: "json \<Rightarrow> rat \<Rightarrow> rat option" where
  "dec_f64 JNull old = Some old"
| "dec_f64 (JNum l) old = round_f64 (lit_val l)"
| "dec_f64 _ old = None"

record TxRequest =
  reqFrom :: string
  reqTo :: string
  reqAmount :: rat
  reqPrivateKeyHex :: string

definition request_fields :: "string list" where
  "request_fields = [''from'', ''to'', ''amount'', ''privateKeyHex'']"

definition request_field :: "string \<Rightarrow> json \<Rightarrow> TxRequest \<Rightarrow> TxRequest option" where
  "request_field n v q =
     (if n = ''from'' then map_option (\<lambda>x. q\<lparr>reqFrom := x\<rparr>) (dec_string v (reqFrom q))
      else if n = ''to'' then map_option (\<lambda>x. q\<lparr>reqTo := x\<rparr>) (dec_string v (reqTo q))
      else if n = ''amount'' then map_option (\<lambda>x. q\<lparr>reqAmount := x\<rparr>) (dec_f64 v (reqAmount q))
      else map_option (\<lambda>x. q\<lparr>reqPrivateKeyHex := x\<rparr>) (dec_string v (reqPrivateKeyHex q)))"

text \<open>A decoder reads the first value of the body; what follows is left.\<close>

definition decode_request :: "bytes \<Rightarrow> TxRequest option" where
  "decode_request body =
     Option.bind (p_value (Suc (length body)) body)
       (\<lambda>(v, _). dec_struct request_fields request_field v
          \<lparr>reqFrom = [], reqTo = [], reqAmount = 0, reqPrivateKeyHex = []\<rparr>)"

section \<open>Handlers\<close>

text \<open>
  \<open>http.Error\<close> with a status and the error it prints, a JSON reply, or a connection that is
  cut because the handler panicked (the server recovers from it).
\<close>

datatype reply = HttpError nat "error option" | HttpJson nat json | HttpRedirect string | Aborted

definition success_json :: "(string \<times> json) list \<Rightarrow> json" where
  "success_json members = JObj [(''success'', JBool True), (''data'', JObj members)]"

definition account_json :: "Account \<Rightarrow> json" where
  "account_json a = success_json
     [(''address'', JStr (Address a)), (''balance'', enc_uint64 (Balance a)),
      (''publicKey'', JStr (PublicKey a)), (''nonce'', enc_uint64 (Nonce a))]"

definition transaction_json :: "('sk, 'pk) crypto_ext \<Rightarrow> Transaction \<Rightarrow> json" where
  "transaction_json C t = success_json
     [(''id'', JStr (hex_Encode C (elems (ID t)))), (''from'', JStr (From t)), (''to'', JStr (To t)),
      (''amount'', enc_uint64 (Amount t)), (''timestamp'', enc_uint64 (Timestamp t))]"

definition block_json :: "Block \<Rightarrow> json" where
  "block_json b = success_json
     [(''index'', enc_uint64 (Index b)), (''version'', enc_uint64 (Version (Header b))),
      (''merkleRoot'', JStr (MerkleRoot (Header b))), (''time'', enc_uint64 (Time (Header b))),
      (''signature'', JStr (Signature (Header b))), (''transactions'', enc_strings (Txns b))]"

text \<open>The reply to the creation of a transaction; the keys of a Go map are written in order.\<close>

definition created_json :: "('sk, 'pk) crypto_ext \<Rightarrow> Transaction \<Rightarrow> json" where
  "created_json C t = JObj
     [(''success'', JBool True),
      (''transaction'', JObj
         [(''amount'', enc_uint64 (Amount t)), (''from'', JStr (From t)),
          (''id'', JStr (hex_Encode C (elems (ID t)))), (''timestamp'', enc_uint64 (Timestamp t)),
          (''to'', JStr (To t))])]"

definition handleGetAccount ::
    "('db, 'tr, 'nd, 'tdb) store_ext \<Rightarrow> string \<Rightarrow> string \<Rightarrow> ('db, 'tr) Blockchain \<Rightarrow> reply" where
  "handleGetAccount X meth path bc =
     (if meth \<noteq> ''GET'' then HttpError 405 None
      else let address = drop (length ''/api/account/'') path in
      if address = [] then HttpError 400 None
      else case GetAccountFromTrie X address bc of
        Err e \<Rightarrow> HttpError 404 (Some e)
      | Panic \<Rightarrow> Aborted
      | Ok account \<Rightarrow> HttpJson 200 (account_json account))"

definition handleTransaction ::
    "('db, 'tr, 'nd, 'tdb) store_ext \<Rightarrow> ('sk, 'pk) crypto_ext \<Rightarrow> (rat \<Rightarrow> uint64) \<Rightarrow> uint64
      \<Rightarrow> string \<Rightarrow> bytes \<Rightarrow> ('db, 'tr) Blockchain
      \<Rightarrow> ('db, 'tr) Blockchain \<times> Transaction list \<times> reply" where
  "handleTransaction X C oob now meth body bc =
     (if meth \<noteq> ''POST'' then (bc, [], HttpError 405 None)
      else case decode_request body of
        None \<Rightarrow> (bc, [], HttpError 400 (Some JsonError))
      | Some req \<Rightarrow>
          if reqFrom req = [] \<or> reqTo req = [] \<or> reqAmount req \<le> 0 \<or> reqPrivateKeyHex req = []
          then (bc, [], HttpError 400 None)
          else case CreateAndAddTransaction X C oob now (reqFrom req) (reqTo req) (reqAmount req)
                 (reqPrivateKeyHex req) bc of
            (bc', sent, Err e) \<Rightarrow> (bc', sent, HttpError 500 (Some e))
          | (bc', sent, Panic) \<Rightarrow> (bc', sent, Aborted)
          | (bc', sent, Ok tx) \<Rightarrow> (bc', sent, HttpJson 201 (created_json C tx)))"

definition handleGetTransaction ::
    "('db, 'tr, 'nd, 'tdb) store_ext \<Rightarrow> ('sk, 'pk) crypto_ext \<Rightarrow> string \<Rightarrow> string
      \<Rightarrow> ('db, 'tr) Blockchain \<Rightarrow> reply" where
  "handleGetTransaction X C meth path bc =
     (if meth \<noteq> ''GET'' then HttpError 405 None
      else let txID = drop (length ''/api/transaction/'') path in
      if txID = [] then HttpError 400 None
      else case GetTransactionByIDFromNode X C txID bc of
        Err e \<Rightarrow> HttpError 404 (Some e)
      | Panic \<Rightarrow> Aborted
      | Ok tx \<Rightarrow> HttpJson 200 (transaction_json C tx))"

definition handleGetLastBlock ::
    "('db, 'tr, 'nd, 'tdb) store_ext \<Rightarrow> string \<Rightarrow> ('db, 'tr) Blockchain \<Rightarrow> reply" where
  "handleGetLastBlock X meth bc =
     (if meth \<noteq> ''GET'' then HttpError 405 None
      else case GetLastBlock X bc of
        Err e \<Rightarrow> HttpError 500 (Some e)
      | Panic \<Rightarrow> Aborted
      | Ok block \<Rightarrow> HttpJson 200 (block_json block))"

definition handleGetCurrentBlock ::
    "('db, 'tr, 'nd, 'tdb) store_ext \<Rightarrow> string \<Rightarrow> ('db, 'tr) Blockchain \<Rightarrow> reply" where
  "handleGetCurrentBlock X meth bc =
     (if meth \<noteq> ''GET'' then HttpError 405 None
      else case GetCurrentBlock X bc of
        Err e \<Rightarrow> HttpError 500 (Some e)
      | Panic \<Rightarrow> Aborted
      | Ok block \<Rightarrow> HttpJson 200 (block_json block))"

text \<open>
  The routes that \<open>Start\<close> registers, for a path that needs no cleaning: a pattern that ends in a
  slash matches its prefix (and its path without the slash is redirected), the others match exactly.
\<close>

definition starts_with :: "string \<Rightarrow> string \<Rightarrow> bool" where
  "starts_with p s \<longleftrightarrow> take (length p) s = p"

definition serve ::
    "('db, 'tr, 'nd, 'tdb) store_ext \<Rightarrow> ('sk, 'pk) crypto_ext \<Rightarrow> (rat \<Rightarrow> uint64) \<Rightarrow> uint64
      \<Rightarrow> string \<Rightarrow> string \<Rightarrow> bytes \<Rightarrow> ('db, 'tr) Blockchain
      \<Rightarrow> ('db, 'tr) Blockchain \<times> Transaction list \<times> reply" where
  "serve X C oob now meth path body bc =
     (if starts_with ''/api/account/'' path then (bc, [], handleGetAccount X meth path bc)
      else if path = ''/api/transaction'' then handleTransaction X C oob now meth body bc
      else if starts_with ''/api/transaction/'' path then (bc, [], handleGetTransaction X C meth path bc)
      else if path = ''/api/block/last'' then (bc, [], handleGetLastBlock X meth bc)
      else if path = ''/api/block/current'' then (bc, [], handleGetCurrentBlock X meth bc)
      else if path = ''/api/account'' then (bc, [], HttpRedirect ''/api/account/'')
      else (bc, [], HttpError 404 None))"

section \<open>What is served\<close>

lemma starts_with_append [simp]: "starts_with p (p @ s)"
  by (simp add: starts_with_def)

lemma routes [simp]:
  "serve X C oob now meth (''/api/account/'' @ address) body bc
     = (bc, [], handleGetAccount X meth (''/api/account/'' @ address) bc)"
  "serve X C oob now meth (''/api/transaction/'' @ txID) body bc
     = (bc, [], handleGetTransaction X C meth (''/api/transaction/'' @ txID) bc)"
  "serve X C oob now meth ''/api/transaction'' body bc = handleTransaction X C oob now meth body bc"
  "serve X C oob now meth ''/api/block/last'' body bc = (bc, [], handleGetLastBlock X meth bc)"
  "serve X C oob now meth ''/api/block/current'' body bc = (bc, [], handleGetCurrentBlock X meth bc)"
  by (simp_all add: serve_def starts_with_def)

text \<open>A transaction by its ID: the pending one, else the recorded one.\<close>

definition find_tx ::
    "('sk, 'pk) crypto_ext \<Rightarrow> ('tr \<Rightarrow> bytes \<Rightarrow> bytes option) \<Rightarrow> ('db, 'tr) Blockchain \<Rightarrow> string
      \<Rightarrow> Transaction option" where
  "find_tx C view bc txID =
     (case pool_look bc txID of
        Some tx \<Rightarrow> Some tx
      | None \<Rightarrow> (case hex_Decode C txID of Inl _ \<Rightarrow> None | Inr k \<Rightarrow> tx_look view bc k))"

text \<open>A read that finds what a map says, as an equation.\<close>

lemma read_eq:
  assumes "\<And>v. r = Ok v \<longleftrightarrow> m = Some v" "r \<noteq> Panic"
  shows "\<exists>e. r = (case m of Some v \<Rightarrow> Ok v | None \<Rightarrow> Err e)"
proof (cases r)
  case (Ok v)
  then have "m = Some v" using assms(1) by blast
  with Ok show ?thesis by simp
next
  case (Err e)
  then have "m = None" using assms(1) by (cases m) auto
  with Err show ?thesis by auto
qed (use assms(2) in simp)

lemma GetTransactionFromTrie_reliable:
  assumes "reliable X stored" "tx_good X view stored bc"
  shows "GetTransactionFromTrie X (Some k) bc = Ok tx \<longleftrightarrow> tx_look view bc k = Some tx"
proof -
  obtain t where t: "txTrie bc = Some t" using assms(2) by (auto simp: tx_good_def)
  have "store_laws X view stored" using assms(2) by (simp add: tx_good_def)
  then have "trie_Get X (db bc) t k = Inr (view t k)"
    using rel_get [OF assms(1), of "db bc" t k] law_get [OF store_trie, of X view stored "db bc" t k] by auto
  with t show ?thesis by (auto simp: GetTransactionFromTrie_def tx_look_def split: option.splits)
qed

lemma FromNode_reliable:
  assumes "reliable X stored" "node_good X view stored bc"
  shows "GetTransactionByIDFromNode X C txID bc = Ok tx \<longleftrightarrow> find_tx C view bc txID = Some tx"
proof -
  note ng = node_goodD [OF assms(2)]
  obtain mp where mp: "bcMempool bc = Some mp" using ng(4) by auto
  have "\<exists>e. GetTransactionFromTrie X (Some k) bc = (case tx_look view bc k of Some t \<Rightarrow> Ok t | None \<Rightarrow> Err e)" for k
    by (rule read_eq [OF GetTransactionFromTrie_reliable [OF assms(1) store_goodD(2) [OF ng(2)]]]) simp
  then obtain f where "GetTransactionFromTrie X (Some k) bc
      = (case tx_look view bc k of Some t \<Rightarrow> Ok t | None \<Rightarrow> Err (f k))" for k by metis
  with mp show ?thesis
    by (simp add: GetTransactionByIDFromNode_def find_tx_def pool_look_def GetTransaction_def
        split: option.split sum.split)
qed

text \<open>
  C22. What the interface shows is the ledger. On a healthy node (where no storage call fails) a
  \<open>GET\<close> of an account answers 200 with the account's fields, or 404 if there is none; of a
  transaction, 200 with the pending or else the recorded transaction of that ID, or 404; of the
  last and the current block, 200 with that block. None of them changes anything.
\<close>

theorem api_shows_the_ledger:
  assumes "reliable X stored" "node_good X view stored bc" "address \<noteq> []" "txID \<noteq> []"
  shows "(case acc_look view bc address of
        Some a \<Rightarrow> serve X C oob now ''GET'' (''/api/account/'' @ address) body bc
                   = (bc, [], HttpJson 200 (account_json a))
      | None \<Rightarrow> (\<exists>e. serve X C oob now ''GET'' (''/api/account/'' @ address) body bc
                   = (bc, [], HttpError 404 (Some e))))
    \<and> (case find_tx C view bc txID of
        Some tx \<Rightarrow> serve X C oob now ''GET'' (''/api/transaction/'' @ txID) body bc
                   = (bc, [], HttpJson 200 (transaction_json C tx))
      | None \<Rightarrow> (\<exists>e. serve X C oob now ''GET'' (''/api/transaction/'' @ txID) body bc
                   = (bc, [], HttpError 404 (Some e))))
    \<and> (\<exists>l c. GetLastBlock X bc = Ok l \<and> GetCurrentBlock X bc = Ok c
        \<and> serve X C oob now ''GET'' ''/api/block/last'' body bc = (bc, [], HttpJson 200 (block_json l))
        \<and> serve X C oob now ''GET'' ''/api/block/current'' body bc = (bc, [], HttpJson 200 (block_json c)))"
proof (intro conjI)
  note ng = node_goodD [OF assms(2)]
  obtain e where e: "GetAccountFromTrie X address bc
      = (case acc_look view bc address of Some v \<Rightarrow> Ok v | None \<Rightarrow> Err e)"
    using read_eq [OF account_read_reliable [OF assms(1) ng(2)] account_no_panic [OF ng(2)]] by blast
  show "case acc_look view bc address of
        Some a \<Rightarrow> serve X C oob now ''GET'' (''/api/account/'' @ address) body bc
                   = (bc, [], HttpJson 200 (account_json a))
      | None \<Rightarrow> (\<exists>e. serve X C oob now ''GET'' (''/api/account/'' @ address) body bc
                   = (bc, [], HttpError 404 (Some e)))"
    unfolding routes handleGetAccount_def using assms(3) by (simp add: e split: option.split)
  obtain e' where e': "GetTransactionByIDFromNode X C txID bc
      = (case find_tx C view bc txID of Some v \<Rightarrow> Ok v | None \<Rightarrow> Err e')"
    using read_eq [OF FromNode_reliable [OF assms(1,2)] FromNode_no_panic [OF ng(4)]] by blast
  show "case find_tx C view bc txID of
        Some tx \<Rightarrow> serve X C oob now ''GET'' (''/api/transaction/'' @ txID) body bc
                   = (bc, [], HttpJson 200 (transaction_json C tx))
      | None \<Rightarrow> (\<exists>e. serve X C oob now ''GET'' (''/api/transaction/'' @ txID) body bc
                   = (bc, [], HttpError 404 (Some e)))"
    unfolding routes handleGetTransaction_def using assms(4) by (simp add: e' split: option.split)
  from ng(1) obtain c l where "GetCurrentBlock X bc = Ok c" "GetLastBlock X bc = Ok l"
    by (auto simp: chain_inv_def)
  then show "\<exists>l c. GetLastBlock X bc = Ok l \<and> GetCurrentBlock X bc = Ok c
        \<and> serve X C oob now ''GET'' ''/api/block/last'' body bc = (bc, [], HttpJson 200 (block_json l))
        \<and> serve X C oob now ''GET'' ''/api/block/current'' body bc = (bc, [], HttpJson 200 (block_json c))"
    unfolding routes by (simp add: handleGetLastBlock_def handleGetCurrentBlock_def)
qed

lemma handleTransaction_cases:
  assumes "handleTransaction X C oob now meth body bc = (bc', sent, reply)"
  obtains (refused) e s where "bc' = bc" "sent = []" "reply = HttpError s e" "s \<in> {400, 405}"
  | (called) req r where "meth = ''POST''" "decode_request body = Some req" "0 < reqAmount req"
      "CreateAndAddTransaction X C oob now (reqFrom req) (reqTo req) (reqAmount req) (reqPrivateKeyHex req) bc
         = (bc', sent, r)"
      "reply = (case r of Ok tx \<Rightarrow> HttpJson 201 (created_json C tx) | Err e \<Rightarrow> HttpError 500 (Some e) | Panic \<Rightarrow> Aborted)"
proof (cases "meth = ''POST'' \<and> (\<exists>req. decode_request body = Some req
    \<and> \<not> (reqFrom req = [] \<or> reqTo req = [] \<or> reqAmount req \<le> 0 \<or> reqPrivateKeyHex req = []))")
  case True
  then obtain req where q: "meth = ''POST''" "decode_request body = Some req"
    "\<not> (reqFrom req = [] \<or> reqTo req = [] \<or> reqAmount req \<le> 0 \<or> reqPrivateKeyHex req = [])" by blast
  obtain b s r where c: "CreateAndAddTransaction X C oob now (reqFrom req) (reqTo req) (reqAmount req)
      (reqPrivateKeyHex req) bc = (b, s, r)" by (metis surj_pair)
  from assms q c called [OF q(1,2), of r] show thesis
    by (cases r) (simp_all add: handleTransaction_def)
next
  case False
  with assms refused show thesis
    by (auto simp: handleTransaction_def split: if_splits option.splits)
qed

text \<open>
  C23. Submitting a transaction. On a healthy node a request for \<open>/api/transaction\<close> is answered
  201, 400, 405 or 500 and never aborted, and the node stays healthy with only signed transactions
  pending. With 201 the reply shows a transaction that is pending from then on, with the
  sender and receiver of the request and its amount without the fraction (so a request for less
  than one unit becomes a transaction of nothing); otherwise nothing has changed.
\<close>

theorem api_submits_transaction:
  assumes "crypto_laws C" "node_good X view stored bc" "pool_verified C view bc"
    "serve X C oob now meth ''/api/transaction'' body bc = (bc', sent, reply)"
  shows "node_good X view stored bc' \<and> pool_verified C view bc'
    \<and> ((\<exists>s e. s \<in> {400, 405, 500} \<and> reply = HttpError s e) \<and> bc' = bc \<and> sent = []
      \<or> (\<exists>req tx. decode_request body = Some req \<and> 0 < reqAmount req
          \<and> reply = HttpJson 201 (created_json C tx) \<and> pool_look bc' (tx_key C tx) = Some tx
          \<and> From tx = reqFrom req \<and> To tx = reqTo req \<and> Amount tx = f64_to_uint64 oob (reqAmount req)))"
proof -
  have h: "handleTransaction X C oob now meth body bc = (bc', sent, reply)" using assms(4) by simp
  then show ?thesis
  proof (cases rule: handleTransaction_cases)
    case (refused e s)
    with assms(2,3) show ?thesis by auto
  next
    case (called req r)
    note ng = node_goodD [OF assms(2)]
    obtain mp where mp: "bcMempool bc = Some mp" using ng(4) by auto
    note eff = create_effect [OF assms(1) store_goodD(4) [OF ng(2)] mp ng(5) called(4)]
    have kept: "node_good X view stored bc' \<and> pool_verified C view bc'"
      using submit_kept(1) [OF assms(1-3) called(4)] by (simp add: kept_def)
    show ?thesis
    proof (cases r)
      case (Ok tx)
      with eff have "pool_look bc' (tx_key C tx) = Some tx"
        by (simp add: pool_look_def AddTransaction_lookup mp)
      with kept eff Ok called(2,3,5) show ?thesis by auto
    next
      case (Err e)
      with kept eff called(5) show ?thesis by auto
    qed (use eff in simp)
  qed
qed

text \<open>A request for half a unit.\<close>

definition demo_request_json :: json where
  "demo_request_json = JObj
     [(''from'', JStr ''0xc''), (''to'', JStr ''0xb''), (''amount'', JNum ''0.5''), (''privateKeyHex'', JStr demo_key)]"

lemma demo_half: "round_f64 (lit_val ''0.5'') = Some (1 / 2)"
  by code_simp

lemma demo_request_read:
  "decode_request (jprint demo_request_json)
     = Some \<lparr>reqFrom = ''0xc'', reqTo = ''0xb'', reqAmount = 1 / 2, reqPrivateKeyHex = demo_key\<rparr>"
proof -
  have ok: "json_ok demo_request_json"
    by (simp add: demo_request_json_def num_ok_def frac_ok_def exp_ok_def num_char_def is_digit_def)
  have "p_value (Suc (length (jprint demo_request_json))) (jprint demo_request_json) = Some (jsan demo_request_json, [])"
    using parse_print_value [OF ok, of "Suc (length (jprint demo_request_json))" "[]"]
    by (simp add: boundary_def del: p_value.simps)
  then show ?thesis
    by (simp add: decode_request_def demo_request_json_def request_fields_def request_field_def demo_half
        to_valid_ascii del: p_value.simps jprint.simps)
qed

lemma api_submits_transaction_witness:
  "\<exists>bc' sent tx. serve ref_store ref_crypto (\<lambda>_. 0) 7 ''POST'' ''/api/transaction'' (jprint demo_request_json) demo_wallet
       = (bc', sent, HttpJson 201 (created_json ref_crypto tx)) \<and> pool_look bc' (tx_key ref_crypto tx) = Some tx \<and> Amount tx = 0"
proof -
  obtain tx mp out where c: "CreateAndAddTransaction ref_store ref_crypto (\<lambda>_. 0) 7 ''0xc'' ''0xb'' (1 / 2) demo_key demo_wallet
      = (demo_wallet\<lparr>bcMempool := Some mp\<rparr>, out, Ok tx)" by (rule demo_submit)
  have "demo_key \<noteq> []" by (simp add: demo_key_def)
  with c have s: "serve ref_store ref_crypto (\<lambda>_. 0) 7 ''POST'' ''/api/transaction'' (jprint demo_request_json) demo_wallet
      = (demo_wallet\<lparr>bcMempool := Some mp\<rparr>, out, HttpJson 201 (created_json ref_crypto tx))"
    by (simp add: handleTransaction_def demo_request_read)
  have "\<lfloor>1 / 2 :: rat\<rfloor> = 0" by (rule floor_unique) simp_all
  then have half: "f64_to_uint64 (\<lambda>_. 0) (1 / 2) = 0" by (simp add: f64_to_uint64_def)
  from api_submits_transaction [OF ref_crypto_laws demo_wallet_facts(1,2) s] obtain tx' where
    "created_json ref_crypto tx = created_json ref_crypto tx'"
    "pool_look (demo_wallet\<lparr>bcMempool := Some mp\<rparr>) (tx_key ref_crypto tx') = Some tx'" "Amount tx' = 0"
    by (auto simp: demo_request_read half)
  with s show ?thesis by metis
qed

lemma api_shows_the_ledger_witness:
  "\<exists>e. serve ref_store ref_crypto (\<lambda>_. 0) 7 ''GET'' (''/api/account/'' @ ''0xb'') [] (demo_node 2 [])
       = (demo_node 2 [], [], HttpJson 200 (account_json bob))
     \<and> serve ref_store ref_crypto (\<lambda>_. 0) 7 ''GET'' (''/api/transaction/'' @ ''0x78'') [] (demo_node 2 [])
       = (demo_node 2 [], [], HttpError 404 (Some e))"
proof -
  have "find_tx ref_crypto map_of (demo_node 2 []) ''0x78'' = None"
    by (simp add: find_tx_def pool_look_def demo_node_facts NewMempool_def)
  with api_shows_the_ledger [OF ref_reliable demo_node_good, of "''0xb''" "''0x78''" ref_crypto "\<lambda>_. 0" 7 "[]" 2 "[]"]
  show ?thesis by (simp add: demo_node_facts del: append.simps)
qed

end
