(* ===== verification/Node_Main.thy ===== *)
theory Node_Main
  imports Network_Props Api
begin

text \<open>
  The program itself: \<open>main\<close> of cmd/node/node.go and \<open>Start\<close> of the network. A start either
  ends the process with a message, or leaves the node running with its network set. The theorem
  composes it with \<open>Init\<close> and the invariant of a run.
\<close>

section \<open>Starting the network\<close>




section \<open>main\<close>






section \<open>What a start leaves\<close>


lemma node_good_p2p [simp]:
  "node_good X view stored (bc\<lparr>bcP2P := p\<rparr>) = node_good X view stored bc"
proof -
  have c: "same_content view (bc\<lparr>bcP2P := p\<rparr>) bc" by (simp add: same_content_def)
  show ?thesis
    by (simp add: node_good_def same_content_good [OF c] printable_def pool_look_def)
qed




end
