(* ===== verification/Bls_Demos.thy ===== *)
theory Bls_Demos
  imports External
begin

text \<open>
  The programs under bls-demo: a ring signature, a threshold signature, a multi-signature, a
  single signature and the recovery of a key. They share no code with the node. Their libraries
  are parameters: \<open>bls_ext\<close> stands for dela's package \<open>bls\<close> and the digest of kyber's
  pairing suite, \<open>tbls_ext\<close> for kyber's packages \<open>share\<close> and \<open>tbls\<close>. What a program draws
  at random (a key of \<open>bls.NewSigner\<close>, a secret, an index) is an argument.
\<close>

section \<open>The libraries\<close>

text \<open>
  A Go value of the interface \<open>crypto.Signature\<close> holds a \<open>bls.Signature\<close> or something
  else (nothing, or a signature of another scheme), where the type assertion of the code panics.
\<close>

datatype 'sig crypto_Signature = BlsSignature 'sig | OtherSignature

record ('sk, 'pk, 'sig, 'ver) bls_ext =
  bls_Sign :: "'sk \<Rightarrow> bytes \<Rightarrow> error + 'sig"
  GetPublicKey :: "'sk \<Rightarrow> 'pk"
  bls_Verify :: "'pk \<Rightarrow> bytes \<Rightarrow> 'sig \<Rightarrow> error option"
  NewSignature :: "bytes \<Rightarrow> 'sig"
  MarshalSignature :: "'sig \<Rightarrow> error + bytes"
  MarshalSigner :: "'sk \<Rightarrow> error + bytes"
  MarshalPublicKey :: "'pk \<Rightarrow> error + bytes"
  NewSignerFromBytes :: "bytes \<Rightarrow> error + 'sk"
  Aggregate :: "'sk \<Rightarrow> 'sig list \<Rightarrow> error + 'sig"
  FromArray :: "'sk \<Rightarrow> 'pk list \<Rightarrow> error + 'ver"
  verifier_Verify :: "'ver \<Rightarrow> bytes \<Rightarrow> 'sig \<Rightarrow> error option"
  suite_Hash :: "bytes \<Rightarrow> bytes"

text \<open>
  \<open>NewPriPoly\<close> takes the threshold, the secret and the randomness; it and \<open>Shares\<close>
  have no error to return and panic on sizes they cannot allocate (\<open>None\<close>).
  \<open>group_key\<close> is the composition of \<open>PubPoly.Commit\<close> and
  \<open>bls.NewPublicKeyFromPoint\<close>.
\<close>

record ('sc, 'rnd, 'poly, 'share, 'pub, 'pk) tbls_ext =
  NewPriPoly :: "int \<Rightarrow> 'sc \<Rightarrow> 'rnd \<Rightarrow> 'poly option"
  poly_Commit :: "'poly \<Rightarrow> 'pub"
  poly_Shares :: "'poly \<Rightarrow> int \<Rightarrow> 'share list option"
  tbls_Sign :: "'share \<Rightarrow> bytes \<Rightarrow> error + bytes"
  tbls_Recover :: "'pub \<Rightarrow> bytes \<Rightarrow> bytes list \<Rightarrow> int \<Rightarrow> int \<Rightarrow> error + bytes"
  group_key :: "'pub \<Rightarrow> 'pk"

section \<open>Ring signatures\<close>

record 'pk RingSignature =
  rs_C :: bytes
  rs_S :: "bytes list"
  rs_Message :: bytes
  rs_Ring :: "'pk list"

text \<open>
  The loop over the members other than the signer; \<open>temp i\<close> is the key drawn in the
  iteration \<open>i\<close>. A nil response and an empty one are the same to the code: it only hashes
  them and makes signatures of them.
\<close>

fun random_responses ::
  "('sk, 'pk, 'sig, 'ver) bls_ext \<Rightarrow> (nat \<Rightarrow> 'sk) \<Rightarrow> int \<Rightarrow> bytes \<Rightarrow> nat list \<Rightarrow> bytes list
    \<Rightarrow> bytes list outcome" where
  "random_responses B temp signerIndex message [] responses = Ok responses"
| "random_responses B temp signerIndex message (i # is) responses =
     (if int i \<noteq> signerIndex then
        (case bls_Sign B (temp i) message of
           Inl e \<Rightarrow> Err (Wrap MsgRandomSign e)
         | Inr sig \<Rightarrow>
             (case MarshalSignature B sig of
                Inl e \<Rightarrow> Err (Wrap MsgBlsSign e)
              | Inr b \<Rightarrow> random_responses B temp signerIndex message is (responses[i := b])))
      else random_responses B temp signerIndex message is responses)"

definition ring_challenge :: "('sk, 'pk, 'sig, 'ver) bls_ext \<Rightarrow> bytes list \<Rightarrow> bytes" where
  "ring_challenge B responses = suite_Hash B (concat responses)"

text \<open>
  The assignment to \<open>responses[signerIndex]\<close> comes before the test of the error, so an
  index outside the ring panics in either case.
\<close>

definition createRingSignature ::
  "('sk, 'pk, 'sig, 'ver) bls_ext \<Rightarrow> (nat \<Rightarrow> 'sk) \<Rightarrow> 'sk \<Rightarrow> 'pk list \<Rightarrow> int \<Rightarrow> bytes
    \<Rightarrow> 'pk RingSignature outcome" where
  "createRingSignature B temp signer ring signerIndex message =
     (case random_responses B temp signerIndex message [0..<length ring]
             (replicate (length ring) []) of
        Err e \<Rightarrow> Err e
      | Panic \<Rightarrow> Panic
      | Ok responses \<Rightarrow>
          (case bls_Sign B signer message of
             Inl e \<Rightarrow> Err (Wrap MsgBlsSign e)
           | Inr sig \<Rightarrow>
               if signerIndex < 0 \<or> int (length responses) \<le> signerIndex then Panic
               else (case MarshalSignature B sig of
                 Inl e \<Rightarrow> Err (Wrap MsgBlsSign e)
               | Inr b \<Rightarrow>
                   let responses' = responses[nat signerIndex := b] in
                   Ok \<lparr>rs_C = ring_challenge B responses', rs_S = responses',
                       rs_Message = message, rs_Ring = ring\<rparr>)))"

text \<open>The first loop of the verification, over the members and their responses.\<close>

fun any_response_valid ::
  "('sk, 'pk, 'sig, 'ver) bls_ext \<Rightarrow> bytes \<Rightarrow> ('pk \<times> bytes) list \<Rightarrow> bool" where
  "any_response_valid B message [] = False"
| "any_response_valid B message ((pk, b) # rest) =
     (if bls_Verify B pk message (NewSignature B b) = None then True
      else any_response_valid B message rest)"

definition verifyRingSignature ::
  "('sk, 'pk, 'sig, 'ver) bls_ext \<Rightarrow> 'pk list \<Rightarrow> bytes \<Rightarrow> 'pk RingSignature option
    \<Rightarrow> bool outcome" where
  "verifyRingSignature B ring message signature =
     (case signature of
        None \<Rightarrow> Panic
      | Some s \<Rightarrow>
          if length (rs_S s) \<noteq> length ring then Ok False
          else if \<not> any_response_valid B message (zip ring (rs_S s)) then Ok False
          else Ok (rs_C s = ring_challenge B (rs_S s)))"

text \<open>
  The program: five keys, a random index (or the error of the random source), the signature, its
  verification. An error ends the program early; \<open>Ok b\<close> is the verdict it prints.
\<close>

definition ring_message :: bytes where
  "ring_message = map char_of
     [196, 144, 195, 162, 121, 32, 108, 195, 160, 32, 109, 225, 187, 153, 116, 32, 118, 195, 173,
      32, 100, 225, 187, 165, 32, 118, 225, 187, 129, 32, 99, 104, 225, 187, 175, 32, 107, 195,
      189, 32, 118, 195, 178, 110, 103 :: nat]"

definition ring_main ::
  "('sk, 'pk, 'sig, 'ver) bls_ext \<Rightarrow> (nat \<Rightarrow> 'sk) \<Rightarrow> error + nat \<Rightarrow> (nat \<Rightarrow> 'sk) \<Rightarrow> bool outcome"
  where
  "ring_main B signers n temp =
     (let ring = map (\<lambda>i. GetPublicKey B (signers i)) [0..<5] in
      case n of
        Inl e \<Rightarrow> Err (Wrap MsgRandomIndex e)
      | Inr actualSignerIndex \<Rightarrow>
          if 5 \<le> actualSignerIndex then Panic
          else (case createRingSignature B temp (signers actualSignerIndex) ring
                   (int actualSignerIndex) ring_message of
            Err e \<Rightarrow> Err e
          | Panic \<Rightarrow> Panic
          | Ok ringSignature \<Rightarrow> verifyRingSignature B ring ring_message (Some ringSignature)))"

section \<open>Threshold signatures\<close>

text \<open>The pairing suite of a signer is the same constant everywhere and left out.\<close>

record ('share, 'pub) ThresholdSigner =
  ts_private :: 'share
  ts_public :: 'pub
  ts_threshold :: int
  ts_total :: int

text \<open>A negative number of signers makes \<open>make\<close> panic, a share that is missing the indexing.\<close>

definition NewThresholdScheme ::
  "('sc, 'rnd, 'poly, 'share, 'pub, 'pk) tbls_ext \<Rightarrow> 'sc \<Rightarrow> 'rnd \<Rightarrow> int \<Rightarrow> int
    \<Rightarrow> ('share, 'pub) ThresholdSigner list outcome" where
  "NewThresholdScheme T secret rnd t n =
     (if n < t then Err (Fail MsgBadThreshold)
      else case NewPriPoly T t secret rnd of
        None \<Rightarrow> Panic
      | Some priPoly \<Rightarrow>
          let pubPoly = poly_Commit T priPoly in
          (case poly_Shares T priPoly n of
             None \<Rightarrow> Panic
           | Some shares \<Rightarrow>
               if n < 0 \<or> int (length shares) < n then Panic
               else Ok (map (\<lambda>i. \<lparr>ts_private = shares ! i, ts_public = pubPoly,
                                  ts_threshold = t, ts_total = n\<rparr>) [0..<nat n])))"

definition ts_Sign ::
  "('sk, 'pk, 'sig, 'ver) bls_ext \<Rightarrow> ('sc, 'rnd, 'poly, 'share, 'pub, 'pk) tbls_ext
    \<Rightarrow> ('share, 'pub) ThresholdSigner \<Rightarrow> bytes \<Rightarrow> 'sig crypto_Signature outcome" where
  "ts_Sign B T ts msg =
     (case tbls_Sign T (ts_private ts) msg of
        Inl e \<Rightarrow> Err (Wrap MsgBlsSign e)
      | Inr sig \<Rightarrow> Ok (BlsSignature (NewSignature B sig)))"

text \<open>The loop of \<open>RecoverSignature\<close> that turns the signatures into byte strings.\<close>

fun signature_bytes ::
  "('sk, 'pk, 'sig, 'ver) bls_ext \<Rightarrow> 'sig crypto_Signature list \<Rightarrow> bytes list outcome" where
  "signature_bytes B [] = Ok []"
| "signature_bytes B (OtherSignature # sigs) = Panic"
| "signature_bytes B (BlsSignature sig # sigs) =
     (case MarshalSignature B sig of
        Inl e \<Rightarrow> Err (Wrap MsgConvertSignature e)
      | Inr b \<Rightarrow>
          (case signature_bytes B sigs of
             Ok bs \<Rightarrow> Ok (b # bs)
           | Err e \<Rightarrow> Err e
           | Panic \<Rightarrow> Panic))"

definition RecoverSignature ::
  "('sk, 'pk, 'sig, 'ver) bls_ext \<Rightarrow> ('sc, 'rnd, 'poly, 'share, 'pub, 'pk) tbls_ext
    \<Rightarrow> bytes \<Rightarrow> 'sig crypto_Signature list \<Rightarrow> int \<Rightarrow> int \<Rightarrow> 'pub
    \<Rightarrow> 'sig crypto_Signature outcome" where
  "RecoverSignature B T msg sigs t n pubPoly =
     (if int (length sigs) < t then Err (Fail (MsgTooFewSignatures (length sigs) t))
      else case signature_bytes B sigs of
        Err e \<Rightarrow> Err e
      | Panic \<Rightarrow> Panic
      | Ok sigBytes \<Rightarrow>
          (case tbls_Recover T pubPoly msg sigBytes t n of
             Inl e \<Rightarrow> Err (Wrap MsgRecoverShares e)
           | Inr recovered \<Rightarrow> Ok (BlsSignature (NewSignature B recovered))))"

text \<open>
  The program with the threshold \<open>t\<close> and the total \<open>n\<close>: its loop collects the
  signatures of the first \<open>t\<close> signers, and every error is a panic. \<open>v\<close> is the key drawn for the
  verifier factory. A verifier is a \<open>bls\<close> one, which refuses a signature of another scheme.
\<close>

fun collect_signatures ::
  "('sk, 'pk, 'sig, 'ver) bls_ext \<Rightarrow> ('sc, 'rnd, 'poly, 'share, 'pub, 'pk) tbls_ext
    \<Rightarrow> ('share, 'pub) ThresholdSigner list \<Rightarrow> bytes \<Rightarrow> nat list
    \<Rightarrow> 'sig crypto_Signature list outcome" where
  "collect_signatures B T signers message [] = Ok []"
| "collect_signatures B T signers message (i # is) =
     (if length signers \<le> i then Panic
      else case ts_Sign B T (signers ! i) message of
        Ok sig \<Rightarrow>
          (case collect_signatures B T signers message is of
             Ok sigs \<Rightarrow> Ok (sig # sigs)
           | Err e \<Rightarrow> Panic
           | Panic \<Rightarrow> Panic)
      | Err e \<Rightarrow> Panic
      | Panic \<Rightarrow> Panic)"

definition verifies_by ::
  "('sk, 'pk, 'sig, 'ver) bls_ext \<Rightarrow> 'sk \<Rightarrow> 'pk list \<Rightarrow> bytes \<Rightarrow> 'sig \<Rightarrow> bool outcome" where
  "verifies_by B factory publicKeys message sig =
     (case FromArray B factory publicKeys of
        Inl e \<Rightarrow> Panic
      | Inr v \<Rightarrow> Ok (verifier_Verify B v message sig = None))"

definition threshold_run ::
  "('sk, 'pk, 'sig, 'ver) bls_ext \<Rightarrow> ('sc, 'rnd, 'poly, 'share, 'pub, 'pk) tbls_ext
    \<Rightarrow> 'sc \<Rightarrow> 'rnd \<Rightarrow> 'sk \<Rightarrow> int \<Rightarrow> int \<Rightarrow> bytes \<Rightarrow> bool outcome" where
  "threshold_run B T secret rnd v t n message =
     (case NewThresholdScheme T secret rnd t n of
        Ok signers \<Rightarrow>
          if t < 0 then Panic
          else (case collect_signatures B T signers message [0..<nat t] of
             Ok signatures \<Rightarrow>
               if signers = [] then Panic
               else (case RecoverSignature B T message signatures t n (ts_public (signers ! 0)) of
                 Ok (BlsSignature recovered) \<Rightarrow>
                   verifies_by B v [group_key T (ts_public (signers ! 0))] message recovered
               | Ok OtherSignature \<Rightarrow> Ok False
               | Err e \<Rightarrow> Panic
               | Panic \<Rightarrow> Panic)
           | Err e \<Rightarrow> Panic
           | Panic \<Rightarrow> Panic)
      | Err e \<Rightarrow> Panic
      | Panic \<Rightarrow> Panic)"

definition threshold_main ::
  "('sk, 'pk, 'sig, 'ver) bls_ext \<Rightarrow> ('sc, 'rnd, 'poly, 'share, 'pub, 'pk) tbls_ext
    \<Rightarrow> 'sc \<Rightarrow> 'rnd \<Rightarrow> 'sk \<Rightarrow> bool outcome" where
  "threshold_main B T secret rnd v =
     threshold_run B T secret rnd v 2 3 ''Test threshold signature''"

section \<open>Multi-signatures\<close>

definition multi_message :: bytes where
  "multi_message = map char_of
     [196, 144, 195, 162, 121, 32, 108, 195, 160, 32, 116, 104, 195, 180, 110, 103, 32, 196, 145,
      105, 225, 187, 135, 112, 32, 113, 117, 97, 110, 32, 116, 114, 225, 187, 141, 110, 103, 32,
      99, 225, 186, 167, 110, 32, 196, 145, 198, 176, 225, 187, 163, 99, 32, 107, 195, 189, 32,
      98, 225, 187, 159, 105, 32, 110, 104, 105, 225, 187, 129, 117, 32, 110, 103, 198, 176, 225,
      187, 157, 105 :: nat]"

text \<open>
  Three signers sign; the first one and then the fourth, who has not signed, aggregate the three
  signatures and verify the result. The two verdicts printed, or the panic of an error.
\<close>

definition aggregate_and_verify ::
  "('sk, 'pk, 'sig, 'ver) bls_ext \<Rightarrow> 'sk \<Rightarrow> 'pk list \<Rightarrow> bytes \<Rightarrow> 'sig list \<Rightarrow> bool outcome"
  where
  "aggregate_and_verify B signer publicKeys message sigs =
     (case Aggregate B signer sigs of
        Inl e \<Rightarrow> Panic
      | Inr aggregatedSig \<Rightarrow> verifies_by B signer publicKeys message aggregatedSig)"

definition multi_main ::
  "('sk, 'pk, 'sig, 'ver) bls_ext \<Rightarrow> 'sk \<Rightarrow> 'sk \<Rightarrow> 'sk \<Rightarrow> 'sk \<Rightarrow> (bool \<times> bool) outcome" where
  "multi_main B signer1 signer2 signer3 signer4 =
     (let publicKeys = map (GetPublicKey B) [signer1, signer2, signer3] in
      case (bls_Sign B signer1 multi_message, bls_Sign B signer2 multi_message,
            bls_Sign B signer3 multi_message) of
        (Inr sig1, Inr sig2, Inr sig3) \<Rightarrow>
          (case aggregate_and_verify B signer1 publicKeys multi_message [sig1, sig2, sig3] of
             Ok valid \<Rightarrow>
               (case aggregate_and_verify B signer4 publicKeys multi_message [sig1, sig2, sig3] of
                  Ok validOther \<Rightarrow> Ok (valid, validOther)
                | _ \<Rightarrow> Panic)
           | _ \<Rightarrow> Panic)
      | _ \<Rightarrow> Panic)"

section \<open>A single signature and the recovery of a key\<close>

text \<open>
  Go's \<open>encoding/hex\<close>: lower-case digits without a prefix, also written by the verb
  \<open>%x\<close>; reading accepts both cases and refuses other bytes and an odd length.
\<close>

definition EncodeToString :: "bytes \<Rightarrow> string" where
  "EncodeToString b = hex_digits b"

definition DecodeString :: "string \<Rightarrow> error + bytes" where
  "DecodeString s =
     (case hex_undigits s of None \<Rightarrow> Inl (External ''encoding/hex'') | Some b \<Rightarrow> Inr b)"

text \<open>What the program prints before its verdict: the private and the public key.\<close>

definition single_main ::
  "('sk, 'pk, 'sig, 'ver) bls_ext \<Rightarrow> 'sk \<Rightarrow> (string \<times> string) outcome" where
  "single_main B signer =
     (case MarshalSigner B signer of
        Inl e \<Rightarrow> Panic
      | Inr privateKeyBytes \<Rightarrow>
          (case bls_Sign B signer ''Hello BLS Signature'' of
             Inl e \<Rightarrow> Panic
           | Inr signature \<Rightarrow>
               let publicKey = GetPublicKey B signer in
               (case MarshalPublicKey B publicKey of
                  Inl e \<Rightarrow> Panic
                | Inr publicKeyBytes \<Rightarrow>
                    (case bls_Verify B publicKey ''Hello BLS Signature'' signature of
                       Some e \<Rightarrow> Panic
                     | None \<Rightarrow>
                         Ok (EncodeToString privateKeyBytes, EncodeToString publicKeyBytes)))))"

definition recover_run :: "('sk, 'pk, 'sig, 'ver) bls_ext \<Rightarrow> string \<Rightarrow> string outcome" where
  "recover_run B privateKeyHex =
     (case DecodeString privateKeyHex of
        Inl e \<Rightarrow> Panic
      | Inr privateKeyBytes \<Rightarrow>
          (case NewSignerFromBytes B privateKeyBytes of
             Inl e \<Rightarrow> Panic
           | Inr signer \<Rightarrow>
               (case MarshalPublicKey B (GetPublicKey B signer) of
                  Inl e \<Rightarrow> Panic
                | Inr publicKeyBytes \<Rightarrow> Ok (EncodeToString publicKeyBytes))))"

definition recover_main :: "('sk, 'pk, 'sig, 'ver) bls_ext \<Rightarrow> string outcome" where
  "recover_main B =
     recover_run B ''7ba018e438a0343d86e50ada05578624e6db846581e79ee82af41323e28712f4''"

end
