(* ===== verification/Bls_Props.thy ===== *)
theory Bls_Props
  imports Bls_Demos
begin

text \<open>
  The laws of the signature libraries, an instance of them, and what the programs of bls-demo do
  under these laws: what they sign is accepted, and a ring signature shows who signed it.
\<close>

section \<open>Laws of the libraries\<close>

text \<open>
  A signature verifies under the key of its signer; the bytes of a signature are the signature;
  the bytes of a signer give the signer back; an aggregate of signatures verifies under the keys
  of the signers, whoever aggregates it and whoever makes the verifier; a verifier of one key
  accepts what the key accepts.
\<close>

definition bls_laws :: "('sk, 'pk, 'sig, 'ver) bls_ext \<Rightarrow> bool" where
  "bls_laws B \<longleftrightarrow>
     (\<forall>sk m s. bls_Sign B sk m = Inr s \<longrightarrow> bls_Verify B (GetPublicKey B sk) m s = None)
   \<and> (\<forall>s b. MarshalSignature B s = Inr b \<longrightarrow> NewSignature B b = s)
   \<and> (\<forall>b. MarshalSignature B (NewSignature B b) = Inr b)
   \<and> (\<forall>sk b. MarshalSigner B sk = Inr b \<longrightarrow> NewSignerFromBytes B b = Inr sk)
   \<and> (\<forall>sks m sigs f s g v.
        sks \<noteq> [] \<longrightarrow> list_all2 (\<lambda>sk s. bls_Sign B sk m = Inr s) sks sigs \<longrightarrow>
        Aggregate B f sigs = Inr s \<longrightarrow> FromArray B g (map (GetPublicKey B) sks) = Inr v \<longrightarrow>
        verifier_Verify B v m s = None)
   \<and> (\<forall>g pk v m s. FromArray B g [pk] = Inr v \<longrightarrow> bls_Verify B pk m s = None \<longrightarrow>
        verifier_Verify B v m s = None)"

text \<open>
  A signature verifies under no other key (the pairing is not degenerate), and no operation
  fails.
\<close>

definition bls_binding :: "('sk, 'pk, 'sig, 'ver) bls_ext \<Rightarrow> bool" where
  "bls_binding B \<longleftrightarrow>
     (\<forall>sk pk m s. bls_Sign B sk m = Inr s \<longrightarrow> bls_Verify B pk m s = None \<longrightarrow>
        pk = GetPublicKey B sk)"

definition bls_reliable :: "('sk, 'pk, 'sig, 'ver) bls_ext \<Rightarrow> bool" where
  "bls_reliable B \<longleftrightarrow>
     (\<forall>sk m. \<exists>s. bls_Sign B sk m = Inr s) \<and> (\<forall>s. \<exists>b. MarshalSignature B s = Inr b)
   \<and> (\<forall>sk. \<exists>b. MarshalSigner B sk = Inr b) \<and> (\<forall>pk. \<exists>b. MarshalPublicKey B pk = Inr b)
   \<and> (\<forall>f sigs. \<exists>s. Aggregate B f sigs = Inr s) \<and> (\<forall>f pks. \<exists>v. FromArray B f pks = Inr v)"

text \<open>
  Threshold signing. \<open>valid pub m i b\<close>: the bytes \<open>b\<close> are the signature of \<open>m\<close> by
  the share \<open>i\<close>. A polynomial of a positive threshold has as many shares as are asked for,
  up to the range of their 16-bit index; every share signs validly; from valid signatures of
  enough different shares, a signature of the group is recovered.
\<close>

definition tbls_laws ::
  "('sk, 'pk, 'sig, 'ver) bls_ext \<Rightarrow> ('sc, 'rnd, 'poly, 'share, 'pub, 'pk) tbls_ext
    \<Rightarrow> ('pub \<Rightarrow> bytes \<Rightarrow> nat \<Rightarrow> bytes \<Rightarrow> bool) \<Rightarrow> bool" where
  "tbls_laws B T valid \<longleftrightarrow>
     (\<forall>t secret rnd. 0 < t \<longrightarrow> NewPriPoly T t secret rnd \<noteq> None)
   \<and> (\<forall>t secret rnd p n. NewPriPoly T t secret rnd = Some p \<longrightarrow> 0 \<le> n \<longrightarrow> n \<le> 65536 \<longrightarrow>
        (\<exists>shares. poly_Shares T p n = Some shares \<and> length shares = nat n))
   \<and> (\<forall>p n shares i m. poly_Shares T p n = Some shares \<longrightarrow> i < length shares \<longrightarrow>
        (\<exists>b. tbls_Sign T (shares ! i) m = Inr b \<and> valid (poly_Commit T p) m i b))
   \<and> (\<forall>t secret rnd p n I m bs.
        NewPriPoly T t secret rnd = Some p \<longrightarrow> n \<le> 65536 \<longrightarrow> distinct I \<longrightarrow>
        (\<forall>i\<in>set I. int i < n) \<longrightarrow> t \<le> int (length I) \<longrightarrow>
        list_all2 (valid (poly_Commit T p) m) I bs \<longrightarrow>
        (\<exists>r. tbls_Recover T (poly_Commit T p) m bs t n = Inr r
           \<and> bls_Verify B (group_key T (poly_Commit T p)) m (NewSignature B r) = None))"

section \<open>An instance of the laws\<close>

text \<open>
  Keys are byte strings and their own public keys; a signature is the key followed by the message,
  an aggregate the concatenation, a share its number and the key of the group.
\<close>

definition ref_bls :: "(bytes, bytes, bytes, bytes list) bls_ext" where
  "ref_bls = \<lparr>
     bls_Sign = (\<lambda>k m. Inr (k @ m)),
     GetPublicKey = (\<lambda>k. k),
     bls_Verify = (\<lambda>k m s. if s = k @ m then None else Some (External ''bls'')),
     NewSignature = (\<lambda>b. b),
     MarshalSignature = Inr,
     MarshalSigner = Inr,
     MarshalPublicKey = Inr,
     NewSignerFromBytes = Inr,
     Aggregate = (\<lambda>_ sigs. Inr (concat sigs)),
     FromArray = (\<lambda>_ pks. Inr pks),
     verifier_Verify = (\<lambda>pks m s.
       if s = concat (map (\<lambda>k. k @ m) pks) then None else Some (External ''bls'')),
     suite_Hash = (\<lambda>b. b)\<rparr>"

lemma ref_signatures: "list_all2 (\<lambda>k s. k @ m = s) sks sigs \<Longrightarrow> sigs = map (\<lambda>k. k @ m) sks"
  by (induction rule: list_all2_induct) simp_all

lemma ref_bls_laws: "bls_laws ref_bls"
  by (auto simp: bls_laws_def ref_bls_def dest: ref_signatures)

lemma ref_bls_binding: "bls_binding ref_bls"
  by (auto simp: bls_binding_def ref_bls_def split: if_splits)

lemma ref_bls_reliable: "bls_reliable ref_bls"
  by (simp add: bls_reliable_def ref_bls_def)

definition ref_share :: "bytes \<Rightarrow> bytes \<Rightarrow> nat \<Rightarrow> bytes" where
  "ref_share k m i = replicate i CHR ''1'' @ CHR ''0'' # k @ m"

definition ref_share_ok :: "bytes \<Rightarrow> bytes \<Rightarrow> bytes \<Rightarrow> bool" where
  "ref_share_ok k m b \<longleftrightarrow> dropWhile (\<lambda>c. c = CHR ''1'') b = CHR ''0'' # k @ m"

definition ref_tbls :: "(bytes, unit, bytes, nat \<times> bytes, bytes, bytes) tbls_ext" where
  "ref_tbls = \<lparr>
     NewPriPoly = (\<lambda>t k _. if t \<le> 0 then None else Some k),
     poly_Commit = (\<lambda>k. k),
     poly_Shares = (\<lambda>k n. if n < 0 then None else Some (map (\<lambda>i. (i, k)) [0..<nat n])),
     tbls_Sign = (\<lambda>(i, k) m. Inr (ref_share k m i)),
     tbls_Recover = (\<lambda>k m bs t n.
       if int (length (remdups (filter (ref_share_ok k m) bs))) < t then Inl (External ''tbls'')
       else Inr (k @ m)),
     group_key = (\<lambda>k. k)\<rparr>"

definition ref_valid :: "bytes \<Rightarrow> bytes \<Rightarrow> nat \<Rightarrow> bytes \<Rightarrow> bool" where
  "ref_valid k m i b \<longleftrightarrow> b = ref_share k m i"

lemma ref_share_ok_share [simp]: "ref_share_ok k m (ref_share k m i)"
  by (simp add: ref_share_ok_def ref_share_def dropWhile_append)

lemma ref_share_inject [simp]: "ref_share k m i = ref_share k m j \<longleftrightarrow> i = j"
proof
  assume "ref_share k m i = ref_share k m j"
  then have "length (ref_share k m i) = length (ref_share k m j)" by simp
  then show "i = j" by (simp add: ref_share_def)
qed simp

lemma ref_shares: "list_all2 (ref_valid k m) I bs \<Longrightarrow> bs = map (ref_share k m) I"
  by (induction rule: list_all2_induct) (simp_all add: ref_valid_def)

lemma ref_share_count:
  assumes "distinct I"
  shows "length (remdups (map (ref_share k m) I)) = length I"
proof -
  have "distinct (map (ref_share k m) I)" using assms by (simp add: distinct_map inj_on_def)
  then show ?thesis by (simp add: distinct_remdups_id)
qed

lemma ref_tbls_laws: "tbls_laws ref_bls ref_tbls ref_valid"
  unfolding tbls_laws_def
proof (intro conjI allI impI)
  fix t n :: int and secret p m and rnd :: unit and I bs
  assume "NewPriPoly ref_tbls t secret rnd = Some p" "distinct I" "t \<le> int (length I)"
    and "list_all2 (ref_valid (poly_Commit ref_tbls p) m) I bs"
  then show "\<exists>r. tbls_Recover ref_tbls (poly_Commit ref_tbls p) m bs t n = Inr r
      \<and> bls_Verify ref_bls (group_key ref_tbls (poly_Commit ref_tbls p)) m (NewSignature ref_bls r)
        = None"
    by (auto simp: ref_tbls_def ref_bls_def ref_share_count dest!: ref_shares)
qed (auto simp: ref_tbls_def ref_valid_def split: if_splits)

section \<open>Using the laws\<close>

lemma bls_verifies:
  assumes "bls_laws B" "bls_Sign B sk m = Inr s"
  shows "bls_Verify B (GetPublicKey B sk) m s = None"
  by (rule assms(1) [unfolded bls_laws_def, THEN conjunct1, rule_format, OF assms(2)])

lemma bls_unmarshal:
  assumes "bls_laws B" "MarshalSignature B s = Inr b"
  shows "NewSignature B b = s"
  by (rule assms(1) [unfolded bls_laws_def, THEN conjunct2, THEN conjunct1, rule_format,
        OF assms(2)])

lemma bls_remarshal: "bls_laws B \<Longrightarrow> MarshalSignature B (NewSignature B b) = Inr b"
  by (simp add: bls_laws_def)

lemma bls_signer_bytes:
  assumes "bls_laws B" "MarshalSigner B sk = Inr b"
  shows "NewSignerFromBytes B b = Inr sk"
  using assms by (simp add: bls_laws_def)

lemma bls_aggregate:
  assumes "bls_laws B" "sks \<noteq> []" "list_all2 (\<lambda>sk s. bls_Sign B sk m = Inr s) sks sigs"
    and "Aggregate B f sigs = Inr s" "FromArray B g (map (GetPublicKey B) sks) = Inr v"
  shows "verifier_Verify B v m s = None"
  by (rule assms(1) [unfolded bls_laws_def, THEN conjunct2, THEN conjunct2, THEN conjunct2,
        THEN conjunct2, THEN conjunct1, rule_format, OF assms(2-5)])

lemma bls_one_key:
  assumes "bls_laws B" "FromArray B g [pk] = Inr v" "bls_Verify B pk m s = None"
  shows "verifier_Verify B v m s = None"
  by (rule assms(1) [unfolded bls_laws_def, THEN conjunct2, THEN conjunct2, THEN conjunct2,
        THEN conjunct2, THEN conjunct2, rule_format, OF assms(2,3)])

lemma bls_reliableE:
  assumes "bls_reliable B"
  obtains s where "bls_Sign B sk m = Inr s"
  using assms unfolding bls_reliable_def by meson

lemma bls_marshals:
  assumes "bls_reliable B"
  obtains b where "MarshalSignature B s = Inr b"
  using assms unfolding bls_reliable_def by meson

text \<open>The signature of a key on a message, as bytes.\<close>

definition signed_bytes :: "('sk, 'pk, 'sig, 'ver) bls_ext \<Rightarrow> 'sk \<Rightarrow> bytes \<Rightarrow> bytes \<Rightarrow> bool" where
  "signed_bytes B sk m b \<longleftrightarrow> (\<exists>s. bls_Sign B sk m = Inr s \<and> MarshalSignature B s = Inr b)"

lemma signed_bytes_verify:
  assumes "bls_laws B" "bls_binding B" "signed_bytes B sk m b"
  shows "bls_Verify B pk m (NewSignature B b) = None \<longleftrightarrow> pk = GetPublicKey B sk"
proof -
  from assms(3) obtain s where s: "bls_Sign B sk m = Inr s" "MarshalSignature B s = Inr b"
    by (auto simp: signed_bytes_def)
  have b: "NewSignature B b = s" by (rule bls_unmarshal [OF assms(1) s(2)])
  show ?thesis
  proof
    assume "bls_Verify B pk m (NewSignature B b) = None"
    then show "pk = GetPublicKey B sk"
      using assms(2) s(1) unfolding b bls_binding_def by blast
  next
    assume "pk = GetPublicKey B sk"
    then show "bls_Verify B pk m (NewSignature B b) = None"
      using bls_verifies [OF assms(1) s(1)] by (simp add: b)
  qed
qed

section \<open>Ring signatures\<close>

text \<open>The loop fills every place but the signer's with a signature of the key drawn for it.\<close>

lemma random_responses_fill:
  assumes "bls_reliable B" "distinct is" "\<forall>i\<in>set is. i < length rs"
  shows "\<exists>rs'. random_responses B temp k m is rs = Ok rs' \<and> length rs' = length rs
    \<and> (\<forall>i<length rs. if i \<in> set is \<and> int i \<noteq> k then signed_bytes B (temp i) m (rs' ! i)
         else rs' ! i = rs ! i)"
  using assms(2,3)
proof (induction "is" arbitrary: rs)
  case (Cons i is')
  obtain s where s: "bls_Sign B (temp i) m = Inr s" by (rule bls_reliableE [OF assms(1)])
  obtain b where b: "MarshalSignature B s = Inr b" by (rule bls_marshals [OF assms(1)])
  show ?case
  proof (cases "int i = k")
    case True
    with Cons.IH [of rs] Cons.prems show ?thesis by fastforce
  next
    case False
    have "distinct is'" "\<forall>j\<in>set is'. j < length (rs[i := b])" using Cons.prems by auto
    from Cons.IH [OF this] obtain rs' where r: "random_responses B temp k m is' (rs[i := b]) = Ok rs'"
        "length rs' = length rs"
      and f: "\<forall>j<length rs. if j \<in> set is' \<and> int j \<noteq> k then signed_bytes B (temp j) m (rs' ! j)
         else rs' ! j = rs[i := b] ! j"
      by auto
    have "rs' ! i = b" "signed_bytes B (temp i) m b"
      using f Cons.prems s b by (auto simp: signed_bytes_def)
    then have "\<forall>j<length rs. if j \<in> set (i # is') \<and> int j \<noteq> k then signed_bytes B (temp j) m (rs' ! j)
         else rs' ! j = rs ! j"
      using f Cons.prems False by (auto simp: nth_list_update)
    with r s b False show ?thesis by simp
  qed
qed simp

lemma any_response_valid_iff:
  assumes "length bs = length pks"
  shows "any_response_valid B m (zip pks bs)
    \<longleftrightarrow> (\<exists>i<length pks. bls_Verify B (pks ! i) m (NewSignature B (bs ! i)) = None)"
  using assms
proof (induction pks bs rule: list_induct2')
  case (4 x xs y ys)
  then show ?case by (auto simp: less_Suc_eq_0_disj)
qed simp_all

text \<open>
  A ring signature of a member is created without an error, and its responses are the member's
  signature at the member's place and signatures of the keys drawn at the others.
\<close>

lemma create_ring_signature:
  assumes "bls_reliable B" "0 \<le> k" "k < int (length ring)"
  obtains rs where "createRingSignature B temp signer ring k m = Ok rs"
    and "length (rs_S rs) = length ring" "rs_C rs = ring_challenge B (rs_S rs)"
    and "signed_bytes B signer m (rs_S rs ! nat k)"
    and "\<And>i. i < length ring \<Longrightarrow> i \<noteq> nat k \<Longrightarrow> signed_bytes B (temp i) m (rs_S rs ! i)"
proof -
  let ?rs0 = "replicate (length ring) [] :: bytes list"
  obtain rs' where r: "random_responses B temp k m [0..<length ring] ?rs0 = Ok rs'"
      "length rs' = length ring"
    and f: "\<forall>i<length ring. if i \<in> set [0..<length ring] \<and> int i \<noteq> k
       then signed_bytes B (temp i) m (rs' ! i) else rs' ! i = ?rs0 ! i"
    using random_responses_fill [of B "[0..<length ring]" ?rs0 temp k m] assms(1) by auto
  obtain s where s: "bls_Sign B signer m = Inr s" by (rule bls_reliableE [OF assms(1)])
  obtain b where b: "MarshalSignature B s = Inr b" by (rule bls_marshals [OF assms(1)])
  have ne: "int i \<noteq> k \<longleftrightarrow> i \<noteq> nat k" for i using assms(2) by auto
  show thesis
  proof (rule that)
    show "createRingSignature B temp signer ring k m = Ok \<lparr>rs_C = ring_challenge B (rs'[nat k := b]),
        rs_S = rs'[nat k := b], rs_Message = m, rs_Ring = ring\<rparr>"
      using assms(2,3) r s b by (simp add: createRingSignature_def Let_def)
  qed (use assms(2,3) r f s b in \<open>auto simp: ne signed_bytes_def nth_list_update\<close>)
qed

text \<open>
  C36. The ring signature of a member is accepted, and it names the member: of all its responses,
  exactly the signer's verifies under the key at the same place, because the others are made with
  keys that nobody holds. Whoever can verify the signature can so tell who signed; the program
  prints that the signer is hidden from the verifier.
\<close>

theorem ring_signature_names_its_signer:
  assumes "bls_laws B" "bls_binding B" "bls_reliable B"
    and "0 \<le> k" "k < int (length ring)" "ring ! nat k = GetPublicKey B signer"
    and "\<And>i. GetPublicKey B (temp i) \<notin> set ring"
  shows "\<exists>rs. createRingSignature B temp signer ring k m = Ok rs
    \<and> verifyRingSignature B ring m (Some rs) = Ok True
    \<and> {i. i < length ring \<and> bls_Verify B (ring ! i) m (NewSignature B (rs_S rs ! i)) = None}
      = {nat k}"
proof -
  obtain rs where c: "createRingSignature B temp signer ring k m = Ok rs"
    and l: "length (rs_S rs) = length ring" "rs_C rs = ring_challenge B (rs_S rs)"
    and s: "signed_bytes B signer m (rs_S rs ! nat k)"
    and o: "\<And>i. i < length ring \<Longrightarrow> i \<noteq> nat k \<Longrightarrow> signed_bytes B (temp i) m (rs_S rs ! i)"
    using create_ring_signature [OF assms(3-5)] by metis
  have v: "bls_Verify B (ring ! i) m (NewSignature B (rs_S rs ! i)) = None \<longleftrightarrow> i = nat k"
    if i: "i < length ring" for i
  proof (cases "i = nat k")
    case True
    with signed_bytes_verify [OF assms(1,2) s] assms(6) show ?thesis by simp
  next
    case False
    then show ?thesis
      using signed_bytes_verify [OF assms(1,2) o [OF i False]] assms(7) i by (metis nth_mem)
  qed
  have "nat k < length ring" using assms(4,5) by simp
  with v [OF this] have "any_response_valid B m (zip ring (rs_S rs))"
    unfolding any_response_valid_iff [OF l(1)] by metis
  then have "verifyRingSignature B ring m (Some rs) = Ok True"
    using l by (simp add: verifyRingSignature_def)
  with c v assms(4,5) show ?thesis by auto
qed

lemma ring_signature_names_its_signer_witness:
  "\<exists>rs. createRingSignature ref_bls (\<lambda>i. ''x'') ''b'' [''a'', ''b'', ''c''] 1 ''hello'' = Ok rs
    \<and> verifyRingSignature ref_bls [''a'', ''b'', ''c''] ''hello'' (Some rs) = Ok True
    \<and> {i. i < length [''a'', ''b'', ''c'']
         \<and> bls_Verify ref_bls ([''a'', ''b'', ''c''] ! i) ''hello'' (NewSignature ref_bls (rs_S rs ! i))
           = None} = {nat 1}"
  by (rule ring_signature_names_its_signer [OF ref_bls_laws ref_bls_binding ref_bls_reliable])
    (simp_all add: ref_bls_def)

text \<open>
  Nor does a ring signature need a member: whoever has seen an ordinary signature of one of them
  on the message can put it in its place, hash the responses and be accepted.
\<close>

lemma ring_signature_from_plain_signature:
  assumes "j < length ring" "bls_Verify B (ring ! j) m (NewSignature B b) = None"
    and "rs_S rs = (replicate (length ring) [])[j := b]" "rs_C rs = ring_challenge B (rs_S rs)"
  shows "verifyRingSignature B ring m (Some rs) = Ok True"
proof -
  have "rs_S rs ! j = b" "length (rs_S rs) = length ring" using assms(1,3) by simp_all
  then have "any_response_valid B m (zip ring (rs_S rs))"
    using assms(1,2) by (auto simp: any_response_valid_iff)
  with assms(3,4) show ?thesis by (simp add: verifyRingSignature_def)
qed

section \<open>Threshold signatures\<close>

lemma tbls_polynomial:
  assumes "tbls_laws B T valid" "0 < t"
  obtains p where "NewPriPoly T t secret rnd = Some p"
  using assms(1) [unfolded tbls_laws_def, THEN conjunct1, rule_format, OF assms(2)] by auto

lemma tbls_shares:
  assumes "tbls_laws B T valid" "NewPriPoly T t secret rnd = Some p" "0 \<le> n" "n \<le> 65536"
  obtains shares where "poly_Shares T p n = Some shares" "length shares = nat n"
  using assms(1) [unfolded tbls_laws_def, THEN conjunct2, THEN conjunct1, rule_format,
      OF assms(2-4)] by auto

lemma tbls_signs:
  assumes "tbls_laws B T valid" "poly_Shares T p n = Some shares" "i < length shares"
  obtains b where "tbls_Sign T (shares ! i) m = Inr b" "valid (poly_Commit T p) m i b"
  using assms(1) [unfolded tbls_laws_def, THEN conjunct2, THEN conjunct2, THEN conjunct1,
      rule_format, OF assms(2,3), of m] by auto

lemma tbls_recovers:
  assumes "tbls_laws B T valid" "NewPriPoly T t secret rnd = Some p" "n \<le> 65536" "distinct I"
    and "\<And>i. i \<in> set I \<Longrightarrow> int i < n" "t \<le> int (length I)"
    and "list_all2 (valid (poly_Commit T p) m) I bs"
  obtains r where "tbls_Recover T (poly_Commit T p) m bs t n = Inr r"
    and "bls_Verify B (group_key T (poly_Commit T p)) m (NewSignature B r) = None"
  using assms(1) [unfolded tbls_laws_def, THEN conjunct2, THEN conjunct2, THEN conjunct2,
      rule_format, OF assms(2-7)] by auto

text \<open>The signers of a scheme, as the loop of the code fills them.\<close>

definition signers_of ::
  "('sc, 'rnd, 'poly, 'share, 'pub, 'pk) tbls_ext \<Rightarrow> 'poly \<Rightarrow> 'share list \<Rightarrow> int \<Rightarrow> int
    \<Rightarrow> ('share, 'pub) ThresholdSigner list" where
  "signers_of T p shares t n =
     map (\<lambda>i. \<lparr>ts_private = shares ! i, ts_public = poly_Commit T p, ts_threshold = t, ts_total = n\<rparr>)
       [0..<nat n]"

lemma signers_of_simps [simp]:
  "length (signers_of T p shares t n) = nat n"
  "i < nat n \<Longrightarrow> ts_private (signers_of T p shares t n ! i) = shares ! i"
  "i < nat n \<Longrightarrow> ts_public (signers_of T p shares t n ! i) = poly_Commit T p"
  "s \<in> set (signers_of T p shares t n) \<Longrightarrow> ts_public s = poly_Commit T p"
  by (auto simp: signers_of_def)

lemma threshold_scheme:
  assumes "tbls_laws B T valid" "0 < t" "t \<le> n" "n \<le> 65536"
  obtains p shares where "NewPriPoly T t secret rnd = Some p"
    and "poly_Shares T p n = Some shares" "length shares = nat n"
    and "NewThresholdScheme T secret rnd t n = Ok (signers_of T p shares t n)"
proof -
  obtain p where p: "NewPriPoly T t secret rnd = Some p"
    by (rule tbls_polynomial [OF assms(1,2)])
  obtain shares where s: "poly_Shares T p n = Some shares" "length shares = nat n"
    by (rule tbls_shares [OF assms(1) p _ assms(4)]) (use assms(2,3) in auto)
  show thesis
    by (rule that [OF p s])
      (use assms(2,3) p s in \<open>simp add: NewThresholdScheme_def signers_of_def Let_def\<close>)
qed

text \<open>Every signer signs, and the bytes of what the loop collects are valid shares.\<close>

lemma collect_signatures_valid:
  assumes "tbls_laws B T valid" "poly_Shares T p n = Some shares" "length shares = nat n"
    and "\<And>i. i \<in> set I \<Longrightarrow> int i < n"
  shows "\<exists>bs. collect_signatures B T (signers_of T p shares t n) m I
      = Ok (map (\<lambda>b. BlsSignature (NewSignature B b)) bs)
    \<and> list_all2 (valid (poly_Commit T p) m) I bs"
  using assms(4)
proof (induction I)
  case (Cons i I)
  then obtain bs where bs: "list_all2 (valid (poly_Commit T p) m) I bs"
    and c: "collect_signatures B T (signers_of T p shares t n) m I
      = Ok (map (\<lambda>b. BlsSignature (NewSignature B b)) bs)"
    by auto
  have i: "i < nat n" using Cons.prems by force
  then obtain b where "tbls_Sign T (shares ! i) m = Inr b" "valid (poly_Commit T p) m i b"
    using tbls_signs [OF assms(1,2)] assms(3) by metis
  with bs c i show ?case
    by (intro exI [of _ "b # bs"]) (simp add: ts_Sign_def)
qed simp

lemma signature_bytes_map:
  assumes "bls_laws B"
  shows "signature_bytes B (map (\<lambda>b. BlsSignature (NewSignature B b)) bs) = Ok bs"
  by (induction bs) (simp_all add: bls_remarshal [OF assms])

lemma signatures_combine:
  assumes "bls_laws B" "tbls_laws B T valid" "n \<le> 65536"
    and "NewPriPoly T t secret rnd = Some p" "poly_Shares T p n = Some shares"
    and "length shares = nat n" "distinct I" "\<And>i. i \<in> set I \<Longrightarrow> int i < n"
  shows "\<exists>sigs. collect_signatures B T (signers_of T p shares t n) m I = Ok sigs
    \<and> length sigs = length I
    \<and> (if t \<le> int (length I)
       then \<exists>s. RecoverSignature B T m sigs t n (poly_Commit T p) = Ok (BlsSignature s)
              \<and> bls_Verify B (group_key T (poly_Commit T p)) m s = None
       else RecoverSignature B T m sigs t n (poly_Commit T p)
              = Err (Fail (MsgTooFewSignatures (length I) t)))"
proof -
  obtain bs where bs: "collect_signatures B T (signers_of T p shares t n) m I
      = Ok (map (\<lambda>b. BlsSignature (NewSignature B b)) bs)"
      "list_all2 (valid (poly_Commit T p) m) I bs"
    using collect_signatures_valid [OF assms(2,5,6,8), of I t m] by blast
  have l: "length bs = length I" using list_all2_lengthD [OF bs(2)] by simp
  show ?thesis
  proof (cases "t \<le> int (length I)")
    case True
    obtain r where "tbls_Recover T (poly_Commit T p) m bs t n = Inr r"
      and "bls_Verify B (group_key T (poly_Commit T p)) m (NewSignature B r) = None"
      by (rule tbls_recovers [OF assms(2,4,3,7,8) True bs(2)])
    with True bs(1) l show ?thesis
      by (simp add: RecoverSignature_def signature_bytes_map [OF assms(1)])
  next
    case False
    with bs(1) l show ?thesis by (simp add: RecoverSignature_def)
  qed
qed

text \<open>
  C35. A threshold scheme of \<open>t\<close> out of \<open>n\<close> signers works: it has \<open>n\<close> signers; the
  signatures of any \<open>t\<close> or more different signers are combined to one that verifies under the
  key of the group; fewer are refused, and so is a threshold above the number of signers.
\<close>

theorem threshold_signature_verifies:
  assumes "bls_laws B" "tbls_laws B T valid" "0 < t" "t \<le> n" "n \<le> 65536"
  shows "\<exists>signers pub. NewThresholdScheme T secret rnd t n = Ok signers
    \<and> length signers = nat n \<and> (\<forall>s\<in>set signers. ts_public s = pub)
    \<and> (\<forall>m I. distinct I \<longrightarrow> (\<forall>i\<in>set I. int i < n) \<longrightarrow>
         (\<exists>sigs. collect_signatures B T signers m I = Ok sigs \<and> length sigs = length I
           \<and> (if t \<le> int (length I)
              then \<exists>s. RecoverSignature B T m sigs t n pub = Ok (BlsSignature s)
                     \<and> bls_Verify B (group_key T pub) m s = None
              else RecoverSignature B T m sigs t n pub
                     = Err (Fail (MsgTooFewSignatures (length I) t)))))
    \<and> NewThresholdScheme T secret rnd (n + 1) n = Err (Fail MsgBadThreshold)"
proof -
  obtain p shares where s: "NewPriPoly T t secret rnd = Some p"
      "poly_Shares T p n = Some shares" "length shares = nat n"
    and c: "NewThresholdScheme T secret rnd t n = Ok (signers_of T p shares t n)"
    by (rule threshold_scheme [OF assms(2-5)])
  have "NewThresholdScheme T secret rnd (n + 1) n = Err (Fail MsgBadThreshold)"
    by (simp add: NewThresholdScheme_def)
  then show ?thesis
    by (intro exI [of _ "signers_of T p shares t n"] exI [of _ "poly_Commit T p"] conjI allI impI
        ballI signatures_combine [OF assms(1,2,5) s]) (auto simp: c)
qed

lemma threshold_signature_verifies_witness:
  "\<exists>signers pub. NewThresholdScheme ref_tbls ''g'' () 2 3 = Ok signers
    \<and> length signers = nat 3 \<and> (\<forall>s\<in>set signers. ts_public s = pub)
    \<and> (\<forall>m I. distinct I \<longrightarrow> (\<forall>i\<in>set I. int i < 3) \<longrightarrow>
         (\<exists>sigs. collect_signatures ref_bls ref_tbls signers m I = Ok sigs \<and> length sigs = length I
           \<and> (if 2 \<le> int (length I)
              then \<exists>s. RecoverSignature ref_bls ref_tbls m sigs 2 3 pub = Ok (BlsSignature s)
                     \<and> bls_Verify ref_bls (group_key ref_tbls pub) m s = None
              else RecoverSignature ref_bls ref_tbls m sigs 2 3 pub
                     = Err (Fail (MsgTooFewSignatures (length I) 2)))))
    \<and> NewThresholdScheme ref_tbls ''g'' () (3 + 1) 3 = Err (Fail MsgBadThreshold)"
  by (rule threshold_signature_verifies [OF ref_bls_laws ref_tbls_laws]) simp_all

section \<open>The programs\<close>

lemma threshold_run_succeeds:
  assumes "bls_laws B" "bls_reliable B" "tbls_laws B T valid" "0 < t" "t \<le> n" "n \<le> 65536"
  shows "threshold_run B T secret rnd v t n m = Ok True"
proof -
  obtain p shares where s: "NewPriPoly T t secret rnd = Some p"
      "poly_Shares T p n = Some shares" "length shares = nat n"
    and c: "NewThresholdScheme T secret rnd t n = Ok (signers_of T p shares t n)"
    by (rule threshold_scheme [OF assms(3-6)])
  let ?pub = "poly_Commit T p" and ?I = "[0..<nat t]"
  have I: "int i < n" if "i \<in> set ?I" for i using that assms(5) by auto
  obtain sigs r where r: "collect_signatures B T (signers_of T p shares t n) m ?I = Ok sigs"
      "RecoverSignature B T m sigs t n ?pub = Ok (BlsSignature r)"
      "bls_Verify B (group_key T ?pub) m r = None"
    using signatures_combine [OF assms(1,3,6) s _ I, of ?I m] assms(4) by auto
  obtain w where w: "FromArray B v [group_key T ?pub] = Inr w"
    using assms(2) unfolding bls_reliable_def by blast
  have "signers_of T p shares t n \<noteq> []" using assms(4,5) by (simp add: signers_of_def)
  moreover have "ts_public (signers_of T p shares t n ! 0) = ?pub" using assms(4,5) by simp
  moreover have "\<not> t < 0" using assms(4) by simp
  ultimately show ?thesis
    using c r w bls_one_key [OF assms(1) w r(3)] by (simp add: threshold_run_def verifies_by_def)
qed

lemma aggregate_and_verify_succeeds:
  assumes "bls_laws B" "bls_reliable B" "sks \<noteq> []"
    and "list_all2 (\<lambda>sk s. bls_Sign B sk m = Inr s) sks sigs"
  shows "aggregate_and_verify B f (map (GetPublicKey B) sks) m sigs = Ok True"
proof -
  obtain s where s: "Aggregate B f sigs = Inr s"
    using assms(2) unfolding bls_reliable_def by blast
  obtain v where v: "FromArray B f (map (GetPublicKey B) sks) = Inr v"
    using assms(2) unfolding bls_reliable_def by blast
  from bls_aggregate [OF assms(1,3,4) s v] s v show ?thesis
    by (simp add: aggregate_and_verify_def verifies_by_def)
qed

lemma multi_main_succeeds:
  assumes "bls_laws B" "bls_reliable B"
  shows "multi_main B s1 s2 s3 s4 = Ok (True, True)"
proof -
  obtain g1 where 1: "bls_Sign B s1 multi_message = Inr g1" by (rule bls_reliableE [OF assms(2)])
  obtain g2 where 2: "bls_Sign B s2 multi_message = Inr g2" by (rule bls_reliableE [OF assms(2)])
  obtain g3 where 3: "bls_Sign B s3 multi_message = Inr g3" by (rule bls_reliableE [OF assms(2)])
  have "aggregate_and_verify B f (map (GetPublicKey B) [s1, s2, s3]) multi_message [g1, g2, g3]
      = Ok True" for f
    by (rule aggregate_and_verify_succeeds [OF assms]) (simp_all add: 1 2 3)
  with 1 2 3 show ?thesis by (simp add: multi_main_def Let_def)
qed

lemma DecodeString_EncodeToString [simp]: "DecodeString (EncodeToString b) = Inr b"
  by (simp add: DecodeString_def EncodeToString_def)

lemma single_main_recovers:
  assumes "bls_laws B" "bls_reliable B"
  shows "\<exists>priv pub. single_main B sk = Ok (priv, pub) \<and> recover_run B priv = Ok pub"
proof -
  obtain s where s: "bls_Sign B sk ''Hello BLS Signature'' = Inr s"
    by (rule bls_reliableE [OF assms(2)])
  obtain k where k: "MarshalSigner B sk = Inr k"
    using assms(2) unfolding bls_reliable_def by blast
  obtain q where q: "MarshalPublicKey B (GetPublicKey B sk) = Inr q"
    using assms(2) unfolding bls_reliable_def by blast
  show ?thesis
    using s k q bls_verifies [OF assms(1) s] bls_signer_bytes [OF assms(1) k]
    by (simp add: single_main_def recover_run_def Let_def)
qed

text \<open>
  C37. The other programs print that verification succeeded, whatever keys they draw: the
  threshold signature of two out of three, the aggregate of three signatures (made by a signer
  or by a fourth party), the single signature. The hexadecimal private key that the last one
  prints gives the public key it prints when it is entered into the recovery program.
\<close>

theorem signature_programs_succeed:
  assumes "bls_laws B" "bls_reliable B" "tbls_laws B T valid"
  shows "threshold_main B T secret rnd v = Ok True
    \<and> multi_main B s1 s2 s3 s4 = Ok (True, True)
    \<and> (\<exists>priv pub. single_main B sk = Ok (priv, pub) \<and> recover_run B priv = Ok pub)"
  using assms by (simp add: threshold_main_def threshold_run_succeeds multi_main_succeeds
      single_main_recovers)

lemma signature_programs_succeed_witness:
  "threshold_main ref_bls ref_tbls ''g'' () ''v'' = Ok True
    \<and> multi_main ref_bls ''a'' ''b'' ''c'' ''d'' = Ok (True, True)
    \<and> (\<exists>priv pub. single_main ref_bls ''k'' = Ok (priv, pub) \<and> recover_run ref_bls priv = Ok pub)"
  by (rule signature_programs_succeed [OF ref_bls_laws ref_bls_reliable ref_tbls_laws])

end
