(* ===== verification/Races.thy ===== *)
theory Races
  imports Network_Props
begin

text \<open>
  Two connections are read by two goroutines, and \<open>handleLastBlockResponse\<close> (p2pnetwork.go)
  holds no lock between reading the last block and saving a later one. Here it is split into
  these two accesses of the database, and any number of handlers interleave.
\<close>

section \<open>The handler in two steps\<close>

datatype last_task = Received Block | Later Block | Finished

definition task_step ::
    "('db, 'tr, 'nd, 'tdb) store_ext \<Rightarrow> last_task \<times> ('db, 'tr) Blockchain
      \<Rightarrow> last_task \<times> ('db, 'tr) Blockchain" where
  "task_step X s =
     (case s of
        (Received block, bc) \<Rightarrow>
          (case GetLastBlock X bc of
             Ok lastBlock \<Rightarrow> (if Index block > Index lastBlock then Later block else Finished, bc)
           | _ \<Rightarrow> (Finished, bc))
      | (Later block, bc) \<Rightarrow> (Finished, fst (SaveLastBlock X block bc))
      | (Finished, bc) \<Rightarrow> (Finished, bc))"

text \<open>The two steps without an interruption are the handler.\<close>

lemma task_steps_handle:
  "task_step X (task_step X (Received b, bc)) = (Finished, fst (handleLastBlockResponse X b bc))"
  by (simp add: task_step_def handleLastBlockResponse_def split: outcome.splits)

text \<open>A schedule is the list of the handlers in the order in which they make a step.\<close>

fun run_tasks ::
    "('db, 'tr, 'nd, 'tdb) store_ext \<Rightarrow> nat list \<Rightarrow> last_task list \<times> ('db, 'tr) Blockchain
      \<Rightarrow> last_task list \<times> ('db, 'tr) Blockchain" where
  "run_tasks X [] s = s"
| "run_tasks X (i # sched) (ts, bc) =
     (if i < length ts then
        (case task_step X (ts ! i, bc) of (t, bc') \<Rightarrow> run_tasks X sched (ts[i := t], bc'))
      else run_tasks X sched (ts, bc))"

section \<open>What every schedule keeps\<close>

text \<open>
  The last block is the one at the start or a later one of those received, and what waits to be
  saved is later than the one at the start.
\<close>

definition last_inv ::
    "('db, 'tr, 'nd, 'tdb) store_ext \<Rightarrow> Block list \<Rightarrow> Block \<Rightarrow> last_task list \<times> ('db, 'tr) Blockchain
      \<Rightarrow> bool" where
  "last_inv X bs l s \<longleftrightarrow>
     (\<exists>d. GetLastBlock X (snd s) = Ok d
        \<and> (Index d = Index l \<or> Index d \<in> Index ` set bs \<and> Index l < Index d))
   \<and> (\<forall>b. Received b \<in> set (fst s) \<longrightarrow> b \<in> set bs)
   \<and> (\<forall>b. Later b \<in> set (fst s) \<longrightarrow> b \<in> set bs \<and> Index l < Index b)"

lemma last_inv_update:
  assumes "last_inv X bs l (ts, bc)" "i < length ts" "task_step X (ts ! i, bc) = (t, bc')"
    "key_laws X"
  shows "last_inv X bs l (ts[i := t], bc')"
proof -
  obtain d where d: "GetLastBlock X bc = Ok d"
      "Index d = Index l \<or> Index d \<in> Index ` set bs \<and> Index l < Index d"
    using assms(1) by (auto simp: last_inv_def)
  have set: "set (ts[i := t]) \<subseteq> insert t (set ts)" by (rule set_update_subset_insert)
  have i: "ts ! i \<in> set ts" using assms(2) by simp
  have rest: "Received b \<in> set ts \<Longrightarrow> b \<in> set bs" "Later b \<in> set ts \<Longrightarrow> b \<in> set bs \<and> Index l < Index b"
    for b using assms(1) by (auto simp: last_inv_def)
  have t: "(\<forall>b. t \<noteq> Received b) \<and> (\<forall>b. t = Later b \<longrightarrow> b \<in> set bs \<and> Index l < Index b)"
    using assms(3) d rest(1) i by (auto simp: task_step_def split: last_task.splits if_splits)
  have "\<exists>d. GetLastBlock X bc' = Ok d
      \<and> (Index d = Index l \<or> Index d \<in> Index ` set bs \<and> Index l < Index d)"
  proof (cases "ts ! i")
    case (Later b)
    then have bc': "bc' = fst (SaveLastBlock X b bc)" using assms(3) by (simp add: task_step_def)
    show ?thesis
    proof (cases "snd (SaveLastBlock X b bc) = Ok ()")
      case True
      then have "SaveLastBlock X b bc = (bc', Ok ())" by (simp add: bc' prod_eq_iff)
      from SaveLastBlock_Ok(1) [OF assms(4) this] rest(2) [of b] i Later show ?thesis by simp
    next
      case False
      then have "bc' = bc" by (auto simp: bc' SaveLastBlock_def split: sum.splits)
      with d show ?thesis by simp
    qed
  qed (use assms(3) d in \<open>auto simp: task_step_def split: if_splits\<close>)
  with t set rest show ?thesis unfolding last_inv_def by auto
qed

lemma last_inv_run:
  assumes "key_laws X" "last_inv X bs l s"
  shows "last_inv X bs l (run_tasks X sched s)"
  using assms(2)
proof (induction sched arbitrary: s)
  case (Cons i sched)
  obtain ts bc where s: "s = (ts, bc)" by (cases s)
  obtain t bc' where t: "task_step X (ts ! i, bc) = (t, bc')" by (metis surj_pair)
  show ?case
  proof (cases "i < length ts")
    case True
    from Cons.IH [OF last_inv_update [OF Cons.prems [unfolded s] True t assms(1)]] True t s
    show ?thesis by simp
  next
    case False
    with Cons s show ?thesis by simp
  qed
qed simp

section \<open>A lost update\<close>

lemma save_last_block:
  assumes "reliable X stored" "key_laws X"
  obtains bc' where "SaveLastBlock X b bc = (bc', Ok ())" "GetLastBlock X bc' = Ok (san_Block b)"
proof -
  obtain d where "db_Put X (db bc) LAST_BLOCK (marshal_Block b) = Inr d"
    using rel_put [OF assms(1)] db_keys_member(5) by blast
  then have s: "SaveLastBlock X b bc = (bc\<lparr>db := d\<rparr>, Ok ())" by (simp add: SaveLastBlock_def)
  from that [OF this SaveLastBlock_Ok(1) [OF assms(2) this]] show thesis .
qed

lemma handle_later_block:
  assumes "reliable X stored" "key_laws X" "GetLastBlock X bc = Ok l"
  shows "\<exists>d. GetLastBlock X (fst (handleLastBlockResponse X b bc)) = Ok d
    \<and> Index d = max (Index l) (Index b)"
proof -
  obtain bc' where "SaveLastBlock X b bc = (bc', Ok ())" "GetLastBlock X bc' = Ok (san_Block b)"
    by (rule save_last_block [OF assms(1,2)])
  then show ?thesis
    using assms(3) by (auto simp: handleLastBlockResponse_def max_def)
qed

text \<open>
  C26. Handling two last blocks at once can lose the later one. Handled one after the other, in
  either order, the later block \<open>a\<close> is the last block at the end. Handled concurrently, both
  handlers may compare with the block at the start, and then the earlier block \<open>b\<close> is stored
  over \<open>a\<close>. Under no schedule is the last block another one, or earlier than at the start.
\<close>

theorem last_block_update_gets_lost:
  assumes "reliable X stored" "key_laws X" "GetLastBlock X bc = Ok l"
    and "Index l < Index b" "Index b < Index a"
  shows "(\<exists>d. GetLastBlock X (fst (handleLastBlockResponse X b (fst (handleLastBlockResponse X a bc)))) = Ok d
      \<and> Index d = Index a)
    \<and> (\<exists>d. GetLastBlock X (fst (handleLastBlockResponse X a (fst (handleLastBlockResponse X b bc)))) = Ok d
      \<and> Index d = Index a)
    \<and> (\<exists>d. GetLastBlock X (snd (run_tasks X [0, 1, 0, 1] ([Received a, Received b], bc))) = Ok d
      \<and> Index d = Index b)
    \<and> (\<forall>sched. \<exists>d. GetLastBlock X (snd (run_tasks X sched ([Received a, Received b], bc))) = Ok d
      \<and> Index d \<in> {Index l, Index a, Index b})"
proof (intro conjI allI)
  note seq = handle_later_block [OF assms(1,2)]
  obtain d where "GetLastBlock X (fst (handleLastBlockResponse X a bc)) = Ok d" "Index d = Index a"
    using seq [OF assms(3), of a] max_absorb2 [of "Index l" "Index a"] assms(4,5) by auto
  with seq [OF this(1), of b] assms(5)
  show "\<exists>d. GetLastBlock X (fst (handleLastBlockResponse X b (fst (handleLastBlockResponse X a bc)))) = Ok d
      \<and> Index d = Index a" by (auto simp: max_def)
  obtain d where "GetLastBlock X (fst (handleLastBlockResponse X b bc)) = Ok d" "Index d = Index b"
    using seq [OF assms(3), of b] max_absorb2 [of "Index l" "Index b"] assms(4) by auto
  with seq [OF this(1), of a] assms(5)
  show "\<exists>d. GetLastBlock X (fst (handleLastBlockResponse X a (fst (handleLastBlockResponse X b bc)))) = Ok d
      \<and> Index d = Index a" by (auto simp: max_def)
  obtain bc1 where 1: "SaveLastBlock X a bc = (bc1, Ok ())"
    by (rule save_last_block [OF assms(1,2)])
  obtain bc2 where 2: "SaveLastBlock X b bc1 = (bc2, Ok ())" "GetLastBlock X bc2 = Ok (san_Block b)"
    by (rule save_last_block [OF assms(1,2)])
  show "\<exists>d. GetLastBlock X (snd (run_tasks X [0, 1, 0, 1] ([Received a, Received b], bc))) = Ok d
      \<and> Index d = Index b"
    using assms(3-5) order.strict_trans [OF assms(4,5)] 1 2 by (simp add: task_step_def)
next
  fix sched
  have "last_inv X [a, b] l ([Received a, Received b], bc)"
    using assms(3) by (auto simp: last_inv_def)
  from last_inv_run [OF assms(2) this, of sched]
  show "\<exists>d. GetLastBlock X (snd (run_tasks X sched ([Received a, Received b], bc))) = Ok d
      \<and> Index d \<in> {Index l, Index a, Index b}"
    by (auto simp: last_inv_def)
qed

lemma last_block_update_gets_lost_witness:
  "\<exists>d. GetLastBlock ref_store (snd (run_tasks ref_store [0, 1, 0, 1]
       ([Received (demo_block 9 ''a''), Received (demo_block 5 ''b'')], demo_node 2 []))) = Ok d
     \<and> Index d = 5"
  using last_block_update_gets_lost [OF ref_reliable ref_key_laws demo_node_facts(4),
      of "demo_block 5 ''b''" "demo_block 9 ''a''"] by simp

end
