(* ===== verification/Spec2Isabelle.thy ===== *)
theory Spec2Isabelle
  imports Node_Main Bls_Props Races
begin

text \<open>
  \<^bold>\<open>A blockchain node and its signature demonstrations.\<close>

  The repository has two parts. \<open>app\<close> is a node of a small permissioned blockchain: three
  configured nodes take turns to propose a block every few seconds; a block names the
  transactions to execute; accounts, transactions and blocks are kept in three Merkle-Patricia
  tries over one LevelDB database; nodes exchange blocks and transactions over go-ethereum's
  p2p transport; clients read the ledger and submit transactions over HTTP. \<open>bls-demo\<close> holds
  five stand-alone programs for BLS signatures. Every Go function of both parts is translated
  here, except for what the last paragraph lists.

  \<^bold>\<open>How the parts interact.\<close> \<open>main\<close> (cmd/node/node.go) opens the chain with
  \<open>GetInstance\<close> and \<open>Init\<close>, starts the network and serves the API. The network calls
  \<open>HandleNewBlock\<close> for each block it receives, \<open>ProposeNewBlock\<close> on a timer and
  \<open>AddTransaction\<close> for each transaction; the API calls \<open>CreateAndAddTransaction\<close> and
  the getters. Proposing executes the mempool, accepting executes the transaction IDs of the
  block; both change accounts and record transactions, and end in \<open>SaveBlockToTrie\<close>.
  Executing an unknown ID asks the network (\<open>RequestTransaction\<close>).

  \<^bold>\<open>Theories and sources\<close> (under src/app/internal, unless said otherwise).

  \<^item> \<open>Go_Prelude\<close>: Go types, errors and outcomes, the hint collections, generic lemmas.
  \<^item> \<open>Go_Strings\<close>, \<open>Go_Json\<close>: what the program uses of \<open>strconv\<close>,
    \<open>unicode/utf8\<close>, \<open>encoding/base64\<close> and \<open>encoding/json\<close> (printer, reader, and the
    decoding of struct fields), with their round trips.
  \<^item> \<open>Chain_Data\<close>: the structs of blockchain/block.go, tx.go, account.go and chain.go
    and their JSON.
  \<^item> \<open>External\<close>: the storage and cryptography the program calls, as parameters with laws
    and a concrete instance of both.
  \<^item> \<open>Signatures\<close>: signing and verifying (chain.go, tx.go, account.go).
  \<^item> \<open>Mempools\<close>: the mempool of tx.go, as an instance of the interface \<open>keyed_pool\<close>.
  \<^item> \<open>Stores\<close>: the struct \<open>Blockchain\<close>, opening tries, and the interfaces
    \<open>kv_store\<close> and \<open>ledger\<close> of the three stores.
  \<^item> \<open>Accounts\<close> (account.go), \<open>Transactions\<close> (tx.go up to processing),
    \<open>Blocks\<close> (the block store of chain.go): the operations on the three tries and the
    instances of the interfaces.
  \<^item> \<open>Processing\<close>: the two loops of tx.go that execute transactions.
    \<open>Ledger_Spec\<close>: the abstract ledger they refine.
  \<^item> \<open>Chain\<close>: proposing and accepting (chain.go).
  \<^item> \<open>Durability\<close>, \<open>Startup\<close>: what is on disk; \<open>Init\<close>, \<open>GetInstance\<close> and the
    configuration file (chain.go).
  \<^item> \<open>P2P\<close>: p2pnetwork/p2pnetwork.go, the registry, the handlers, the timers; one
    \<open>event\<close> at a node. \<open>Node_Runs\<close>: runs of a node, with restarts.
    \<open>Races\<close>: handlers of last blocks that interleave.
  \<^item> \<open>Api\<close>: api/server.go. \<open>Node_Main\<close>: cmd/node/node.go.
  \<^item> \<open>Bls_Demos\<close>: the programs under src/bls-demo.
  \<^item> \<open>Processing_Props\<close>, \<open>Core_Props\<close>, \<open>Chain_Props\<close>, \<open>Network_Props\<close>,
    \<open>Bls_Props\<close>: properties; \<open>Demo_State\<close>: the concrete node of the witnesses.

  \<^bold>\<open>How state and operations correspond.\<close> A struct is a record with the fields of the
  source, a nil pointer or slice \<open>None\<close>, a \<open>uint64\<close> a 64-bit word that wraps, a string
  or byte slice a list of bytes. A method on \<open>*Blockchain\<close> takes the record and returns it
  updated, beside an outcome \<open>Ok\<close>, \<open>Err\<close> or \<open>Panic\<close> (nil dereference, bound out of
  range); changes made before an error are in the returned state, since the code does not undo
  them. Logging and printing have no effect on the state and are left out, but for
  \<open>PrintMempool\<close>, which can panic, and the programs of bls-demo, whose output is their result.
  The clock, random draws, the order in which Go ranges over a map (\<open>ks\<close>) and what the network
  answers (\<open>net\<close>) are arguments, so the theorems hold for all of them. A \<open>float64\<close> of a
  request is a rational number, rounded as IEEE arithmetic does.

  \<^bold>\<open>Parameters.\<close> \<open>store_ext\<close>: LevelDB, tries and node sets; \<open>crypto_ext\<close>:
  hexutil, secp256k1, Keccak and SHA-256; \<open>host_ext\<close>: files and opening the database;
  \<open>rlp_ext\<close>: the coding of messages; \<open>server_ext\<close>: the p2p server and its node addresses;
  \<open>bls_ext\<close>, \<open>tbls_ext\<close>: dela and kyber. Definitions assume nothing of them. The laws
  state their documented behaviour (what is written is read, a signature recovers the key of its
  signer, a message decodes to what was encoded); where a theorem needs that no call fails, it
  says so (\<open>reliable\<close>, \<open>bls_reliable\<close>). The instances \<open>ref_store\<close>,
  \<open>ref_crypto\<close>, \<open>ref_rlp\<close>, \<open>ref_bls\<close>, \<open>ref_tbls\<close> satisfy all laws at once, and
  every theorem with a hypothesis is applied to them.

  \<^bold>\<open>What the lemmas show.\<close>

  \<^item> Data: encoding and decoding give back every block, account and transaction (strings
    repaired to UTF-8 as Go does); the ID of a transaction is ambiguous.
  \<^item> Signatures: what is signed verifies under the signer's key and no other.
  \<^item> Stores: each trie is a map, with the laws of \<open>kv_store\<close>; \<open>ledger\<close> adds the sum
    of a measure over the entries, by which money is counted.
  \<^item> Processing: as long as no transaction pays its own sender, neither loop creates money,
    and none is lost when the loop ends without an error; no ID is executed twice; the loop
    refines the execution on the abstract ledger, with the same results and the same order.
  \<^item> Chain: proposing, accepting and saving keep a chain without gaps; the schedule of the
    proposers and its wrap-around; what acceptance fails to check.
  \<^item> Start-up: the first start makes a healthy node, a restart restores blocks, records and
    accounts exactly; \<open>main\<close> composes them with the network.
  \<^item> Runs: a healthy node stays healthy under any sequence of messages, timers, submissions
    and restarts, its chain is append-only, and every pending transaction is signed.
  \<^item> Network and API: a node that is behind catches up; the API shows the ledger and changes
    it only by verified submissions; two handlers of last blocks at once can lose an update.
  \<^item> Demonstrations: the programs succeed; a ring signature shows its signer.

  Some of these are defects of the code, stated as it behaves: a transfer to oneself creates the
  amount, a block signed by anyone is accepted, a refused block has been executed, saving a block
  is not atomic, a transaction from the network is not verified, the first error of a peer
  crashes the execution of a block, and others in the same vein.

  \<^bold>\<open>Bounds.\<close> The JSON reader recurses on fuel, one more than the length of the input, which
  is enough: one unit is used per nested call, and each consumes input. \<open>RestoreTrieFromRootHash\<close> tries at most four
  times. Sums of balances are natural numbers; the theorems about money assume a total below
  \<open>2 ^ 64\<close>, so that no 64-bit balance wraps. A run of \<open>n\<close>
  events assumes that the block number can grow by \<open>n\<close> without wrapping. Threshold schemes
  have at most 65536 shares, the range of their 16-bit index.

  \<^bold>\<open>Not modelled.\<close> The transport of p2p and the server of \<open>net/http\<close> (libraries);
  \<open>Stop\<close>, which only stops that library; the Dockerfile and compose files. In a run each
  handler and timer is one atomic step. The mutexes of the source justify this for the mempool,
  the registry, \<open>ProposeNewBlock\<close> and \<open>HandleNewBlock\<close>. The handler of last blocks holds
  none: \<open>Races\<close> splits it into its two accesses. Interleavings of the other unprotected
  accesses (the API and the getters read while a block is executed) are outside the model. A configuration that repeats the key \<open>nodes\<close> makes Go
  reuse the elements of the first list; the model takes the last one.
\<close>

end
